(* ===== verification/Tollwing_Prelude.thy ===== *)
theory Tollwing_Prelude
  imports Main "HOL-Library.Word"
begin

text \<open>
  Shared ground of the development: the C integer types, the collections of facts that the
  component theories extend, byte images of words, sums over the entries of a map (the
  bookkeeping behind every "no byte is lost" statement), and folds that keep an invariant.
\<close>

unbundle bit_operations_syntax

type_synonym u8 = "8 word"
type_synonym u16 = "16 word"
type_synonym u32 = "32 word"
type_synonym u64 = "64 word"

named_theorems frame_simps \<open>what an operation leaves unchanged\<close>
named_theorems hook_defs \<open>unfolding of the hook programs\<close>
named_theorems wf_intros \<open>preservation of the well-formedness of the agent's maps\<close>

section \<open>Bytes of words\<close>

definition le_bytes16 :: "u16 \<Rightarrow> u8 list" where
  "le_bytes16 w = [ucast w, ucast (drop_bit 8 w)]"

definition le_bytes32 :: "u32 \<Rightarrow> u8 list" where
  "le_bytes32 w = [ucast w, ucast (drop_bit 8 w), ucast (drop_bit 16 w), ucast (drop_bit 24 w)]"

definition le_word16 :: "u8 \<Rightarrow> u8 \<Rightarrow> u16" where
  "le_word16 b0 b1 = ucast b0 OR push_bit 8 (ucast b1)"

definition le_word32 :: "u8 \<Rightarrow> u8 \<Rightarrow> u8 \<Rightarrow> u8 \<Rightarrow> u32" where
  "le_word32 b0 b1 b2 b3 =
     ucast b0 OR push_bit 8 (ucast b1) OR push_bit 16 (ucast b2) OR push_bit 24 (ucast b3)"

lemma length_le_bytes [simp]: "length (le_bytes16 h) = 2" "length (le_bytes32 w) = 4"
  by (simp_all add: le_bytes16_def le_bytes32_def)

text \<open>Two words are equal when their bytes are: bit positions split by the byte they lie in.\<close>

lemma word16_byte_eqI:
  fixes a b :: u16
  assumes "\<And>j. j < 8 \<Longrightarrow> bit a j = bit b j" and "\<And>j. j < 8 \<Longrightarrow> bit a (8 + j) = bit b (8 + j)"
  shows "a = b"
proof (rule bit_word_eqI)
  fix n assume "n < LENGTH(16)"
  then consider "n < 8" | "n = 8 + (n - 8)" "n - 8 < 8" by force
  then show "bit a n = bit b n" by cases (use assms in metis)+
qed

lemma word32_byte_eqI:
  fixes a b :: u32
  assumes "\<And>j. j < 8 \<Longrightarrow> bit a j = bit b j" and "\<And>j. j < 8 \<Longrightarrow> bit a (8 + j) = bit b (8 + j)"
    and "\<And>j. j < 8 \<Longrightarrow> bit a (16 + j) = bit b (16 + j)"
    and "\<And>j. j < 8 \<Longrightarrow> bit a (24 + j) = bit b (24 + j)"
  shows "a = b"
proof (rule bit_word_eqI)
  fix n assume "n < LENGTH(32)"
  then consider "n < 8" | "n = 8 + (n - 8)" "n - 8 < 8" | "n = 16 + (n - 16)" "n - 16 < 8"
    | "n = 24 + (n - 24)" "n - 24 < 8" by force
  then show "bit a n = bit b n" by cases (use assms in metis)+
qed

lemma word64_half_eqI:
  fixes a b :: u64
  assumes "\<And>j. j < 32 \<Longrightarrow> bit a j = bit b j" and "\<And>j. j < 32 \<Longrightarrow> bit a (32 + j) = bit b (32 + j)"
  shows "a = b"
proof (rule bit_word_eqI)
  fix n assume "n < LENGTH(64)"
  then consider "n < 32" | "n = 32 + (n - 32)" "n - 32 < 32" by force
  then show "bit a n = bit b n" by cases (use assms in metis)+
qed

lemma word64_byte_eqI:
  fixes a b :: u64
  assumes "\<And>j i. j < 8 \<Longrightarrow> i < 8 \<Longrightarrow> bit a (8 * i + j) = bit b (8 * i + j)"
  shows "a = b"
proof (rule bit_word_eqI)
  fix n assume "n < LENGTH(64)"
  then have "n mod 8 < 8" "n div 8 < 8" "8 * (n div 8) + n mod 8 = n" by auto
  then show "bit a n = bit b n" using assms [of "n mod 8" "n div 8"] by simp
qed

lemma le_word16_bytes: "le_word16 (ucast w) (ucast (drop_bit 8 w)) = w"
  by (rule word16_byte_eqI) (auto simp: le_word16_def bit_simps)

lemma le_word32_bytes:
  "le_word32 (ucast w) (ucast (drop_bit 8 w)) (ucast (drop_bit 16 w)) (ucast (drop_bit 24 w)) = w"
  by (rule word32_byte_eqI) (auto simp: le_word32_def bit_simps)

lemma u8_eq_bits: "(a :: u8) = b \<longleftrightarrow> (\<forall>n \<in> {0, 1, 2, 3, 4, 5, 6, 7}. bit a n = bit b n)"
proof
  assume h: "\<forall>n \<in> {0, 1, 2, 3, 4, 5, 6, 7}. bit a n = bit b n"
  show "a = b"
  proof (rule bit_word_eqI)
    fix n assume "n < LENGTH(8)"
    then have "n \<in> {0, 1, 2, 3, 4, 5, 6, 7}" by auto
    then show "bit a n = bit b n" using h by blast
  qed
qed simp

text \<open>The bytes of a 16-bit value as they stand on the wire.\<close>

definition be_bytes16 :: "u16 \<Rightarrow> u8 list" where
  "be_bytes16 w = [ucast (drop_bit 8 w), ucast w]"

lemma length_be_bytes16 [simp]: "length (be_bytes16 w) = 2"
  by (simp add: be_bytes16_def)

text \<open>Storing bytes over a buffer at an offset, as a pointer write in C does.\<close>

definition store_bytes :: "'a list \<Rightarrow> nat \<Rightarrow> 'a list \<Rightarrow> 'a list" where
  "store_bytes buf off bs = take off buf @ bs @ drop (off + length bs) buf"

lemma length_store_bytes [simp]:
  "off + length bs \<le> length buf \<Longrightarrow> length (store_bytes buf off bs) = length buf"
  by (simp add: store_bytes_def)

section \<open>Sums over the entries of a map\<close>

definition map_total :: "('v \<Rightarrow> 'n::ab_group_add) \<Rightarrow> ('k \<rightharpoonup> 'v) \<Rightarrow> 'n" where
  "map_total g m = (\<Sum>k\<in>dom m. g (the (m k)))"

lemma map_total_empty [simp]: "map_total g Map.empty = 0"
  by (simp add: map_total_def)

lemma map_total_insert:
  assumes "finite (dom m)" and "m k = None"
  shows "map_total g (m(k \<mapsto> v)) = map_total g m + g v"
proof -
  have "(\<Sum>j\<in>dom m. g (the ((m(k \<mapsto> v)) j))) = (\<Sum>j\<in>dom m. g (the (m j)))"
    by (rule sum.cong) (use assms in auto)
  moreover have "k \<notin> dom m" using assms by auto
  ultimately show ?thesis
    using assms by (simp add: map_total_def add.commute)
qed

lemma map_total_delete:
  assumes "finite (dom m)" and "m k = Some w"
  shows "map_total g (m(k := None)) = map_total g m - g w"
proof -
  have "m = (m(k := None))(k \<mapsto> w)" using assms by auto
  then have "map_total g m = map_total g ((m(k := None))(k \<mapsto> w))" by simp
  also have "\<dots> = map_total g (m(k := None)) + g w"
    by (rule map_total_insert) (use assms in auto)
  finally show ?thesis by simp
qed

lemma map_total_update:
  assumes "finite (dom m)" and "m k = Some w"
  shows "map_total g (m(k \<mapsto> v)) = map_total g m + (g v - g w)"
proof -
  have "map_total g ((m(k := None))(k \<mapsto> v)) = map_total g (m(k := None)) + g v"
    by (rule map_total_insert) (use assms in auto)
  then show ?thesis by (simp add: map_total_delete [OF assms])
qed

text \<open>Totals over the CPUs of a per-CPU value.\<close>

definition cpu_total :: "nat \<Rightarrow> ('v \<Rightarrow> 'n::ab_group_add) \<Rightarrow> (nat \<Rightarrow> 'v) \<Rightarrow> 'n" where
  "cpu_total n g vals = (\<Sum>c<n. g (vals c))"

lemma cpu_total_upd:
  assumes "c < n"
  shows "cpu_total n g (vals(c := v)) = cpu_total n g vals + (g v - g (vals c))"
proof -
  have "cpu_total n g (vals(c := v))
      = g v + (\<Sum>d\<in>{..<n} - {c}. g ((vals(c := v)) d))"
    using assms by (simp add: cpu_total_def sum.remove [of "{..<n}" c])
  also have "(\<Sum>d\<in>{..<n} - {c}. g ((vals(c := v)) d)) = (\<Sum>d\<in>{..<n} - {c}. g (vals d))"
    by (rule sum.cong) auto
  also have "g v + (\<Sum>d\<in>{..<n} - {c}. g (vals d)) = cpu_total n g vals + (g v - g (vals c))"
    using assms by (simp add: cpu_total_def sum.remove [of "{..<n}" c])
  finally show ?thesis .
qed

lemma cpu_total_zero [simp]: "(\<And>c. g (vals c) = 0) \<Longrightarrow> cpu_total n g vals = 0"
  by (simp add: cpu_total_def)

lemma cpu_total_single:
  assumes "c < n" and "\<And>d. d \<noteq> c \<Longrightarrow> g (vals d) = 0"
  shows "cpu_total n g vals = g (vals c)"
proof -
  have "cpu_total n g vals = g (vals c) + (\<Sum>d\<in>{..<n} - {c}. g (vals d))"
    using assms(1) by (simp add: cpu_total_def sum.remove [of "{..<n}" c])
  also have "(\<Sum>d\<in>{..<n} - {c}. g (vals d)) = 0"
    by (rule sum.neutral) (use assms(2) in auto)
  finally show ?thesis by simp
qed

section \<open>Folds that keep an invariant\<close>

text \<open>
  A machine is a step function over inputs. What one step keeps, every run keeps; what one
  step adds, a run adds up. The locale is interpreted on the agent's step function.
\<close>

locale kept_by_steps =
  fixes move :: "'i \<Rightarrow> 's \<Rightarrow> 's" and inv :: "'s \<Rightarrow> bool" and allowed :: "'i \<Rightarrow> bool"
  assumes step_keeps: "inv s \<Longrightarrow> allowed i \<Longrightarrow> inv (move i s)"
begin

lemma run_keeps: "inv s \<Longrightarrow> \<forall>i \<in> set is. allowed i \<Longrightarrow> inv (fold move is s)"
  by (induction "is" arbitrary: s) (auto intro: step_keeps)

lemma prefix_keeps: "inv s \<Longrightarrow> \<forall>i \<in> set is. allowed i \<Longrightarrow> inv (fold move (take n is) s)"
  by (rule run_keeps) (auto dest: in_set_takeD)

end

end
