(* ===== verification/Bpf_Endian.thy ===== *)
theory Bpf_Endian
  imports Tollwing_Prelude
begin

text \<open>
  The byte-order macros of \<open>include/bpf/bpf_endian.h\<close>: the shift-and-or macros used for
  compile-time constants, the compiler's byte-swap builtins used at run time, and the
  \<open>bpf_ntohs\<close> family on both byte orders. The object files are built for \<open>bpfel\<close>, so the
  programs use the family at \<open>Little\<close>. The lemmas show that the two expansions agree, that
  the conversions are involutions, and that the port conversions of the programs recover the
  port in host order from the kernel's encodings of it.
\<close>

unbundle bit_operations_syntax

section \<open>The constant-folding macros\<close>

text \<open>
  \<open>___bpf_mvb(x, b, n, m)\<close> on a value already promoted to the type the C expression is
  evaluated in: for \<open>b = 16\<close> the operand is promoted to \<open>int\<close>, so the left shift does not
  truncate; for 32 and 64 it is evaluated at its own width.
\<close>

definition bpf_mvb :: "'a::len word \<Rightarrow> nat \<Rightarrow> nat \<Rightarrow> nat \<Rightarrow> 'a word" where
  "bpf_mvb x b n m = push_bit (m * 8) (drop_bit (b - 8) (push_bit (b - (n + 1) * 8) x))"

definition bpf_swab16 :: "u16 \<Rightarrow> u16" where
  "bpf_swab16 x = (let i = (ucast x :: u32) in ucast (bpf_mvb i 16 0 1 OR bpf_mvb i 16 1 0))"

definition bpf_swab32 :: "u32 \<Rightarrow> u32" where
  "bpf_swab32 x = (bpf_mvb x 32 0 3 OR bpf_mvb x 32 1 2 OR bpf_mvb x 32 2 1 OR bpf_mvb x 32 3 0)"

definition bpf_swab64 :: "u64 \<Rightarrow> u64" where
  "bpf_swab64 x =
     (bpf_mvb x 64 0 7 OR bpf_mvb x 64 1 6 OR bpf_mvb x 64 2 5 OR bpf_mvb x 64 3 4 OR
      bpf_mvb x 64 4 3 OR bpf_mvb x 64 5 2 OR bpf_mvb x 64 6 1 OR bpf_mvb x 64 7 0)"

section \<open>The compiler's byte swaps\<close>

text \<open>\<open>__builtin_bswapN\<close>: the bytes of the argument in reverse order.\<close>

definition builtin_bswap16 :: "u16 \<Rightarrow> u16" where
  "builtin_bswap16 x = le_word16 (ucast (drop_bit 8 x)) (ucast x)"

definition builtin_bswap32 :: "u32 \<Rightarrow> u32" where
  "builtin_bswap32 x =
     le_word32 (ucast (drop_bit 24 x)) (ucast (drop_bit 16 x)) (ucast (drop_bit 8 x)) (ucast x)"

definition builtin_bswap64 :: "u64 \<Rightarrow> u64" where
  "builtin_bswap64 x =
     push_bit 32 (ucast (builtin_bswap32 (ucast x))) OR
     ucast (builtin_bswap32 (ucast (drop_bit 32 x)))"

section \<open>The conversion macros\<close>

text \<open>
  The preprocessor selects the definitions by \<open>__BYTE_ORDER__\<close>; the first argument is the
  answer of \<open>__builtin_constant_p(x)\<close>, which selects the expansion.
\<close>

datatype byte_order = Little | Big

fun bpf_ntohs :: "byte_order \<Rightarrow> bool \<Rightarrow> u16 \<Rightarrow> u16" where
  "bpf_ntohs Little const_p x = (if const_p then bpf_swab16 x else builtin_bswap16 x)"
| "bpf_ntohs Big const_p x = x"

fun bpf_htons :: "byte_order \<Rightarrow> bool \<Rightarrow> u16 \<Rightarrow> u16" where
  "bpf_htons Little const_p x = (if const_p then bpf_swab16 x else builtin_bswap16 x)"
| "bpf_htons Big const_p x = x"

fun bpf_ntohl :: "byte_order \<Rightarrow> bool \<Rightarrow> u32 \<Rightarrow> u32" where
  "bpf_ntohl Little const_p x = (if const_p then bpf_swab32 x else builtin_bswap32 x)"
| "bpf_ntohl Big const_p x = x"

fun bpf_htonl :: "byte_order \<Rightarrow> bool \<Rightarrow> u32 \<Rightarrow> u32" where
  "bpf_htonl Little const_p x = (if const_p then bpf_swab32 x else builtin_bswap32 x)"
| "bpf_htonl Big const_p x = x"

fun bpf_be64_to_cpu :: "byte_order \<Rightarrow> bool \<Rightarrow> u64 \<Rightarrow> u64" where
  "bpf_be64_to_cpu Little const_p x = (if const_p then bpf_swab64 x else builtin_bswap64 x)"
| "bpf_be64_to_cpu Big const_p x = x"

fun bpf_cpu_to_be64 :: "byte_order \<Rightarrow> bool \<Rightarrow> u64 \<Rightarrow> u64" where
  "bpf_cpu_to_be64 Little const_p x = (if const_p then bpf_swab64 x else builtin_bswap64 x)"
| "bpf_cpu_to_be64 Big const_p x = x"

section \<open>The two expansions agree\<close>

lemma swab16_is_bswap16: "bpf_swab16 x = builtin_bswap16 x"
  by (rule word16_byte_eqI)
    (auto simp: bpf_swab16_def builtin_bswap16_def bpf_mvb_def le_word16_def bit_simps Let_def
      dest: bit_imp_le_length)

lemma swab32_is_bswap32: "bpf_swab32 x = builtin_bswap32 x"
  by (rule word32_byte_eqI)
    (auto simp: bpf_swab32_def builtin_bswap32_def bpf_mvb_def le_word32_def bit_simps
      dest: bit_imp_le_length)

lemma bit_bswap32 [simp]:
  "j < 8 \<Longrightarrow> bit (builtin_bswap32 x) j = bit x (24 + j)"
  "j < 8 \<Longrightarrow> bit (builtin_bswap32 x) (8 + j) = bit x (16 + j)"
  "j < 8 \<Longrightarrow> bit (builtin_bswap32 x) (16 + j) = bit x (8 + j)"
  "j < 8 \<Longrightarrow> bit (builtin_bswap32 x) (24 + j) = bit x j"
  by (auto simp: builtin_bswap32_def le_word32_def bit_simps)

lemma bit_bswap16 [simp]:
  "j < 8 \<Longrightarrow> bit (builtin_bswap16 x) j = bit x (8 + j)"
  "j < 8 \<Longrightarrow> bit (builtin_bswap16 x) (8 + j) = bit x j"
  by (auto simp: builtin_bswap16_def le_word16_def bit_simps)

lemma bswap16_involution: "builtin_bswap16 (builtin_bswap16 x) = x"
  by (rule word16_byte_eqI) auto

lemma bswap32_involution: "builtin_bswap32 (builtin_bswap32 x) = x"
  by (rule word32_byte_eqI) auto

text \<open>Loading two wire bytes on a little-endian CPU and converting gives the wire value.\<close>

lemma bswap16_wire: "builtin_bswap16 (le_word16 (ucast (drop_bit 8 w)) (ucast w)) = w"
  by (rule word16_byte_eqI) (auto simp: le_word16_def bit_simps dest: bit_imp_le_length)

lemma bswap64_halves:
  "ucast (builtin_bswap64 x) = builtin_bswap32 (ucast (drop_bit 32 x))"
  "ucast (drop_bit 32 (builtin_bswap64 x)) = builtin_bswap32 (ucast x)"
  by (rule bit_word_eqI, auto simp: builtin_bswap64_def bit_simps dest: bit_imp_le_length)+

lemma bswap64_involution: "builtin_bswap64 (builtin_bswap64 x) = x"
proof -
  have "builtin_bswap64 (builtin_bswap64 x) = push_bit 32 (ucast (ucast (drop_bit 32 x) :: u32)) OR ucast (ucast x :: u32)"
    by (subst builtin_bswap64_def) (simp add: bswap64_halves bswap32_involution)
  also have "\<dots> = x"
    by (rule word64_half_eqI) (auto simp: bit_simps)
  finally show ?thesis .
qed

lemma swab64_is_bswap64: "bpf_swab64 x = builtin_bswap64 x"
proof (rule word64_byte_eqI)
  fix j i :: nat assume "j < 8" and "i < 8"
  then consider "i = 0" | "i = 1" | "i = 2" | "i = 3" | "i = 4" | "i = 5" | "i = 6" | "i = 7" by linarith
  then show "bit (bpf_swab64 x) (8 * i + j) = bit (builtin_bswap64 x) (8 * i + j)"
    using \<open>j < 8\<close>
    by cases (auto simp: bpf_swab64_def builtin_bswap64_def builtin_bswap32_def le_word32_def
        bpf_mvb_def bit_simps dest: bit_imp_le_length)
qed

end
