(* ===== verification/Bpf_Maps.thy ===== *)
theory Bpf_Maps
  imports Tollwing_Prelude
begin

text \<open>
  The kernel's hash maps as the programs see them, from the helper documentation in
  \<open>include/bpf/bpf_helper_defs.h\<close>. A map is its entries and its \<open>max_entries\<close>. What the
  kernel decides (whether an element can be allocated, which elements an LRU map gives up) is
  an argument of the update operations; the programs are proved correct for every decision.
  The locale \<open>kernel_map\<close> is the contract that every update keeps, \<open>exact_map\<close> the stronger
  one of the hash maps that never evict; both are interpreted on the operations below.
\<close>

section \<open>Maps and the operations on them\<close>

record ('k, 'v) bmap =
  entries :: "'k \<rightharpoonup> 'v"
  max_entries :: nat

datatype update_flag = BPF_ANY | BPF_NOEXIST | BPF_EXIST

datatype map_error = E_EXIST | E_NOENT | E_NOMEM | E_2BIG

definition bpf_map_lookup_elem :: "('k, 'v) bmap \<Rightarrow> 'k \<Rightarrow> 'v option" where
  "bpf_map_lookup_elem m k = entries m k"

definition bpf_map_delete_elem :: "'k \<Rightarrow> ('k, 'v) bmap \<Rightarrow> ('k, 'v) bmap" where
  "bpf_map_delete_elem k m = m\<lparr>entries := (entries m)(k := None)\<rparr>"

text \<open>A store through the pointer that a successful lookup returned.\<close>

definition bpf_map_write :: "'k \<Rightarrow> 'v \<Rightarrow> ('k, 'v) bmap \<Rightarrow> ('k, 'v) bmap" where
  "bpf_map_write k v m = m\<lparr>entries := (entries m)(k \<mapsto> v)\<rparr>"

text \<open>The test of \<open>flags\<close> against the presence of the key.\<close>

definition check_flags :: "update_flag \<Rightarrow> 'v option \<Rightarrow> map_error option" where
  "check_flags fl old =
     (if fl = BPF_NOEXIST \<and> old \<noteq> None then Some E_EXIST
      else if fl = BPF_EXIST \<and> old = None then Some E_NOENT
      else None)"

text \<open>
  \<open>bpf_map_update_elem\<close> returns 0 or a negative error: \<open>None\<close> or \<open>Some\<close> error. The
  plain hash map (also the per-CPU one) refuses a new key when it is full; \<open>grant\<close> is the
  kernel's allocation.
\<close>

definition hash_update ::
  "bool \<Rightarrow> update_flag \<Rightarrow> 'k \<Rightarrow> 'v \<Rightarrow> ('k, 'v) bmap \<Rightarrow> map_error option \<times> ('k, 'v) bmap" where
  "hash_update grant fl k v m =
     (case check_flags fl (entries m k) of
        Some err \<Rightarrow> (Some err, m)
      | None \<Rightarrow>
          if \<not> grant then (Some E_NOMEM, m)
          else if entries m k = None \<and> max_entries m \<le> card (dom (entries m)) then (Some E_2BIG, m)
          else (None, bpf_map_write k v m))"

text \<open>
  An LRU map first makes room: the kernel picks the entries to give up (\<open>victims\<close>), which
  are lost whether or not the update then succeeds.
\<close>

definition evict :: "'k list \<Rightarrow> ('k, 'v) bmap \<Rightarrow> ('k, 'v) bmap" where
  "evict victims m = m\<lparr>entries := entries m |` (- set victims)\<rparr>"

definition lru_update ::
  "bool \<times> 'k list \<Rightarrow> update_flag \<Rightarrow> 'k \<Rightarrow> 'v \<Rightarrow> ('k, 'v) bmap \<Rightarrow> map_error option \<times> ('k, 'v) bmap" where
  "lru_update d fl k v m = hash_update (fst d) fl k v (evict (snd d) m)"

text \<open>A map never holds more than \<open>max_entries\<close> entries.\<close>

definition bmap_wf :: "('k, 'v) bmap \<Rightarrow> bool" where
  "bmap_wf m \<longleftrightarrow> finite (dom (entries m)) \<and> card (dom (entries m)) \<le> max_entries m"

definition empty_bmap :: "nat \<Rightarrow> ('k, 'v) bmap" where
  "empty_bmap n = \<lparr>entries = Map.empty, max_entries = n\<rparr>"

section \<open>Facts about the operations\<close>

lemma lookup_write [simp]:
  "bpf_map_lookup_elem (bpf_map_write k v m) j = (if j = k then Some v else bpf_map_lookup_elem m j)"
  by (simp add: bpf_map_lookup_elem_def bpf_map_write_def)

lemma lookup_delete [simp]:
  "bpf_map_lookup_elem (bpf_map_delete_elem k m) j = (if j = k then None else bpf_map_lookup_elem m j)"
  by (simp add: bpf_map_lookup_elem_def bpf_map_delete_elem_def)

lemma lookup_evict [simp]:
  "bpf_map_lookup_elem (evict vs m) j = (if j \<in> set vs then None else bpf_map_lookup_elem m j)"
  by (simp add: bpf_map_lookup_elem_def evict_def restrict_map_def)

lemma lookup_empty [simp]: "bpf_map_lookup_elem (empty_bmap n) j = None"
  by (simp add: bpf_map_lookup_elem_def empty_bmap_def)

lemma max_entries_ops [simp]:
  "max_entries (bpf_map_write k v m) = max_entries m"
  "max_entries (bpf_map_delete_elem k m) = max_entries m"
  "max_entries (evict vs m) = max_entries m"
  "max_entries (empty_bmap n) = n"
  by (simp_all add: bpf_map_write_def bpf_map_delete_elem_def evict_def empty_bmap_def)

lemma wf_empty [wf_intros]: "bmap_wf (empty_bmap n)"
  by (simp add: bmap_wf_def empty_bmap_def)

lemma wf_delete [wf_intros]: "bmap_wf m \<Longrightarrow> bmap_wf (bpf_map_delete_elem k m)"
  by (auto simp: bmap_wf_def bpf_map_delete_elem_def intro: order_trans [OF card_Diff1_le])

lemma wf_evict [wf_intros]: "bmap_wf m \<Longrightarrow> bmap_wf (evict vs m)"
  by (auto simp: bmap_wf_def evict_def intro: order_trans [OF card_mono, rotated])

lemma wf_write [wf_intros]: "bmap_wf m \<Longrightarrow> bpf_map_lookup_elem m k = Some w \<Longrightarrow> bmap_wf (bpf_map_write k v m)"
  by (auto simp: bmap_wf_def bpf_map_write_def bpf_map_lookup_elem_def insert_absorb domI)

lemma hash_update_cases:
  obtains (failed) err where "hash_update g fl k v m = (Some err, m)"
  | (stored) "hash_update g fl k v m = (None, bpf_map_write k v m)" "g"
      "check_flags fl (entries m k) = None"
      "entries m k \<noteq> None \<or> card (dom (entries m)) < max_entries m"
proof (cases "check_flags fl (entries m k)")
  case (Some err)
  then show thesis by (intro failed) (simp add: hash_update_def)
next
  case None
  show thesis
  proof (cases "g \<and> (entries m k \<noteq> None \<or> card (dom (entries m)) < max_entries m)")
    case True
    with None show thesis by (intro stored) (auto simp: hash_update_def)
  next
    case False
    with None show thesis
      by (cases g) (auto simp: hash_update_def intro: failed)
  qed
qed

lemma wf_hash_update [wf_intros]: "bmap_wf m \<Longrightarrow> bmap_wf (snd (hash_update g fl k v m))"
proof (cases rule: hash_update_cases [of g fl k v m])
  case stored
  assume wf: "bmap_wf m"
  show ?thesis
  proof (cases "entries m k")
    case None
    with stored wf show ?thesis by (auto simp: bmap_wf_def bpf_map_write_def domIff card_insert_if)
  next
    case (Some w)
    with stored wf show ?thesis using wf_write [of m k w v] by (simp add: bpf_map_lookup_elem_def)
  qed
qed simp

lemma wf_lru_update [wf_intros]: "bmap_wf m \<Longrightarrow> bmap_wf (snd (lru_update d fl k v m))"
  by (simp add: lru_update_def wf_hash_update wf_evict)

section \<open>The contract of an update\<close>

locale kernel_map =
  fixes upd :: "'d \<Rightarrow> update_flag \<Rightarrow> 'k \<Rightarrow> 'v \<Rightarrow> ('k, 'v) bmap \<Rightarrow> map_error option \<times> ('k, 'v) bmap"
  assumes upd_stored: "upd d fl k v m = (None, m') \<Longrightarrow> bpf_map_lookup_elem m' k = Some v"
    and upd_other: "upd d fl k v m = (r, m') \<Longrightarrow> j \<noteq> k \<Longrightarrow>
      bpf_map_lookup_elem m' j = None \<or> bpf_map_lookup_elem m' j = bpf_map_lookup_elem m j"
    and upd_failed: "upd d fl k v m = (Some err, m') \<Longrightarrow>
      bpf_map_lookup_elem m' k = None \<or> bpf_map_lookup_elem m' k = bpf_map_lookup_elem m k"
    and upd_size: "upd d fl k v m = (r, m') \<Longrightarrow> max_entries m' = max_entries m"
    and upd_wf: "bmap_wf m \<Longrightarrow> upd d fl k v m = (r, m') \<Longrightarrow> bmap_wf m'"
begin

text \<open>An update invents nothing: what is in the map afterwards was there or is the new value.\<close>

lemma no_invention:
  assumes "bpf_map_lookup_elem (snd (upd d fl k v m)) j = Some w"
  shows "bpf_map_lookup_elem m j = Some w \<or> j = k \<and> w = v"
proof (cases "upd d fl k v m")
  case (Pair r m')
  show ?thesis
  proof (cases "j = k")
    case True
    with Pair assms show ?thesis
      by (cases r) (auto dest: upd_stored upd_failed)
  next
    case False
    with Pair assms show ?thesis by (auto dest: upd_other)
  qed
qed

lemma snd_wf: "bmap_wf m \<Longrightarrow> bmap_wf (snd (upd d fl k v m))"
  by (cases "upd d fl k v m") (auto intro: upd_wf)

lemma snd_size: "max_entries (snd (upd d fl k v m)) = max_entries m"
  by (cases "upd d fl k v m") (auto dest: upd_size)

text \<open>An invariant of every stored value survives an update with a good value.\<close>

lemma values_kept:
  assumes "\<And>j w. bpf_map_lookup_elem m j = Some w \<Longrightarrow> P j w" and "P k v"
    and "bpf_map_lookup_elem (snd (upd d fl k v m)) j = Some w"
  shows "P j w"
  using no_invention [OF assms(3)] assms(1,2) by auto

end

locale exact_map = kernel_map +
  assumes upd_exact: "upd d fl k v m = (None, m') \<Longrightarrow> m' = bpf_map_write k v m"
    and upd_rejected: "upd d fl k v m = (Some err, m') \<Longrightarrow> m' = m"
    and upd_noexist: "upd d BPF_NOEXIST k v m = (None, m') \<Longrightarrow> bpf_map_lookup_elem m k = None"
begin

text \<open>
  Inserting a fresh entry adds exactly its contribution to any total over the map, or
  reports an error and adds nothing: the ground of the drop accounting.
\<close>

lemma insert_total:
  assumes "finite (dom (entries m))" and "upd d BPF_NOEXIST k v m = (r, m')"
  shows "map_total g (entries m') = map_total g (entries m) + (if r = None then g v else 0)"
proof (cases r)
  case None
  with assms have "entries m k = None" "m' = bpf_map_write k v m"
    using upd_noexist upd_exact by (auto simp: bpf_map_lookup_elem_def)
  with None assms(1) show ?thesis by (simp add: bpf_map_write_def map_total_insert)
next
  case (Some err)
  with assms(2) have "m' = m" by (simp add: upd_rejected)
  with Some show ?thesis by simp
qed

end

interpretation hash: exact_map hash_update
proof
  fix d fl k v and m m' :: "('a, 'b) bmap" and r j err
  show "hash_update d fl k v m = (None, m') \<Longrightarrow> bpf_map_lookup_elem m' k = Some v"
    by (cases rule: hash_update_cases [of d fl k v m]) auto
  show "hash_update d fl k v m = (r, m') \<Longrightarrow> j \<noteq> k \<Longrightarrow>
      bpf_map_lookup_elem m' j = None \<or> bpf_map_lookup_elem m' j = bpf_map_lookup_elem m j"
    by (cases rule: hash_update_cases [of d fl k v m]) auto
  show "hash_update d fl k v m = (Some err, m') \<Longrightarrow>
      bpf_map_lookup_elem m' k = None \<or> bpf_map_lookup_elem m' k = bpf_map_lookup_elem m k"
    by (cases rule: hash_update_cases [of d fl k v m]) auto
  show "hash_update d fl k v m = (r, m') \<Longrightarrow> max_entries m' = max_entries m"
    by (cases rule: hash_update_cases [of d fl k v m]) auto
  show "bmap_wf m \<Longrightarrow> hash_update d fl k v m = (r, m') \<Longrightarrow> bmap_wf m'"
    using wf_hash_update [of m d fl k v] by simp
  show "hash_update d fl k v m = (None, m') \<Longrightarrow> m' = bpf_map_write k v m"
    by (cases rule: hash_update_cases [of d fl k v m]) auto
  show "hash_update d fl k v m = (Some err, m') \<Longrightarrow> m' = m"
    by (cases rule: hash_update_cases [of d fl k v m]) auto
  show "hash_update d BPF_NOEXIST k v m = (None, m') \<Longrightarrow> bpf_map_lookup_elem m k = None"
    by (auto simp: hash_update_def check_flags_def bpf_map_lookup_elem_def split: option.splits if_splits)
qed

interpretation lru: kernel_map lru_update
proof
  fix d fl k v and m m' :: "('a, 'b) bmap" and r j err
  show "lru_update d fl k v m = (None, m') \<Longrightarrow> bpf_map_lookup_elem m' k = Some v"
    unfolding lru_update_def by (rule hash.upd_stored)
  show "lru_update d fl k v m = (r, m') \<Longrightarrow> j \<noteq> k \<Longrightarrow>
      bpf_map_lookup_elem m' j = None \<or> bpf_map_lookup_elem m' j = bpf_map_lookup_elem m j"
    unfolding lru_update_def by (drule (1) hash.upd_other) (auto split: if_splits)
  show "lru_update d fl k v m = (Some err, m') \<Longrightarrow>
      bpf_map_lookup_elem m' k = None \<or> bpf_map_lookup_elem m' k = bpf_map_lookup_elem m k"
    unfolding lru_update_def by (drule hash.upd_failed) (auto split: if_splits)
  show "lru_update d fl k v m = (r, m') \<Longrightarrow> max_entries m' = max_entries m"
    unfolding lru_update_def by (drule hash.upd_size) simp
  show "bmap_wf m \<Longrightarrow> lru_update d fl k v m = (r, m') \<Longrightarrow> bmap_wf m'"
    unfolding lru_update_def by (drule wf_evict) (rule hash.upd_wf)
qed

text \<open>When the kernel grants the element and the flags allow it, the update takes effect.\<close>

lemma lru_update_any:
  assumes "fst d" and "card (dom (entries (evict (snd d) m))) < max_entries m"
  shows "lru_update d BPF_ANY k v m = (None, bpf_map_write k v (evict (snd d) m))"
  using assms by (simp add: lru_update_def hash_update_def check_flags_def)

lemma lru_update_keeps:
  assumes "j \<noteq> k" and "j \<notin> set (snd d)"
  shows "bpf_map_lookup_elem (snd (lru_update d fl k v m)) j = bpf_map_lookup_elem m j"
  using assms by (cases rule: hash_update_cases [of "fst d" fl k v "evict (snd d) m"])
    (auto simp: lru_update_def)

end
