(* ===== verification/Agent_State.thy ===== *)
theory Agent_State
  imports Bpf_Endian Bpf_Maps
begin

text \<open>
  The data of \<open>pkg/ebpf/bpf/maps.h\<close> and \<open>dns.bpf.c\<close>: the structs as records (field names
  carry a prefix of their struct), the maps as the state \<open>agent\<close>, the constants, and the
  helpers every program uses (\<open>count_drop\<close>, \<open>get_config\<close>, \<open>should_sample\<close>). What a
  program invocation gets from the kernel is the record \<open>kenv\<close>: it is an argument of every
  hook, so the theorems hold for every value the kernel may supply.
\<close>

section \<open>Structs\<close>

record agent_config =
  ac_enabled :: u8
  ac_track_udp :: u8
  ac_sample_rate :: u8
  ac_udp_socket_tx :: u8
  ac_reserved :: "u8 list"
  ac_aggregation_ns :: u64

record original_dst =
  od_ip :: u32
  od_port :: u16
  od_family :: u8
  od_pad :: u8
  od_pid :: u32
  od_cgroupid :: u64
  od_comm :: "u8 list"
  od_ip6 :: "u8 list"

record conn_info =
  ci_src_ip :: u32
  ci_dst_ip :: u32
  ci_original_dst_ip :: u32
  ci_src_port :: u16
  ci_dst_port :: u16
  ci_original_dst_port :: u16
  ci_family :: u8
  ci_protocol :: u8
  ci_pid :: u32
  ci_cgroupid :: u64
  ci_start_ns :: u64
  ci_tx_bytes :: u64
  ci_rx_bytes :: u64
  ci_retransmit_bytes :: u64
  ci_retransmit_count :: u32
  ci_direction :: u8
  ci_state :: u8
  ci_pad :: "u8 list"
  ci_src_ip6 :: "u8 list"
  ci_dst_ip6 :: "u8 list"
  ci_original_dst_ip6 :: "u8 list"

record flow_key =
  fk_src_ip :: u32
  fk_dst_ip :: u32
  fk_src_port :: u16
  fk_dst_port :: u16
  fk_pid :: u32
  fk_protocol :: u8
  fk_direction :: u8
  fk_pad :: u16

record flow_metrics =
  fm_tx_bytes :: u64
  fm_rx_bytes :: u64
  fm_conn_count :: u64
  fm_last_updated_ns :: u64
  fm_retransmit_bytes :: u64
  fm_retransmit_count :: u64

record quic_flow_key =
  qk_src_ip :: u32
  qk_dst_ip :: u32
  qk_src_port :: u16
  qk_dst_port :: u16

record quic_flow_metrics =
  qm_tx_bytes :: u64
  qm_rx_bytes :: u64
  qm_pkt_count :: u64
  qm_last_seen_ns :: u64
  qm_quic_version :: u32
  qm_is_long_header :: u8
  qm_pad :: "u8 list"

record sidecar_info =
  si_is_sidecar_internal :: u8
  si_pad :: "u8 list"
  si_app_pid :: u32
  si_app_cgroupid :: u64

record connect_event =
  cn_type :: u8
  cn_protocol :: u8
  cn_pad :: u16
  cn_pid :: u32
  cn_cookie :: u64
  cn_cgroupid :: u64
  cn_original_dst_ip :: u32
  cn_original_dst_port :: u16
  cn_pad2 :: u16
  cn_timestamp_ns :: u64
  cn_comm :: "u8 list"

record establish_event =
  es_type :: u8
  es_direction :: u8
  es_protocol :: u8
  es_pad :: u8
  es_pid :: u32
  es_cookie :: u64
  es_cgroupid :: u64
  es_src_ip :: u32
  es_dst_ip :: u32
  es_src_port :: u16
  es_dst_port :: u16
  es_original_dst_ip :: u32
  es_original_dst_port :: u16
  es_pad2 :: u16
  es_timestamp_ns :: u64
  es_comm :: "u8 list"

record close_event =
  cl_type :: u8
  cl_direction :: u8
  cl_protocol :: u8
  cl_pad :: u8
  cl_pid :: u32
  cl_cookie :: u64
  cl_src_ip :: u32
  cl_dst_ip :: u32
  cl_src_port :: u16
  cl_dst_port :: u16
  cl_original_dst_ip :: u32
  cl_original_dst_port :: u16
  cl_pad2 :: u16
  cl_tx_bytes :: u64
  cl_rx_bytes :: u64
  cl_retransmit_bytes :: u64
  cl_retransmit_count :: u32
  cl_pad3 :: u32
  cl_duration_ns :: u64
  cl_timestamp_ns :: u64

record dns_raw_event =
  dr_len :: u16
  dr_pad :: u16
  dr_data :: "u8 list"

text \<open>What the events ring buffer carries: userspace tells the structs apart by the type byte.\<close>

datatype event = Connect connect_event | Establish establish_event | Close close_event

section \<open>Zero initialisers\<close>

text \<open>C's \<open>= {}\<close>.\<close>

definition zero_original_dst :: original_dst where
  "zero_original_dst = \<lparr>od_ip = 0, od_port = 0, od_family = 0, od_pad = 0, od_pid = 0,
     od_cgroupid = 0, od_comm = replicate 16 0, od_ip6 = replicate 16 0\<rparr>"

definition zero_conn_info :: conn_info where
  "zero_conn_info = \<lparr>ci_src_ip = 0, ci_dst_ip = 0, ci_original_dst_ip = 0, ci_src_port = 0,
     ci_dst_port = 0, ci_original_dst_port = 0, ci_family = 0, ci_protocol = 0, ci_pid = 0,
     ci_cgroupid = 0, ci_start_ns = 0, ci_tx_bytes = 0, ci_rx_bytes = 0,
     ci_retransmit_bytes = 0, ci_retransmit_count = 0, ci_direction = 0, ci_state = 0,
     ci_pad = replicate 2 0, ci_src_ip6 = replicate 16 0, ci_dst_ip6 = replicate 16 0,
     ci_original_dst_ip6 = replicate 16 0\<rparr>"

definition zero_flow_key :: flow_key where
  "zero_flow_key = \<lparr>fk_src_ip = 0, fk_dst_ip = 0, fk_src_port = 0, fk_dst_port = 0,
     fk_pid = 0, fk_protocol = 0, fk_direction = 0, fk_pad = 0\<rparr>"

definition zero_flow_metrics :: flow_metrics where
  "zero_flow_metrics = \<lparr>fm_tx_bytes = 0, fm_rx_bytes = 0, fm_conn_count = 0,
     fm_last_updated_ns = 0, fm_retransmit_bytes = 0, fm_retransmit_count = 0\<rparr>"

definition zero_quic_flow_key :: quic_flow_key where
  "zero_quic_flow_key = \<lparr>qk_src_ip = 0, qk_dst_ip = 0, qk_src_port = 0, qk_dst_port = 0\<rparr>"

definition zero_quic_flow_metrics :: quic_flow_metrics where
  "zero_quic_flow_metrics = \<lparr>qm_tx_bytes = 0, qm_rx_bytes = 0, qm_pkt_count = 0,
     qm_last_seen_ns = 0, qm_quic_version = 0, qm_is_long_header = 0, qm_pad = replicate 3 0\<rparr>"

definition zero_sidecar_info :: sidecar_info where
  "zero_sidecar_info = \<lparr>si_is_sidecar_internal = 0, si_pad = replicate 3 0, si_app_pid = 0,
     si_app_cgroupid = 0\<rparr>"

section \<open>Constants\<close>

definition IPPROTO_TCP :: "'a::len word" where "IPPROTO_TCP = 6"
definition IPPROTO_UDP :: "'a::len word" where "IPPROTO_UDP = 17"
definition TCP_CLOSE :: int where "TCP_CLOSE = 7"
definition AF_INET :: "'a::len word" where "AF_INET = 2"
definition AF_INET6 :: "'a::len word" where "AF_INET6 = 10"

definition EVENT_CONNECT :: u8 where "EVENT_CONNECT = 1"
definition EVENT_ESTABLISH :: u8 where "EVENT_ESTABLISH = 2"
definition EVENT_CLOSE :: u8 where "EVENT_CLOSE = 3"

datatype drop_slot =
  DROP_SLOT_EVENTS_RINGBUF | DROP_SLOT_FLOW_AGGREGATES | DROP_SLOT_DNS_RINGBUF | DROP_SLOT_QUIC_FLOWS

fun slot_index :: "drop_slot \<Rightarrow> u32" where
  "slot_index DROP_SLOT_EVENTS_RINGBUF = 0"
| "slot_index DROP_SLOT_FLOW_AGGREGATES = 1"
| "slot_index DROP_SLOT_DNS_RINGBUF = 2"
| "slot_index DROP_SLOT_QUIC_FLOWS = 3"

definition DROP_SLOT_MAX :: u32 where "DROP_SLOT_MAX = 4"

lemma slot_index_inj [simp]: "slot_index s = slot_index t \<longleftrightarrow> s = t"
  by (cases s; cases t) auto

lemma slot_index_less [simp]: "slot_index s < DROP_SLOT_MAX"
  by (cases s) (auto simp: DROP_SLOT_MAX_def)

text \<open>The slots are an enumeration: sums over all of them compute.\<close>

instantiation drop_slot :: enum
begin

definition "enum_class.enum =
  [DROP_SLOT_EVENTS_RINGBUF, DROP_SLOT_FLOW_AGGREGATES, DROP_SLOT_DNS_RINGBUF, DROP_SLOT_QUIC_FLOWS]"

definition "enum_class.enum_all P \<longleftrightarrow> P DROP_SLOT_EVENTS_RINGBUF \<and> P DROP_SLOT_FLOW_AGGREGATES \<and>
  P DROP_SLOT_DNS_RINGBUF \<and> P DROP_SLOT_QUIC_FLOWS"

definition "enum_class.enum_ex P \<longleftrightarrow> P DROP_SLOT_EVENTS_RINGBUF \<or> P DROP_SLOT_FLOW_AGGREGATES \<or>
  P DROP_SLOT_DNS_RINGBUF \<or> P DROP_SLOT_QUIC_FLOWS"

instance
proof
  have U: "(UNIV :: drop_slot set) =
      {DROP_SLOT_EVENTS_RINGBUF, DROP_SLOT_FLOW_AGGREGATES, DROP_SLOT_DNS_RINGBUF, DROP_SLOT_QUIC_FLOWS}"
    using drop_slot.exhaust by blast
  show "UNIV = set (enum_class.enum :: drop_slot list)" by (simp add: U enum_drop_slot_def)
  show "distinct (enum_class.enum :: drop_slot list)" by (simp add: enum_drop_slot_def)
  fix P :: "drop_slot \<Rightarrow> bool"
  show "enum_class.enum_all P \<longleftrightarrow> Ball UNIV P" by (simp add: U enum_all_drop_slot_def)
  show "enum_class.enum_ex P \<longleftrightarrow> Bex UNIV P" by (simp add: U enum_ex_drop_slot_def)
qed

end

section \<open>What an invocation gets from the kernel\<close>

text \<open>The maps whose updates can fail or evict.\<close>

datatype map_id = M_cookie_to_original_dst | M_connections | M_flow_aggregates | M_quic_flows

text \<open>
  One value per helper: the field is the helper's answer in this invocation. The clock is
  read more than once by some programs, so it is indexed by the call. \<open>ring_reserved\<close> says
  whether \<open>bpf_ringbuf_reserve\<close> returns memory, and the \<open>ring_*\<close> records are what that
  memory holds: the helper promises memory, not zeroed memory. \<open>other_cpus_*\<close> is what the
  slots of the other CPUs hold when a per-CPU key is created.
\<close>

record kenv =
  smp_processor_id :: nat
  bpf_get_socket_cookie :: u64
  bpf_ktime_get_ns :: "nat \<Rightarrow> u64"
  bpf_get_current_pid_tgid :: u64
  bpf_get_current_cgroup_id :: u64
  bpf_get_current_comm :: "u8 list"
  bpf_get_prandom_u32 :: u32
  ring_reserved :: bool
  ring_connect :: connect_event
  ring_establish :: establish_event
  ring_close :: close_event
  map_grant :: "map_id \<Rightarrow> bool"
  lru_victims :: "map_id \<Rightarrow> u64 list"
  other_cpus_flow :: "nat \<Rightarrow> flow_metrics"
  other_cpus_quic :: "nat \<Rightarrow> quic_flow_metrics"
  sk_storage_granted :: bool
  cb_flags_settable :: u32
  probe_read_ok :: bool

section \<open>The agent's state\<close>

text \<open>
  The maps of \<open>maps.h\<close> and \<open>dns.bpf.c\<close>, and \<open>sk_cb_flags\<close>: the per-socket callback
  flags that \<open>bpf_sock_ops_cb_flags_set\<close> writes. \<open>sidecar_storage\<close> is keyed by the
  socket's address. The ring buffers are the records submitted so far, oldest first.
\<close>

record agent =
  agent_config_map :: "u32 \<rightharpoonup> agent_config"
  cookie_to_original_dst :: "(u64, original_dst) bmap"
  connections :: "(u64, conn_info) bmap"
  events :: "event list"
  flow_aggregates :: "(flow_key, nat \<Rightarrow> flow_metrics) bmap"
  drop_counters :: "u32 \<Rightarrow> nat \<Rightarrow> u64"
  quic_flows :: "(quic_flow_key, nat \<Rightarrow> quic_flow_metrics) bmap"
  sidecar_storage :: "u64 \<rightharpoonup> sidecar_info"
  dns_events :: "dns_raw_event list"
  sk_cb_flags :: "u64 \<Rightarrow> u32"

definition initial_agent :: "agent_config \<Rightarrow> agent" where
  "initial_agent cfg = \<lparr>agent_config_map = [0 \<mapsto> cfg],
     cookie_to_original_dst = empty_bmap 65536,
     connections = empty_bmap 524288,
     events = [],
     flow_aggregates = empty_bmap 131072,
     drop_counters = (\<lambda>_ _. 0),
     quic_flows = empty_bmap 65536,
     sidecar_storage = Map.empty,
     dns_events = [],
     sk_cb_flags = (\<lambda>_. 0)\<rparr>"

text \<open>No bounded map of the agent ever exceeds its \<open>max_entries\<close>.\<close>

definition agent_wf :: "agent \<Rightarrow> bool" where
  "agent_wf a \<longleftrightarrow> bmap_wf (cookie_to_original_dst a) \<and> bmap_wf (connections a) \<and>
     bmap_wf (flow_aggregates a) \<and> bmap_wf (quic_flows a)"

lemma initial_agent_wf: "agent_wf (initial_agent cfg)"
  by (simp add: agent_wf_def initial_agent_def wf_empty)

text \<open>
  The loader overrides the sizes of five maps before it creates them (\<open>MapSizeConfig\<close> of
  \<open>pkg/ebpf/loader.go\<close>). A zero field of the configuration gets the loader's default, which is
  not the size compiled into the object; the sizes of the two ring buffers are bytes.
\<close>

record map_sizes =
  sz_connections :: u32
  sz_flow_aggregates :: u32
  sz_quic_flows :: u32
  sz_events_ring_buf :: u32
  sz_dns_ring_buf :: u32

definition size_default :: "u32 \<Rightarrow> u32 \<Rightarrow> u32" where
  "size_default d sz = (if sz = 0 then d else sz)"

definition set_size_defaults :: "map_sizes \<Rightarrow> map_sizes" where
  "set_size_defaults c = \<lparr>sz_connections = size_default 65536 (sz_connections c),
     sz_flow_aggregates = size_default 131072 (sz_flow_aggregates c),
     sz_quic_flows = size_default 8192 (sz_quic_flows c),
     sz_events_ring_buf = size_default (push_bit 20 1) (sz_events_ring_buf c),
     sz_dns_ring_buf = size_default (push_bit 18 1) (sz_dns_ring_buf c)\<rparr>"

definition override_size :: "u32 \<Rightarrow> ('k, 'v) bmap \<Rightarrow> ('k, 'v) bmap" where
  "override_size sz m = (if sz = 0 then m else m\<lparr>max_entries := unat sz\<rparr>)"

definition apply_map_size_overrides :: "map_sizes \<Rightarrow> agent \<Rightarrow> agent" where
  "apply_map_size_overrides c a = a
     \<lparr>connections := override_size (sz_connections c) (connections a),
      flow_aggregates := override_size (sz_flow_aggregates c) (flow_aggregates a),
      quic_flows := override_size (sz_quic_flows c) (quic_flows a)\<rparr>"

definition boot_agent :: "map_sizes \<Rightarrow> agent_config \<Rightarrow> agent" where
  "boot_agent c cfg = apply_map_size_overrides (set_size_defaults c) (initial_agent cfg)"

lemma size_default_nonzero: "d \<noteq> 0 \<Longrightarrow> size_default d sz \<noteq> 0"
  by (simp add: size_default_def)

lemma override_empty [simp]:
  "entries (override_size sz m) = entries m"
  "sz \<noteq> 0 \<Longrightarrow> max_entries (override_size sz m) = unat sz"
  by (simp_all add: override_size_def)

lemma boot_agent_fields [simp]:
  "agent_config_map (boot_agent c cfg) = [0 \<mapsto> cfg]"
  "entries (connections (boot_agent c cfg)) = Map.empty"
  "entries (cookie_to_original_dst (boot_agent c cfg)) = Map.empty"
  "entries (flow_aggregates (boot_agent c cfg)) = Map.empty"
  "entries (quic_flows (boot_agent c cfg)) = Map.empty"
  "events (boot_agent c cfg) = []" "dns_events (boot_agent c cfg) = []"
  "drop_counters (boot_agent c cfg) = (\<lambda>_ _. 0)"
  "sidecar_storage (boot_agent c cfg) = Map.empty" "sk_cb_flags (boot_agent c cfg) = (\<lambda>_. 0)"
  by (simp_all add: boot_agent_def apply_map_size_overrides_def initial_agent_def empty_bmap_def)

lemma boot_agent_sizes:
  "max_entries (connections (boot_agent c cfg)) = unat (size_default 65536 (sz_connections c))"
  "max_entries (flow_aggregates (boot_agent c cfg)) = unat (size_default 131072 (sz_flow_aggregates c))"
  "max_entries (quic_flows (boot_agent c cfg)) = unat (size_default 8192 (sz_quic_flows c))"
  "max_entries (cookie_to_original_dst (boot_agent c cfg)) = 65536"
  by (simp_all add: boot_agent_def apply_map_size_overrides_def set_size_defaults_def size_default_nonzero
      initial_agent_def empty_bmap_def)

lemma boot_agent_wf [simp]: "agent_wf (boot_agent c cfg)"
  by (simp add: agent_wf_def bmap_wf_def)

section \<open>Drop accounting\<close>

definition count_drop :: "kenv \<Rightarrow> u32 \<Rightarrow> agent \<Rightarrow> agent" where
  "count_drop e slot a =
     (if slot < DROP_SLOT_MAX
      then a\<lparr>drop_counters := (drop_counters a)(slot := (drop_counters a slot)
               (smp_processor_id e := drop_counters a slot (smp_processor_id e) + 1))\<rparr>
      else a)"

lemma count_drop_frame [frame_simps, simp]:
  "agent_config_map (count_drop e s a) = agent_config_map a"
  "cookie_to_original_dst (count_drop e s a) = cookie_to_original_dst a"
  "connections (count_drop e s a) = connections a"
  "events (count_drop e s a) = events a"
  "flow_aggregates (count_drop e s a) = flow_aggregates a"
  "quic_flows (count_drop e s a) = quic_flows a"
  "sidecar_storage (count_drop e s a) = sidecar_storage a"
  "dns_events (count_drop e s a) = dns_events a"
  "sk_cb_flags (count_drop e s a) = sk_cb_flags a"
  by (simp_all add: count_drop_def)

lemma count_drop_wf [simp]: "agent_wf (count_drop e s a) = agent_wf a"
  by (simp add: agent_wf_def)

text \<open>The counter of a slot, summed over the first \<open>n\<close> CPUs as the poller reads it.\<close>

definition drops :: "nat \<Rightarrow> drop_slot \<Rightarrow> agent \<Rightarrow> u64" where
  "drops n s a = cpu_total n (\<lambda>x. x) (drop_counters a (slot_index s))"

lemma drops_count_drop:
  assumes "smp_processor_id e < n"
  shows "drops n s (count_drop e (slot_index t) a) = drops n s a + (if s = t then 1 else 0)"
  using assms by (auto simp: drops_def count_drop_def cpu_total_upd)

section \<open>Configuration and sampling\<close>

definition get_config :: "agent \<Rightarrow> agent_config option" where
  "get_config a =
     (case agent_config_map a 0 of
        None \<Rightarrow> None
      | Some cfg \<Rightarrow> if ac_enabled cfg = 0 then None else Some cfg)"

definition should_sample :: "kenv \<Rightarrow> u8 \<Rightarrow> bool" where
  "should_sample e sample_rate =
     (if sample_rate \<le> 1 then True
      else bpf_get_prandom_u32 e mod ucast sample_rate = 0)"

lemma get_config_cong: "agent_config_map b = agent_config_map a \<Longrightarrow> get_config b = get_config a"
  by (simp add: get_config_def)

section \<open>Updates of the agent's maps\<close>

definition update_cookie :: "kenv \<Rightarrow> update_flag \<Rightarrow> u64 \<Rightarrow> original_dst \<Rightarrow> agent \<Rightarrow> agent" where
  "update_cookie e fl k v a = a\<lparr>cookie_to_original_dst :=
     snd (lru_update (map_grant e M_cookie_to_original_dst, lru_victims e M_cookie_to_original_dst)
       fl k v (cookie_to_original_dst a))\<rparr>"

definition update_connections :: "kenv \<Rightarrow> update_flag \<Rightarrow> u64 \<Rightarrow> conn_info \<Rightarrow> agent \<Rightarrow> agent" where
  "update_connections e fl k v a = a\<lparr>connections :=
     snd (lru_update (map_grant e M_connections, lru_victims e M_connections)
       fl k v (connections a))\<rparr>"

definition delete_cookie :: "u64 \<Rightarrow> agent \<Rightarrow> agent" where
  "delete_cookie k a = a\<lparr>cookie_to_original_dst := bpf_map_delete_elem k (cookie_to_original_dst a)\<rparr>"

definition delete_connection :: "u64 \<Rightarrow> agent \<Rightarrow> agent" where
  "delete_connection k a = a\<lparr>connections := bpf_map_delete_elem k (connections a)\<rparr>"

text \<open>An atomic add or a store through the pointer of a looked-up connection.\<close>

definition write_connection :: "u64 \<Rightarrow> conn_info \<Rightarrow> agent \<Rightarrow> agent" where
  "write_connection k v a = a\<lparr>connections := bpf_map_write k v (connections a)\<rparr>"

definition lookup_connection :: "agent \<Rightarrow> u64 \<Rightarrow> conn_info option" where
  "lookup_connection a k = bpf_map_lookup_elem (connections a) k"

definition lookup_original_dst :: "agent \<Rightarrow> u64 \<Rightarrow> original_dst option" where
  "lookup_original_dst a k = bpf_map_lookup_elem (cookie_to_original_dst a) k"

lemma update_cookie_wf [wf_intros]: "agent_wf a \<Longrightarrow> agent_wf (update_cookie e fl k v a)"
  by (simp add: agent_wf_def update_cookie_def lru.snd_wf)

lemma update_connections_wf [wf_intros]: "agent_wf a \<Longrightarrow> agent_wf (update_connections e fl k v a)"
  by (simp add: agent_wf_def update_connections_def lru.snd_wf)

lemma delete_cookie_wf [wf_intros]: "agent_wf a \<Longrightarrow> agent_wf (delete_cookie k a)"
  by (simp add: agent_wf_def delete_cookie_def wf_delete)

lemma delete_connection_wf [wf_intros]: "agent_wf a \<Longrightarrow> agent_wf (delete_connection k a)"
  by (simp add: agent_wf_def delete_connection_def wf_delete)

lemma write_connection_wf [wf_intros]:
  "agent_wf a \<Longrightarrow> lookup_connection a k = Some w \<Longrightarrow> agent_wf (write_connection k v a)"
  by (simp add: agent_wf_def write_connection_def lookup_connection_def wf_write)

text \<open>Appending to a ring buffer and recording on a socket touch no bounded map.\<close>

lemma agent_wf_other [simp]:
  "agent_wf (a\<lparr>events := es\<rparr>) = agent_wf a"
  "agent_wf (a\<lparr>dns_events := ds\<rparr>) = agent_wf a"
  "agent_wf (a\<lparr>sidecar_storage := ss\<rparr>) = agent_wf a"
  "agent_wf (a\<lparr>sk_cb_flags := fs\<rparr>) = agent_wf a"
  "agent_wf (a\<lparr>agent_config_map := cm\<rparr>) = agent_wf a"
  by (simp_all add: agent_wf_def)

lemma map_op_frame [frame_simps, simp]:
  "agent_config_map (update_cookie e fl k v a) = agent_config_map a"
  "connections (update_cookie e fl k v a) = connections a"
  "events (update_cookie e fl k v a) = events a"
  "flow_aggregates (update_cookie e fl k v a) = flow_aggregates a"
  "drop_counters (update_cookie e fl k v a) = drop_counters a"
  "quic_flows (update_cookie e fl k v a) = quic_flows a"
  "dns_events (update_cookie e fl k v a) = dns_events a"
  "agent_config_map (update_connections e fl k ci a) = agent_config_map a"
  "cookie_to_original_dst (update_connections e fl k ci a) = cookie_to_original_dst a"
  "events (update_connections e fl k ci a) = events a"
  "flow_aggregates (update_connections e fl k ci a) = flow_aggregates a"
  "drop_counters (update_connections e fl k ci a) = drop_counters a"
  "quic_flows (update_connections e fl k ci a) = quic_flows a"
  "dns_events (update_connections e fl k ci a) = dns_events a"
  "agent_config_map (delete_cookie k a) = agent_config_map a"
  "connections (delete_cookie k a) = connections a"
  "events (delete_cookie k a) = events a"
  "flow_aggregates (delete_cookie k a) = flow_aggregates a"
  "drop_counters (delete_cookie k a) = drop_counters a"
  "quic_flows (delete_cookie k a) = quic_flows a"
  "dns_events (delete_cookie k a) = dns_events a"
  "agent_config_map (delete_connection k a) = agent_config_map a"
  "cookie_to_original_dst (delete_connection k a) = cookie_to_original_dst a"
  "events (delete_connection k a) = events a"
  "flow_aggregates (delete_connection k a) = flow_aggregates a"
  "drop_counters (delete_connection k a) = drop_counters a"
  "quic_flows (delete_connection k a) = quic_flows a"
  "dns_events (delete_connection k a) = dns_events a"
  "agent_config_map (write_connection k ci a) = agent_config_map a"
  "cookie_to_original_dst (write_connection k ci a) = cookie_to_original_dst a"
  "events (write_connection k ci a) = events a"
  "flow_aggregates (write_connection k ci a) = flow_aggregates a"
  "drop_counters (write_connection k ci a) = drop_counters a"
  "quic_flows (write_connection k ci a) = quic_flows a"
  "dns_events (write_connection k ci a) = dns_events a"
  by (simp_all add: update_cookie_def update_connections_def delete_cookie_def
      delete_connection_def write_connection_def)

lemma lookup_after [simp]:
  "lookup_connection (delete_connection k a) j = (if j = k then None else lookup_connection a j)"
  "lookup_connection (write_connection k ci a) j = (if j = k then Some ci else lookup_connection a j)"
  "lookup_original_dst (delete_cookie k a) j = (if j = k then None else lookup_original_dst a j)"
  by (simp_all add: lookup_connection_def lookup_original_dst_def delete_connection_def
      write_connection_def delete_cookie_def)

end
