(* ===== verification/Conn_Hooks.thy ===== *)
theory Conn_Hooks
  imports Agent_State
begin

text \<open>
  The connection programs of \<open>tollwing.bpf.c\<close>: \<open>cgroup/connect4\<close> and \<open>connect6\<close> (pre-DNAT
  capture), \<open>sockops\<close> (establish and close) and \<open>cgroup/sock_release\<close>, with the sidecar
  detection they use. A program takes the kernel's answers, its context and the state, and
  returns its verdict with the new state.
\<close>

section \<open>Contexts\<close>

type_synonym ip6_words = "u32 \<times> u32 \<times> u32 \<times> u32"

record bpf_sock_addr =
  sa_user_ip4 :: u32
  sa_user_ip6 :: ip6_words
  sa_user_port :: u32
  sa_protocol :: u32

record bpf_sock_ops =
  so_op :: u32
  so_args1 :: u32
  so_family :: u32
  so_remote_ip4 :: u32
  so_local_ip4 :: u32
  so_remote_ip6 :: ip6_words
  so_local_ip6 :: ip6_words
  so_remote_port :: u32
  so_local_port :: u32
  so_is_fullsock :: u32
  so_bpf_sock_ops_cb_flags :: u32
  so_sk :: "u64 option"

definition BPF_SOCK_OPS_ACTIVE_ESTABLISHED_CB :: u32 where "BPF_SOCK_OPS_ACTIVE_ESTABLISHED_CB = 4"
definition BPF_SOCK_OPS_PASSIVE_ESTABLISHED_CB :: u32 where "BPF_SOCK_OPS_PASSIVE_ESTABLISHED_CB = 5"
definition BPF_SOCK_OPS_STATE_CB :: u32 where "BPF_SOCK_OPS_STATE_CB = 10"
definition BPF_SOCK_OPS_STATE_CB_FLAG :: u32 where "BPF_SOCK_OPS_STATE_CB_FLAG = 4"

text \<open>Four 32-bit stores into a 16-byte buffer.\<close>

fun store_ip6 :: "ip6_words \<Rightarrow> u8 list \<Rightarrow> u8 list" where
  "store_ip6 (w0, w1, w2, w3) buf =
     store_bytes (store_bytes (store_bytes (store_bytes buf 0 (le_bytes32 w0))
       4 (le_bytes32 w1)) 8 (le_bytes32 w2)) 12 (le_bytes32 w3)"

text \<open>Ports: \<open>user_port\<close> holds the port in its low half in network order, \<open>remote_port\<close> in its high half.\<close>

definition connect_port :: "u32 \<Rightarrow> u16" where
  "connect_port user_port = ucast (drop_bit 16 (bpf_ntohl Little False user_port))"

definition sockops_port :: "u32 \<Rightarrow> u16" where
  "sockops_port remote_port = ucast (bpf_ntohl Little False remote_port)"

section \<open>Sidecars\<close>

definition is_sidecar_port :: "u16 \<Rightarrow> bool" where
  "is_sidecar_port port \<longleftrightarrow>
     port = 15001 \<or> port = 15006 \<or> port = 15090 \<or> port = 15021 \<or> port = 4143 \<or> port = 4191"

definition loopback :: u32 where
  "loopback = bpf_htonl Little True 0x7F000001"

text \<open>\<open>bpf_sk_storage_get\<close> with the create flag: an existing entry is kept.\<close>

definition sk_storage_create :: "kenv \<Rightarrow> u64 \<Rightarrow> sidecar_info \<Rightarrow> agent \<Rightarrow> agent" where
  "sk_storage_create e sk info a =
     (if sidecar_storage a sk = None \<and> sk_storage_granted e
      then a\<lparr>sidecar_storage := (sidecar_storage a)(sk \<mapsto> info)\<rparr> else a)"

definition detect_sidecar :: "kenv \<Rightarrow> bpf_sock_ops \<Rightarrow> agent \<Rightarrow> bool \<times> agent" where
  "detect_sidecar e skops a =
     (let local_port = (ucast (so_local_port skops) :: u16);
          remote_port = sockops_port (so_remote_port skops);
          is_loopback = (so_local_ip4 skops = loopback \<and> so_remote_ip4 skops = loopback);
          sidecar_port = (is_sidecar_port local_port \<or> is_sidecar_port remote_port)
      in if is_loopback \<or> sidecar_port
         then (case so_sk skops of
                 None \<Rightarrow> (False, a)
               | Some sk \<Rightarrow>
                   (True, sk_storage_create e sk (zero_sidecar_info\<lparr>si_is_sidecar_internal := 1\<rparr>) a))
         else (False, a))"

definition is_sidecar_socket_cookie :: "u64 \<Rightarrow> conn_info option \<Rightarrow> bool" where
  "is_sidecar_socket_cookie cookie conn =
     (case conn of
        None \<Rightarrow> False
      | Some ci \<Rightarrow>
          if ci_src_ip ci = loopback \<and> ci_dst_ip ci = loopback then True
          else if is_sidecar_port (ci_src_port ci) \<or> is_sidecar_port (ci_dst_port ci) then True
          else False)"

section \<open>cgroup/connect4 and cgroup/connect6\<close>

definition current_pid :: "kenv \<Rightarrow> u32" where
  "current_pid e = ucast (drop_bit 32 (bpf_get_current_pid_tgid e))"

definition connect4_dst :: "kenv \<Rightarrow> bpf_sock_addr \<Rightarrow> original_dst" where
  "connect4_dst e ctx = zero_original_dst
     \<lparr>od_ip := sa_user_ip4 ctx,
      od_port := connect_port (sa_user_port ctx),
      od_pid := current_pid e,
      od_cgroupid := bpf_get_current_cgroup_id e,
      od_comm := bpf_get_current_comm e\<rparr>"

definition connect4_udp_conn :: "kenv \<Rightarrow> bpf_sock_addr \<Rightarrow> conn_info" where
  "connect4_udp_conn e ctx =
     (let dst = connect4_dst e ctx in zero_conn_info
        \<lparr>ci_dst_ip := sa_user_ip4 ctx,
         ci_original_dst_ip := sa_user_ip4 ctx,
         ci_dst_port := od_port dst,
         ci_original_dst_port := od_port dst,
         ci_pid := od_pid dst,
         ci_cgroupid := od_cgroupid dst,
         ci_start_ns := bpf_ktime_get_ns e 0,
         ci_protocol := IPPROTO_UDP,
         ci_direction := 0,
         ci_state := 1\<rparr>)"

text \<open>The common guard of the two connect programs: \<open>Some\<close> protocol when the connect is recorded.\<close>

definition connect_selected :: "kenv \<Rightarrow> bpf_sock_addr \<Rightarrow> agent \<Rightarrow> u8 option" where
  "connect_selected e ctx a =
     (case get_config a of
        None \<Rightarrow> None
      | Some cfg \<Rightarrow>
          let proto = (ucast (sa_protocol ctx) :: u8) in
          if proto \<noteq> IPPROTO_TCP \<and> \<not> (proto = IPPROTO_UDP \<and> ac_track_udp cfg \<noteq> 0) then None
          else if \<not> should_sample e (ac_sample_rate cfg) then None
          else Some proto)"

text \<open>
  The event is written over whatever the reserved memory held; the clock is read a second
  time when the UDP branch has read it before.
\<close>

definition connect4_event :: "kenv \<Rightarrow> bpf_sock_addr \<Rightarrow> u8 \<Rightarrow> connect_event" where
  "connect4_event e ctx proto = (ring_connect e)
     \<lparr>cn_type := EVENT_CONNECT,
      cn_protocol := proto,
      cn_pid := current_pid e,
      cn_cookie := bpf_get_socket_cookie e,
      cn_cgroupid := bpf_get_current_cgroup_id e,
      cn_original_dst_ip := sa_user_ip4 ctx,
      cn_original_dst_port := od_port (connect4_dst e ctx),
      cn_timestamp_ns := bpf_ktime_get_ns e (if proto = IPPROTO_UDP then 1 else 0),
      cn_comm := bpf_get_current_comm e\<rparr>"

text \<open>Reserve, fill and submit, or count the drop.\<close>

definition emit_event :: "kenv \<Rightarrow> event \<Rightarrow> agent \<Rightarrow> agent" where
  "emit_event e evt a =
     (if ring_reserved e then a\<lparr>events := events a @ [evt]\<rparr>
      else count_drop e (slot_index DROP_SLOT_EVENTS_RINGBUF) a)"

definition tollwing_connect4 :: "kenv \<Rightarrow> bpf_sock_addr \<Rightarrow> agent \<Rightarrow> int \<times> agent" where
  "tollwing_connect4 e ctx a =
     (case connect_selected e ctx a of
        None \<Rightarrow> (1, a)
      | Some proto \<Rightarrow>
          let cookie = bpf_get_socket_cookie e;
              a1 = update_cookie e BPF_ANY cookie (connect4_dst e ctx) a;
              a2 = (if proto = IPPROTO_UDP
                    then update_connections e BPF_NOEXIST cookie (connect4_udp_conn e ctx) a1
                    else a1)
          in (1, emit_event e (Connect (connect4_event e ctx proto)) a2))"

definition connect6_dst :: "kenv \<Rightarrow> bpf_sock_addr \<Rightarrow> original_dst" where
  "connect6_dst e ctx = zero_original_dst
     \<lparr>od_family := AF_INET6,
      od_port := connect_port (sa_user_port ctx),
      od_pid := current_pid e,
      od_cgroupid := bpf_get_current_cgroup_id e,
      od_comm := bpf_get_current_comm e,
      od_ip6 := store_ip6 (sa_user_ip6 ctx) (od_ip6 zero_original_dst)\<rparr>"

text \<open>\<open>connect6\<close> does not write \<open>original_dst_ip\<close>: the field keeps the reserved memory's content.\<close>

definition connect6_event :: "kenv \<Rightarrow> bpf_sock_addr \<Rightarrow> u8 \<Rightarrow> connect_event" where
  "connect6_event e ctx proto = (ring_connect e)
     \<lparr>cn_type := EVENT_CONNECT,
      cn_protocol := proto,
      cn_pid := od_pid (connect6_dst e ctx),
      cn_cookie := bpf_get_socket_cookie e,
      cn_cgroupid := od_cgroupid (connect6_dst e ctx),
      cn_original_dst_port := od_port (connect6_dst e ctx),
      cn_timestamp_ns := bpf_ktime_get_ns e 0,
      cn_comm := bpf_get_current_comm e\<rparr>"

definition tollwing_connect6 :: "kenv \<Rightarrow> bpf_sock_addr \<Rightarrow> agent \<Rightarrow> int \<times> agent" where
  "tollwing_connect6 e ctx a =
     (case connect_selected e ctx a of
        None \<Rightarrow> (1, a)
      | Some proto \<Rightarrow>
          let a1 = update_cookie e BPF_ANY (bpf_get_socket_cookie e) (connect6_dst e ctx) a
          in (1, emit_event e (Connect (connect6_event e ctx proto)) a1))"

section \<open>sock_ops: connection established\<close>

text \<open>What phase one left for the socket: \<open>(orig_ip, orig_port, pid, cgroupid, comm)\<close>.\<close>

record correlation =
  co_orig_ip :: u32
  co_orig_port :: u16
  co_pid :: u32
  co_cgroupid :: u64
  co_comm :: "u8 list"

definition no_correlation :: correlation where
  "no_correlation = \<lparr>co_orig_ip = 0, co_orig_port = 0, co_pid = 0, co_cgroupid = 0,
     co_comm = replicate 16 0\<rparr>"

definition correlate :: "kenv \<Rightarrow> u8 \<Rightarrow> agent \<Rightarrow> correlation \<times> agent" where
  "correlate e direction a =
     (if direction = 0
      then (case lookup_original_dst a (bpf_get_socket_cookie e) of
              None \<Rightarrow> (no_correlation, a)
            | Some orig \<Rightarrow>
                (\<lparr>co_orig_ip = od_ip orig, co_orig_port = od_port orig, co_pid = od_pid orig,
                  co_cgroupid = od_cgroupid orig, co_comm = od_comm orig\<rparr>,
                 delete_cookie (bpf_get_socket_cookie e) a))
      else (no_correlation, a))"

definition established_conn :: "kenv \<Rightarrow> bpf_sock_ops \<Rightarrow> u8 \<Rightarrow> correlation \<Rightarrow> conn_info" where
  "established_conn e skops direction co =
     (let conn = zero_conn_info
        \<lparr>ci_family := ucast (so_family skops),
         ci_src_ip := so_local_ip4 skops,
         ci_dst_ip := so_remote_ip4 skops,
         ci_original_dst_ip := co_orig_ip co,
         ci_src_port := ucast (so_local_port skops),
         ci_dst_port := sockops_port (so_remote_port skops),
         ci_original_dst_port := co_orig_port co,
         ci_pid := co_pid co,
         ci_cgroupid := co_cgroupid co,
         ci_start_ns := bpf_ktime_get_ns e 0,
         ci_tx_bytes := 0,
         ci_rx_bytes := 0,
         ci_protocol := IPPROTO_TCP,
         ci_direction := direction,
         ci_state := 1\<rparr>
      in if so_family skops = AF_INET6
         then conn\<lparr>ci_src_ip6 := store_ip6 (so_local_ip6 skops) (ci_src_ip6 conn),
                   ci_dst_ip6 := store_ip6 (so_remote_ip6 skops) (ci_dst_ip6 conn)\<rparr>
         else conn)"

text \<open>\<open>bpf_sock_ops_cb_flags_set\<close>: the supported bits are set on a full socket.\<close>

definition bpf_sock_ops_cb_flags_set :: "kenv \<Rightarrow> bpf_sock_ops \<Rightarrow> u32 \<Rightarrow> agent \<Rightarrow> agent" where
  "bpf_sock_ops_cb_flags_set e skops argval a =
     (if so_is_fullsock skops = 0 then a
      else a\<lparr>sk_cb_flags := (sk_cb_flags a)
               (bpf_get_socket_cookie e := argval AND cb_flags_settable e)\<rparr>)"

text \<open>The flow key of a connection, and the two ways a flow's metrics change on this CPU.\<close>

definition flow_key_of :: "conn_info \<Rightarrow> flow_key" where
  "flow_key_of conn = zero_flow_key
     \<lparr>fk_src_ip := ci_src_ip conn,
      fk_dst_ip := ci_dst_ip conn,
      fk_src_port := ci_src_port conn,
      fk_dst_port := ci_dst_port conn,
      fk_pid := ci_pid conn,
      fk_protocol := ci_protocol conn,
      fk_direction := ci_direction conn\<rparr>"

definition lookup_flow :: "agent \<Rightarrow> flow_key \<Rightarrow> (nat \<Rightarrow> flow_metrics) option" where
  "lookup_flow a k = bpf_map_lookup_elem (flow_aggregates a) k"

definition write_flow :: "kenv \<Rightarrow> flow_key \<Rightarrow> (nat \<Rightarrow> flow_metrics) \<Rightarrow> flow_metrics \<Rightarrow> agent \<Rightarrow> agent" where
  "write_flow e k vals fm a = a\<lparr>flow_aggregates :=
     bpf_map_write k (vals(smp_processor_id e := fm)) (flow_aggregates a)\<rparr>"

definition insert_flow :: "kenv \<Rightarrow> flow_key \<Rightarrow> flow_metrics \<Rightarrow> agent \<Rightarrow> agent" where
  "insert_flow e k fm a =
     (case hash_update (map_grant e M_flow_aggregates) BPF_NOEXIST k
             ((other_cpus_flow e)(smp_processor_id e := fm)) (flow_aggregates a) of
        (None, m) \<Rightarrow> a\<lparr>flow_aggregates := m\<rparr>
      | (Some _, m) \<Rightarrow>
          count_drop e (slot_index DROP_SLOT_FLOW_AGGREGATES) (a\<lparr>flow_aggregates := m\<rparr>))"

definition seed_flow :: "kenv \<Rightarrow> bpf_sock_ops \<Rightarrow> u8 \<Rightarrow> conn_info \<Rightarrow> agent \<Rightarrow> agent" where
  "seed_flow e skops direction conn a =
     (let now = bpf_ktime_get_ns e 0;
          fk = zero_flow_key
            \<lparr>fk_src_ip := ci_src_ip conn,
             fk_dst_ip := ci_dst_ip conn,
             fk_src_port := ci_src_port conn,
             fk_dst_port := sockops_port (so_remote_port skops),
             fk_pid := ci_pid conn,
             fk_protocol := IPPROTO_TCP,
             fk_direction := direction\<rparr>
      in case lookup_flow a fk of
           Some vals \<Rightarrow>
             (let existing = vals (smp_processor_id e)
              in write_flow e fk vals
                   (existing\<lparr>fm_conn_count := fm_conn_count existing + 1,
                             fm_last_updated_ns := now\<rparr>) a)
         | None \<Rightarrow>
             insert_flow e fk (zero_flow_metrics\<lparr>fm_conn_count := 1, fm_last_updated_ns := now\<rparr>) a)"

definition establish_event_of ::
  "kenv \<Rightarrow> bpf_sock_ops \<Rightarrow> u8 \<Rightarrow> correlation \<Rightarrow> establish_event" where
  "establish_event_of e skops direction co = (ring_establish e)
     \<lparr>es_type := EVENT_ESTABLISH,
      es_direction := direction,
      es_protocol := IPPROTO_TCP,
      es_pid := co_pid co,
      es_cookie := bpf_get_socket_cookie e,
      es_cgroupid := co_cgroupid co,
      es_src_ip := so_local_ip4 skops,
      es_dst_ip := so_remote_ip4 skops,
      es_src_port := ucast (so_local_port skops),
      es_dst_port := sockops_port (so_remote_port skops),
      es_original_dst_ip := co_orig_ip co,
      es_original_dst_port := co_orig_port co,
      es_timestamp_ns := bpf_ktime_get_ns e 0,
      es_comm := co_comm co\<rparr>"

definition handle_established :: "kenv \<Rightarrow> bpf_sock_ops \<Rightarrow> u8 \<Rightarrow> agent \<Rightarrow> agent" where
  "handle_established e skops direction a =
     (let (co, a1) = correlate e direction a;
          conn = established_conn e skops direction co;
          a2 = update_connections e BPF_ANY (bpf_get_socket_cookie e) conn a1;
          a3 = bpf_sock_ops_cb_flags_set e skops
                 (so_bpf_sock_ops_cb_flags skops OR BPF_SOCK_OPS_STATE_CB_FLAG) a2;
          a4 = snd (detect_sidecar e skops a3);
          a5 = seed_flow e skops direction conn a4
      in emit_event e (Establish (establish_event_of e skops direction co)) a5)"

section \<open>sock_ops: state change and dispatch\<close>

definition close_event_of :: "kenv \<Rightarrow> conn_info \<Rightarrow> close_event" where
  "close_event_of e conn =
     (let now = bpf_ktime_get_ns e 0 in (ring_close e)
        \<lparr>cl_type := EVENT_CLOSE,
         cl_direction := ci_direction conn,
         cl_protocol := ci_protocol conn,
         cl_pid := ci_pid conn,
         cl_cookie := bpf_get_socket_cookie e,
         cl_src_ip := ci_src_ip conn,
         cl_dst_ip := ci_dst_ip conn,
         cl_src_port := ci_src_port conn,
         cl_dst_port := ci_dst_port conn,
         cl_original_dst_ip := ci_original_dst_ip conn,
         cl_original_dst_port := ci_original_dst_port conn,
         cl_tx_bytes := ci_tx_bytes conn,
         cl_rx_bytes := ci_rx_bytes conn,
         cl_retransmit_bytes := ci_retransmit_bytes conn,
         cl_retransmit_count := ci_retransmit_count conn,
         cl_duration_ns := now - ci_start_ns conn,
         cl_timestamp_ns := now\<rparr>)"

definition handle_state_change :: "kenv \<Rightarrow> bpf_sock_ops \<Rightarrow> agent \<Rightarrow> agent" where
  "handle_state_change e skops a =
     (if sint (so_args1 skops) \<noteq> TCP_CLOSE then a
      else let cookie = bpf_get_socket_cookie e in
           case lookup_connection a cookie of
             None \<Rightarrow> a
           | Some conn \<Rightarrow>
               delete_connection cookie (emit_event e (Close (close_event_of e conn)) a))"

definition tollwing_sockops :: "kenv \<Rightarrow> bpf_sock_ops \<Rightarrow> agent \<Rightarrow> int \<times> agent" where
  "tollwing_sockops e skops a =
     (case get_config a of
        None \<Rightarrow> (1, a)
      | Some cfg \<Rightarrow>
          if so_family skops \<noteq> AF_INET \<and> so_family skops \<noteq> AF_INET6 then (1, a)
          else if so_op skops = BPF_SOCK_OPS_ACTIVE_ESTABLISHED_CB then
            (1, if lookup_original_dst a (bpf_get_socket_cookie e) = None \<and> ac_sample_rate cfg > 1
                then a else handle_established e skops 0 a)
          else if so_op skops = BPF_SOCK_OPS_PASSIVE_ESTABLISHED_CB then
            (1, if \<not> should_sample e (ac_sample_rate cfg) then a
                else handle_established e skops 1 a)
          else if so_op skops = BPF_SOCK_OPS_STATE_CB then
            (1, handle_state_change e skops a)
          else (1, a))"

section \<open>cgroup/sock_release\<close>

definition tollwing_sock_release :: "kenv \<Rightarrow> u32 \<Rightarrow> agent \<Rightarrow> int \<times> agent" where
  "tollwing_sock_release e protocol a =
     (let cookie = bpf_get_socket_cookie e;
          a1 = (if protocol \<noteq> IPPROTO_TCP then delete_connection cookie a else a)
      in (1, delete_cookie cookie a1))"

end
