(* ===== verification/Conn_Facts.thy ===== *)
theory Conn_Facts
  imports Conn_Hooks
begin

text \<open>
  Facts about the connection programs of \<open>Conn_Hooks\<close>: the bounds of the maps are kept, what
  each program leaves unchanged, the ports they decode, what the two phases of the capture
  leave in the maps, what a close does, and how the totals of the flow aggregates move.
\<close>

unbundle bit_operations_syntax

section \<open>Well-formedness and frames of the connection programs\<close>

lemma emit_event_wf [wf_intros]: "agent_wf a \<Longrightarrow> agent_wf (emit_event e ev a)"
  by (simp add: emit_event_def)

lemma correlate_wf [wf_intros]: "agent_wf a \<Longrightarrow> agent_wf (snd (correlate e d a))"
  by (auto simp: correlate_def delete_cookie_wf split: option.split)

lemma cb_flags_set_wf [wf_intros]: "agent_wf a \<Longrightarrow> agent_wf (bpf_sock_ops_cb_flags_set e s v a)"
  by (simp add: bpf_sock_ops_cb_flags_set_def)

lemma detect_sidecar_wf [wf_intros]: "agent_wf a \<Longrightarrow> agent_wf (snd (detect_sidecar e s a))"
  by (simp add: detect_sidecar_def sk_storage_create_def Let_def split: option.split)

lemma write_flow_wf [wf_intros]:
  "agent_wf a \<Longrightarrow> lookup_flow a k = Some vals \<Longrightarrow> agent_wf (write_flow e k vals fm a)"
  by (auto simp: agent_wf_def write_flow_def lookup_flow_def intro: wf_write)

lemma insert_flow_wf [wf_intros]: "agent_wf a \<Longrightarrow> agent_wf (insert_flow e k fm a)"
  by (auto simp: insert_flow_def agent_wf_def intro: hash.upd_wf split: option.split prod.split)

lemma seed_flow_wf [wf_intros]: "agent_wf a \<Longrightarrow> agent_wf (seed_flow e s d conn a)"
  by (auto simp: seed_flow_def Let_def intro: wf_intros split: option.split)

lemma handle_established_wf [wf_intros]:
  assumes "agent_wf a" shows "agent_wf (handle_established e s d a)"
  using correlate_wf [OF assms, of e d]
  by (auto simp: handle_established_def Let_def split_beta intro!: wf_intros)

lemma handle_state_change_wf [wf_intros]: "agent_wf a \<Longrightarrow> agent_wf (handle_state_change e s a)"
  by (auto simp: handle_state_change_def Let_def intro: wf_intros split: option.split)

lemma connect4_wf [wf_intros]: "agent_wf a \<Longrightarrow> agent_wf (snd (tollwing_connect4 e ctx a))"
  by (auto simp: tollwing_connect4_def Let_def intro!: wf_intros split: option.split)

lemma connect6_wf [wf_intros]: "agent_wf a \<Longrightarrow> agent_wf (snd (tollwing_connect6 e ctx a))"
  by (auto simp: tollwing_connect6_def Let_def intro!: wf_intros split: option.split)

lemma sockops_wf [wf_intros]: "agent_wf a \<Longrightarrow> agent_wf (snd (tollwing_sockops e s a))"
  by (auto simp: tollwing_sockops_def intro: wf_intros split: option.split)

lemma sock_release_wf [wf_intros]: "agent_wf a \<Longrightarrow> agent_wf (snd (tollwing_sock_release e p a))"
  by (auto simp: tollwing_sock_release_def Let_def intro!: wf_intros)

lemma emit_event_frame [frame_simps, simp]:
  "agent_config_map (emit_event e ev a) = agent_config_map a"
  "cookie_to_original_dst (emit_event e ev a) = cookie_to_original_dst a"
  "connections (emit_event e ev a) = connections a"
  "flow_aggregates (emit_event e ev a) = flow_aggregates a"
  "quic_flows (emit_event e ev a) = quic_flows a"
  "sidecar_storage (emit_event e ev a) = sidecar_storage a"
  "dns_events (emit_event e ev a) = dns_events a"
  "sk_cb_flags (emit_event e ev a) = sk_cb_flags a"
  by (simp_all add: emit_event_def)

lemma correlate_frame [frame_simps, simp]:
  "agent_config_map (snd (correlate e d a)) = agent_config_map a"
  "connections (snd (correlate e d a)) = connections a"
  "events (snd (correlate e d a)) = events a"
  "flow_aggregates (snd (correlate e d a)) = flow_aggregates a"
  "drop_counters (snd (correlate e d a)) = drop_counters a"
  "quic_flows (snd (correlate e d a)) = quic_flows a"
  "dns_events (snd (correlate e d a)) = dns_events a"
  by (simp_all add: correlate_def split: option.split)

lemma cb_flags_set_frame [frame_simps, simp]:
  "agent_config_map (bpf_sock_ops_cb_flags_set e s v a) = agent_config_map a"
  "cookie_to_original_dst (bpf_sock_ops_cb_flags_set e s v a) = cookie_to_original_dst a"
  "connections (bpf_sock_ops_cb_flags_set e s v a) = connections a"
  "events (bpf_sock_ops_cb_flags_set e s v a) = events a"
  "flow_aggregates (bpf_sock_ops_cb_flags_set e s v a) = flow_aggregates a"
  "drop_counters (bpf_sock_ops_cb_flags_set e s v a) = drop_counters a"
  "quic_flows (bpf_sock_ops_cb_flags_set e s v a) = quic_flows a"
  "dns_events (bpf_sock_ops_cb_flags_set e s v a) = dns_events a"
  by (simp_all add: bpf_sock_ops_cb_flags_set_def)

lemma detect_sidecar_frame [frame_simps, simp]:
  "agent_config_map (snd (detect_sidecar e s a)) = agent_config_map a"
  "cookie_to_original_dst (snd (detect_sidecar e s a)) = cookie_to_original_dst a"
  "connections (snd (detect_sidecar e s a)) = connections a"
  "events (snd (detect_sidecar e s a)) = events a"
  "flow_aggregates (snd (detect_sidecar e s a)) = flow_aggregates a"
  "drop_counters (snd (detect_sidecar e s a)) = drop_counters a"
  "quic_flows (snd (detect_sidecar e s a)) = quic_flows a"
  "dns_events (snd (detect_sidecar e s a)) = dns_events a"
  "sk_cb_flags (snd (detect_sidecar e s a)) = sk_cb_flags a"
  by (simp_all add: detect_sidecar_def sk_storage_create_def Let_def split: option.split)

lemma flow_op_frame [frame_simps, simp]:
  "agent_config_map (write_flow e k vals fm a) = agent_config_map a"
  "cookie_to_original_dst (write_flow e k vals fm a) = cookie_to_original_dst a"
  "connections (write_flow e k vals fm a) = connections a"
  "events (write_flow e k vals fm a) = events a"
  "drop_counters (write_flow e k vals fm a) = drop_counters a"
  "quic_flows (write_flow e k vals fm a) = quic_flows a"
  "dns_events (write_flow e k vals fm a) = dns_events a"
  "sk_cb_flags (write_flow e k vals fm a) = sk_cb_flags a"
  "agent_config_map (insert_flow e k fm a) = agent_config_map a"
  "cookie_to_original_dst (insert_flow e k fm a) = cookie_to_original_dst a"
  "connections (insert_flow e k fm a) = connections a"
  "events (insert_flow e k fm a) = events a"
  "quic_flows (insert_flow e k fm a) = quic_flows a"
  "dns_events (insert_flow e k fm a) = dns_events a"
  "sk_cb_flags (insert_flow e k fm a) = sk_cb_flags a"
  by (simp_all add: write_flow_def insert_flow_def split: option.split prod.split)

lemma seed_flow_frame [frame_simps, simp]:
  "agent_config_map (seed_flow e s d conn a) = agent_config_map a"
  "cookie_to_original_dst (seed_flow e s d conn a) = cookie_to_original_dst a"
  "connections (seed_flow e s d conn a) = connections a"
  "events (seed_flow e s d conn a) = events a"
  "quic_flows (seed_flow e s d conn a) = quic_flows a"
  "dns_events (seed_flow e s d conn a) = dns_events a"
  "sk_cb_flags (seed_flow e s d conn a) = sk_cb_flags a"
  by (simp_all add: seed_flow_def Let_def split: option.split)

lemma lookup_connection_cong:
  "connections b = connections a \<Longrightarrow> lookup_connection b k = lookup_connection a k"
  by (simp add: lookup_connection_def)

section \<open>Ports\<close>

lemma connect_port_decodes: "connect_port (ucast (bpf_htons Little c p)) = p"
proof -
  have "builtin_bswap32 (ucast (builtin_bswap16 p)) = push_bit 16 (ucast p)"
    by (rule word32_byte_eqI) (auto simp: bit_simps dest: bit_imp_le_length)
  then have "connect_port (ucast (builtin_bswap16 p)) = ucast (drop_bit 16 (push_bit 16 (ucast p :: u32)))"
    by (simp add: connect_port_def)
  also have "\<dots> = p" by (rule bit_word_eqI) (auto simp: bit_simps)
  finally show ?thesis by (simp add: swab16_is_bswap16)
qed

lemma sockops_port_decodes: "sockops_port (push_bit 16 (ucast (bpf_htons Little c p))) = p"
proof -
  have "builtin_bswap32 (push_bit 16 (ucast (builtin_bswap16 p))) = ucast p"
    by (rule word32_byte_eqI) (auto simp: bit_simps dest: bit_imp_le_length)
  then have "sockops_port (push_bit 16 (ucast (builtin_bswap16 p))) = ucast (ucast p :: u32)"
    by (simp add: sockops_port_def)
  also have "\<dots> = p" by (rule bit_word_eqI) (auto simp: bit_simps)
  finally show ?thesis by (simp add: swab16_is_bswap16)
qed

section \<open>Phase one: the connect programs\<close>

text \<open>The kernel grants the update and has room after its evictions: an LRU update then succeeds.\<close>

definition lru_room :: "bool \<times> 'k list \<Rightarrow> ('k, 'v) bmap \<Rightarrow> bool" where
  "lru_room d m \<longleftrightarrow> fst d \<and> card (dom (entries (evict (snd d) m))) < max_entries m"

abbreviation cookie_room :: "kenv \<Rightarrow> agent \<Rightarrow> bool" where
  "cookie_room e a \<equiv> lru_room (map_grant e M_cookie_to_original_dst,
     lru_victims e M_cookie_to_original_dst) (cookie_to_original_dst a)"

abbreviation connections_room :: "kenv \<Rightarrow> agent \<Rightarrow> bool" where
  "connections_room e a \<equiv> lru_room (map_grant e M_connections, lru_victims e M_connections) (connections a)"

lemma update_cookie_lookup:
  "cookie_room e a \<Longrightarrow> lookup_original_dst (update_cookie e BPF_ANY k v a) k = Some v"
  by (simp add: lru_room_def update_cookie_def lookup_original_dst_def lru_update_any)

lemma update_connections_lookup:
  "connections_room e a \<Longrightarrow> lookup_connection (update_connections e BPF_ANY k v a) k = Some v"
  by (simp add: lru_room_def update_connections_def lookup_connection_def lru_update_any)

lemma update_connections_other:
  "j \<noteq> k \<Longrightarrow> j \<notin> set (lru_victims e M_connections) \<Longrightarrow>
    lookup_connection (update_connections e fl k v a) j = lookup_connection a j"
  by (simp add: update_connections_def lookup_connection_def lru_update_keeps)

lemma update_cookie_other:
  "j \<noteq> k \<Longrightarrow> j \<notin> set (lru_victims e M_cookie_to_original_dst) \<Longrightarrow>
    lookup_original_dst (update_cookie e fl k v a) j = lookup_original_dst a j"
  by (simp add: update_cookie_def lookup_original_dst_def lru_update_keeps)

text \<open>An insert with \<open>BPF_NOEXIST\<close> never changes an entry that is there and not evicted.\<close>

lemma update_connections_noexist:
  assumes "lookup_connection a k = Some w" and "k \<notin> set (lru_victims e M_connections)"
  shows "lookup_connection (update_connections e BPF_NOEXIST k v a) k = Some w"
  using assms
  by (auto simp: update_connections_def lookup_connection_def lru_update_def hash_update_def
      check_flags_def bpf_map_lookup_elem_def evict_def)

lemma lookup_original_dst_cong:
  "cookie_to_original_dst b = cookie_to_original_dst a \<Longrightarrow> lookup_original_dst b k = lookup_original_dst a k"
  by (simp add: lookup_original_dst_def)

lemma connect4_captures:
  assumes "connect_selected e ctx a = Some proto" and "cookie_room e a"
  shows "lookup_original_dst (snd (tollwing_connect4 e ctx a)) (bpf_get_socket_cookie e)
    = Some (connect4_dst e ctx)"
  using assms
  by (simp add: tollwing_connect4_def Let_def update_cookie_lookup
      lookup_original_dst_cong [of "emit_event e ev a'" a' for ev a']
      lookup_original_dst_cong [of "update_connections e fl k v a'" a' for fl k v a'])

section \<open>Phase two: sock_ops\<close>

lemma seed_flow_key:
  "flow_key_of (established_conn e s d co) = zero_flow_key
    \<lparr>fk_src_ip := ci_src_ip (established_conn e s d co),
     fk_dst_ip := ci_dst_ip (established_conn e s d co),
     fk_src_port := ci_src_port (established_conn e s d co),
     fk_dst_port := sockops_port (so_remote_port s),
     fk_pid := ci_pid (established_conn e s d co),
     fk_protocol := IPPROTO_TCP,
     fk_direction := d\<rparr>"
  by (simp add: flow_key_of_def established_conn_def Let_def)

lemma established_conn_fields:
  "ci_src_ip (established_conn e s d co) = so_local_ip4 s"
  "ci_dst_ip (established_conn e s d co) = so_remote_ip4 s"
  "ci_src_port (established_conn e s d co) = ucast (so_local_port s)"
  "ci_dst_port (established_conn e s d co) = sockops_port (so_remote_port s)"
  "ci_original_dst_ip (established_conn e s d co) = co_orig_ip co"
  "ci_original_dst_port (established_conn e s d co) = co_orig_port co"
  "ci_pid (established_conn e s d co) = co_pid co"
  "ci_cgroupid (established_conn e s d co) = co_cgroupid co"
  "ci_protocol (established_conn e s d co) = IPPROTO_TCP"
  "ci_direction (established_conn e s d co) = d"
  "ci_tx_bytes (established_conn e s d co) = 0"
  "ci_rx_bytes (established_conn e s d co) = 0"
  "ci_retransmit_bytes (established_conn e s d co) = 0"
  "ci_retransmit_count (established_conn e s d co) = 0"
  "ci_start_ns (established_conn e s d co) = bpf_ktime_get_ns e 0"
  by (simp_all add: established_conn_def Let_def zero_conn_info_def)

text \<open>What the program that marks the socket and the programs that skip it look at is the same.\<close>

lemma sidecar_agree:
  assumes "so_sk s = Some sk"
  shows "fst (detect_sidecar e s a) =
    is_sidecar_socket_cookie c (Some (established_conn e s d co))"
  using assms
  by (auto simp: detect_sidecar_def is_sidecar_socket_cookie_def established_conn_fields Let_def)

lemma handle_established_connection:
  assumes "connections_room e a"
  shows "lookup_connection (handle_established e s d a) (bpf_get_socket_cookie e)
    = Some (established_conn e s d (fst (correlate e d a)))"
proof -
  have "connections_room e (snd (correlate e d a))" using assms by simp
  from update_connections_lookup [OF this] show ?thesis
    by (simp add: handle_established_def Let_def split_beta lookup_connection_def)
qed

lemma handle_established_other:
  assumes "j \<noteq> bpf_get_socket_cookie e" and "j \<notin> set (lru_victims e M_connections)"
  shows "lookup_connection (handle_established e s d a) j = lookup_connection a j"
  using update_connections_other [OF assms, of BPF_ANY _ "snd (correlate e d a)"]
  by (simp add: handle_established_def Let_def split_beta lookup_connection_def)

lemma handle_established_cookie:
  "cookie_to_original_dst (handle_established e s d a) = cookie_to_original_dst (snd (correlate e d a))"
  by (simp add: handle_established_def Let_def split_beta)

lemma handle_established_frame [frame_simps, simp]:
  "agent_config_map (handle_established e s d a) = agent_config_map a"
  "quic_flows (handle_established e s d a) = quic_flows a"
  "dns_events (handle_established e s d a) = dns_events a"
  by (simp_all add: handle_established_def Let_def split_beta)

lemma handle_established_event:
  assumes "ring_reserved e"
  shows "events (handle_established e s d a) =
    events a @ [Establish (establish_event_of e s d (fst (correlate e d a)))]"
  using assms by (simp add: handle_established_def Let_def split_beta emit_event_def)

lemma handle_established_armed:
  assumes "so_is_fullsock s \<noteq> 0"
  shows "sk_cb_flags (handle_established e s d a) (bpf_get_socket_cookie e) =
    (so_bpf_sock_ops_cb_flags s OR BPF_SOCK_OPS_STATE_CB_FLAG) AND cb_flags_settable e"
  using assms by (simp add: handle_established_def Let_def split_beta bpf_sock_ops_cb_flags_set_def)

lemma correlate_found:
  assumes "lookup_original_dst a (bpf_get_socket_cookie e) = Some orig"
  shows "fst (correlate e 0 a) = \<lparr>co_orig_ip = od_ip orig, co_orig_port = od_port orig,
      co_pid = od_pid orig, co_cgroupid = od_cgroupid orig, co_comm = od_comm orig\<rparr>"
    and "lookup_original_dst (snd (correlate e 0 a)) (bpf_get_socket_cookie e) = None"
  using assms by (simp_all add: correlate_def)

lemma correlate_incoming: "d \<noteq> 0 \<Longrightarrow> correlate e d a = (no_correlation, a)"
  by (simp add: correlate_def)

section \<open>Close\<close>

lemma state_change_ignored:
  "sint (so_args1 s) \<noteq> TCP_CLOSE \<Longrightarrow> handle_state_change e s a = a"
  by (simp add: handle_state_change_def)

lemma state_change_closes:
  assumes "sint (so_args1 s) = TCP_CLOSE"
    and "lookup_connection a (bpf_get_socket_cookie e) = Some conn"
  shows "handle_state_change e s a = delete_connection (bpf_get_socket_cookie e)
    (emit_event e (Close (close_event_of e conn)) a)"
  using assms by (simp add: handle_state_change_def Let_def)

lemma state_change_frame [frame_simps, simp]:
  "agent_config_map (handle_state_change e s a) = agent_config_map a"
  "cookie_to_original_dst (handle_state_change e s a) = cookie_to_original_dst a"
  "flow_aggregates (handle_state_change e s a) = flow_aggregates a"
  "quic_flows (handle_state_change e s a) = quic_flows a"
  "dns_events (handle_state_change e s a) = dns_events a"
  by (simp_all add: handle_state_change_def Let_def split: option.split)

lemma state_change_other:
  "j \<noteq> bpf_get_socket_cookie e \<Longrightarrow>
    lookup_connection (handle_state_change e s a) j = lookup_connection a j"
  by (simp add: handle_state_change_def Let_def lookup_connection_def delete_connection_def
      split: option.split)

section \<open>Totals of the flow aggregates\<close>

definition flow_total :: "nat \<Rightarrow> (flow_metrics \<Rightarrow> u64) \<Rightarrow> agent \<Rightarrow> u64" where
  "flow_total n g a = map_total (cpu_total n g) (entries (flow_aggregates a))"

lemma flow_total_cong: "flow_aggregates b = flow_aggregates a \<Longrightarrow> flow_total n g b = flow_total n g a"
  by (simp add: flow_total_def)

lemma drops_cong: "drop_counters b = drop_counters a \<Longrightarrow> drops n s b = drops n s a"
  by (simp add: drops_def)

lemma write_flow_total:
  assumes wf: "agent_wf a" and cpu: "smp_processor_id e < n" and "lookup_flow a k = Some vals"
  shows "flow_total n g (write_flow e k vals fm a)
    = flow_total n g a + (g fm - g (vals (smp_processor_id e)))"
  using assms
  by (simp add: flow_total_def write_flow_def bpf_map_write_def lookup_flow_def
      bpf_map_lookup_elem_def map_total_update cpu_total_upd agent_wf_def bmap_wf_def)

text \<open>
  The kernel starts the slots of the other CPUs of a new per-CPU entry at zero: what the
  poller's sum over the CPUs relies on.
\<close>

definition other_cpus_zero :: "kenv \<Rightarrow> bool" where
  "other_cpus_zero e \<longleftrightarrow> (\<forall>c. other_cpus_flow e c = zero_flow_metrics)"

lemma insert_flow_total:
  fixes k :: flow_key and fm :: flow_metrics
  assumes wf: "agent_wf a" and cpu: "smp_processor_id e < n" and zero: "other_cpus_zero e"
    and g0: "g zero_flow_metrics = 0"
  defines "b \<equiv> insert_flow e k fm a"
  shows "flow_total n g b = flow_total n g a + g fm \<and> drop_counters b = drop_counters a
       \<or> flow_aggregates b = flow_aggregates a \<and>
         b = count_drop e (slot_index DROP_SLOT_FLOW_AGGREGATES) a"
proof -
  have fin: "finite (dom (entries (flow_aggregates a)))"
    using wf by (simp add: agent_wf_def bmap_wf_def)
  define vals where "vals = (other_cpus_flow e)(smp_processor_id e := fm)"
  have tot: "cpu_total n g vals = g fm"
    using cpu_total_single [OF cpu, of g vals] zero g0 by (simp add: vals_def other_cpus_zero_def)
  obtain r m where upd:
    "hash_update (map_grant e M_flow_aggregates) BPF_NOEXIST k vals (flow_aggregates a) = (r, m)"
    by fastforce
  note ins = hash.insert_total [OF fin upd, of "cpu_total n g"]
  show ?thesis
  proof (cases r)
    case None
    then show ?thesis using upd ins tot by (simp add: b_def insert_flow_def vals_def flow_total_def)
  next
    case (Some err)
    with upd have "m = flow_aggregates a" by (simp add: hash.upd_rejected)
    then show ?thesis using Some upd by (simp add: b_def insert_flow_def vals_def)
  qed
qed

end
