(* ===== verification/Pt_Regs.thy ===== *)
theory Pt_Regs
  imports Tollwing_Prelude
begin

text \<open>
  How a kprobe program finds the arguments of the probed function: the calling conventions
  of \<open>include/bpf/bpf_tracing.h\<close>, one record per target, the selection of the target from
  the compiler's macros, the \<open>PT_REGS_*\<close> accessors, and the argument casts of \<open>BPF_PROG\<close>.
  A register is the name of the field of the target's \<open>pt_regs\<close>; \<open>Unsupported\<close> is the
  header's \<open>__unsupported__\<close>, which does not compile where it is used.
\<close>

datatype reg = Reg string | Unsupported

record abi =
  parm_regs :: "reg list"
  syscall_regs :: "reg list"
  ret_reg :: reg
  fp_reg :: reg
  rc_reg :: reg
  sp_reg :: reg
  ip_reg :: reg

definition regs_of :: "string list \<Rightarrow> reg list" where
  "regs_of = map Reg"

section \<open>The calling conventions\<close>

definition x86_abi :: abi where
  "x86_abi = \<lparr>parm_regs = regs_of [''di'', ''si'', ''dx'', ''cx'', ''r8'', ''r9''],
     syscall_regs = regs_of [''di'', ''si'', ''dx'', ''r10'', ''r8'', ''r9''],
     ret_reg = Reg ''sp'', fp_reg = Reg ''bp'', rc_reg = Reg ''ax'', sp_reg = Reg ''sp'',
     ip_reg = Reg ''ip''\<rparr>"

definition i386_user_abi :: abi where
  "i386_user_abi = \<lparr>parm_regs = regs_of [''eax'', ''edx'', ''ecx''],
     syscall_regs = regs_of [''ebx'', ''ecx'', ''edx'', ''esi'', ''edi'', ''ebp''],
     ret_reg = Reg ''esp'', fp_reg = Reg ''ebp'', rc_reg = Reg ''eax'', sp_reg = Reg ''esp'',
     ip_reg = Reg ''eip''\<rparr>"

definition x86_user_abi :: abi where
  "x86_user_abi = \<lparr>parm_regs = regs_of [''rdi'', ''rsi'', ''rdx'', ''rcx'', ''r8'', ''r9''],
     syscall_regs = regs_of [''rdi'', ''rsi'', ''rdx'', ''r10'', ''r8'', ''r9''],
     ret_reg = Reg ''rsp'', fp_reg = Reg ''rbp'', rc_reg = Reg ''rax'', sp_reg = Reg ''rsp'',
     ip_reg = Reg ''rip''\<rparr>"

definition s390_abi :: abi where
  "s390_abi = \<lparr>parm_regs = regs_of [''gprs[2]'', ''gprs[3]'', ''gprs[4]'', ''gprs[5]'', ''gprs[6]''],
     syscall_regs = regs_of [''orig_gpr2'', ''gprs[3]'', ''gprs[4]'', ''gprs[5]'', ''gprs[6]'', ''gprs[7]''],
     ret_reg = Reg ''gprs[14]'', fp_reg = Reg ''gprs[11]'', rc_reg = Reg ''gprs[2]'',
     sp_reg = Reg ''gprs[15]'', ip_reg = Reg ''psw.addr''\<rparr>"

definition arm_abi :: abi where
  "arm_abi = \<lparr>parm_regs = regs_of [''uregs[0]'', ''uregs[1]'', ''uregs[2]'', ''uregs[3]''],
     syscall_regs = regs_of [''uregs[0]'', ''uregs[1]'', ''uregs[2]'', ''uregs[3]'', ''uregs[4]'',
       ''uregs[5]'', ''uregs[6]''],
     ret_reg = Reg ''uregs[14]'', fp_reg = Reg ''uregs[11]'', rc_reg = Reg ''uregs[0]'',
     sp_reg = Reg ''uregs[13]'', ip_reg = Reg ''uregs[12]''\<rparr>"

definition arm64_abi :: abi where
  "arm64_abi = \<lparr>parm_regs = regs_of [''regs[0]'', ''regs[1]'', ''regs[2]'', ''regs[3]'', ''regs[4]'',
       ''regs[5]'', ''regs[6]'', ''regs[7]''],
     syscall_regs = regs_of [''orig_x0'', ''regs[1]'', ''regs[2]'', ''regs[3]'', ''regs[4]'', ''regs[5]''],
     ret_reg = Reg ''regs[30]'', fp_reg = Reg ''regs[29]'', rc_reg = Reg ''regs[0]'',
     sp_reg = Reg ''sp'', ip_reg = Reg ''pc''\<rparr>"

definition mips_abi :: abi where
  "mips_abi = \<lparr>parm_regs = regs_of [''regs[4]'', ''regs[5]'', ''regs[6]'', ''regs[7]'', ''regs[8]'',
       ''regs[9]'', ''regs[10]'', ''regs[11]''],
     syscall_regs = regs_of [''regs[4]'', ''regs[5]'', ''regs[6]'', ''regs[7]'', ''regs[8]'', ''regs[9]''],
     ret_reg = Reg ''regs[31]'', fp_reg = Reg ''regs[30]'', rc_reg = Reg ''regs[2]'',
     sp_reg = Reg ''regs[29]'', ip_reg = Reg ''cp0_epc''\<rparr>"

text \<open>The argument says whether \<open>__arch64__\<close> is defined.\<close>

definition powerpc_abi :: "bool \<Rightarrow> abi" where
  "powerpc_abi arch64 = \<lparr>parm_regs = regs_of [''gpr[3]'', ''gpr[4]'', ''gpr[5]'', ''gpr[6]'', ''gpr[7]'',
       ''gpr[8]'', ''gpr[9]'', ''gpr[10]''],
     syscall_regs = regs_of ([''orig_gpr3'', ''gpr[4]'', ''gpr[5]'', ''gpr[6]'', ''gpr[7]'', ''gpr[8]''] @
       (if \<not> arch64 then [''gpr[9]''] else [])),
     ret_reg = Reg ''regs[31]'', fp_reg = Unsupported, rc_reg = Reg ''gpr[3]'',
     sp_reg = Reg ''sp'', ip_reg = Reg ''nip''\<rparr>"

definition sparc_abi :: "bool \<Rightarrow> abi" where
  "sparc_abi arch64 = \<lparr>parm_regs = regs_of [''u_regs[UREG_I0]'', ''u_regs[UREG_I1]'', ''u_regs[UREG_I2]'',
       ''u_regs[UREG_I3]'', ''u_regs[UREG_I4]'', ''u_regs[UREG_I5]''],
     syscall_regs = regs_of [''u_regs[UREG_I0]'', ''u_regs[UREG_I1]'', ''u_regs[UREG_I2]'',
       ''u_regs[UREG_I3]'', ''u_regs[UREG_I4]'', ''u_regs[UREG_I5]''],
     ret_reg = Reg ''u_regs[UREG_I7]'', fp_reg = Unsupported, rc_reg = Reg ''u_regs[UREG_I0]'',
     sp_reg = Reg ''u_regs[UREG_FP]'', ip_reg = Reg (if arch64 then ''tpc'' else ''pc'')\<rparr>"

definition riscv_abi :: abi where
  "riscv_abi = \<lparr>parm_regs = regs_of [''a0'', ''a1'', ''a2'', ''a3'', ''a4'', ''a5'', ''a6'', ''a7''],
     syscall_regs = regs_of [''a0'', ''a1'', ''a2'', ''a3'', ''a4'', ''a5''],
     ret_reg = Reg ''ra'', fp_reg = Reg ''s0'', rc_reg = Reg ''a0'', sp_reg = Reg ''sp'',
     ip_reg = Reg ''pc''\<rparr>"

definition arc_abi :: abi where
  "arc_abi = \<lparr>parm_regs = regs_of [''scratch.r0'', ''scratch.r1'', ''scratch.r2'', ''scratch.r3'',
       ''scratch.r4'', ''scratch.r5'', ''scratch.r6'', ''scratch.r7''],
     syscall_regs = regs_of [''scratch.r0'', ''scratch.r1'', ''scratch.r2'', ''scratch.r3'',
       ''scratch.r4'', ''scratch.r5''],
     ret_reg = Reg ''scratch.blink'', fp_reg = Reg ''scratch.fp'', rc_reg = Reg ''scratch.r0'',
     sp_reg = Reg ''scratch.sp'', ip_reg = Reg ''scratch.ret''\<rparr>"

definition loongarch_abi :: abi where
  "loongarch_abi = \<lparr>parm_regs = regs_of [''regs[4]'', ''regs[5]'', ''regs[6]'', ''regs[7]'', ''regs[8]'',
       ''regs[9]'', ''regs[10]'', ''regs[11]''],
     syscall_regs = regs_of [''regs[4]'', ''regs[5]'', ''regs[6]'', ''regs[7]'', ''regs[8]'', ''regs[9]''],
     ret_reg = Reg ''regs[1]'', fp_reg = Reg ''regs[22]'', rc_reg = Reg ''regs[4]'',
     sp_reg = Reg ''regs[3]'', ip_reg = Reg ''csr_era''\<rparr>"

section \<open>Selecting the target\<close>

datatype target = T_x86 | T_s390 | T_arm | T_arm64 | T_mips | T_powerpc | T_sparc | T_riscv | T_arc
  | T_loongarch

text \<open>
  \<open>defined\<close> tells which macros the compiler run defines. The \<open>__TARGET_ARCH_*\<close> macros of
  the Makefile come first, then what the compiler says of itself.
\<close>

definition explicit_target :: "(string \<Rightarrow> bool) \<Rightarrow> target option" where
  "explicit_target defined =
     (if defined ''__TARGET_ARCH_x86'' then Some T_x86
      else if defined ''__TARGET_ARCH_s390'' then Some T_s390
      else if defined ''__TARGET_ARCH_arm'' then Some T_arm
      else if defined ''__TARGET_ARCH_arm64'' then Some T_arm64
      else if defined ''__TARGET_ARCH_mips'' then Some T_mips
      else if defined ''__TARGET_ARCH_powerpc'' then Some T_powerpc
      else if defined ''__TARGET_ARCH_sparc'' then Some T_sparc
      else if defined ''__TARGET_ARCH_riscv'' then Some T_riscv
      else if defined ''__TARGET_ARCH_arc'' then Some T_arc
      else if defined ''__TARGET_ARCH_loongarch'' then Some T_loongarch
      else None)"

definition compiler_target :: "(string \<Rightarrow> bool) \<Rightarrow> nat \<Rightarrow> target option" where
  "compiler_target defined riscv_xlen =
     (if defined ''__x86_64__'' then Some T_x86
      else if defined ''__s390__'' then Some T_s390
      else if defined ''__arm__'' then Some T_arm
      else if defined ''__aarch64__'' then Some T_arm64
      else if defined ''__mips__'' then Some T_mips
      else if defined ''__powerpc__'' then Some T_powerpc
      else if defined ''__sparc__'' then Some T_sparc
      else if defined ''__riscv'' \<and> riscv_xlen = 64 then Some T_riscv
      else if defined ''__arc__'' then Some T_arc
      else if defined ''__loongarch__'' then Some T_loongarch
      else None)"

definition bpf_target :: "(string \<Rightarrow> bool) \<Rightarrow> nat \<Rightarrow> target option" where
  "bpf_target defined riscv_xlen =
     (case explicit_target defined of
        Some t \<Rightarrow> Some t
      | None \<Rightarrow> compiler_target defined riscv_xlen)"

text \<open>The convention of a target; x86 has three, by \<open>__VMLINUX_H__\<close> and \<open>__i386__\<close>.\<close>

fun target_abi :: "(string \<Rightarrow> bool) \<Rightarrow> target \<Rightarrow> abi" where
  "target_abi defined T_x86 =
     (if defined ''__KERNEL__'' \<or> defined ''__VMLINUX_H__'' then x86_abi
      else if defined ''__i386__'' then i386_user_abi else x86_user_abi)"
| "target_abi defined T_s390 = s390_abi"
| "target_abi defined T_arm = arm_abi"
| "target_abi defined T_arm64 = arm64_abi"
| "target_abi defined T_mips = mips_abi"
| "target_abi defined T_powerpc = powerpc_abi (defined ''__arch64__'')"
| "target_abi defined T_sparc = sparc_abi (defined ''__arch64__'')"
| "target_abi defined T_riscv = riscv_abi"
| "target_abi defined T_arc = arc_abi"
| "target_abi defined T_loongarch = loongarch_abi"

section \<open>The accessors\<close>

text \<open>Parameters beyond those passed in registers are \<open>Unsupported\<close>; parameters count from 1.\<close>

definition nth_reg :: "reg list \<Rightarrow> nat \<Rightarrow> reg" where
  "nth_reg rs n = (if 1 \<le> n \<and> n \<le> length rs then rs ! (n - 1) else Unsupported)"

definition PT_REGS_PARM :: "abi \<Rightarrow> nat \<Rightarrow> (reg \<Rightarrow> u64) \<Rightarrow> u64" where
  "PT_REGS_PARM ab n regs = regs (nth_reg (parm_regs ab) n)"

definition PT_REGS_PARM_SYSCALL :: "abi \<Rightarrow> nat \<Rightarrow> (reg \<Rightarrow> u64) \<Rightarrow> u64" where
  "PT_REGS_PARM_SYSCALL ab n regs = regs (nth_reg (syscall_regs ab) n)"

definition PT_REGS_RC :: "abi \<Rightarrow> (reg \<Rightarrow> u64) \<Rightarrow> u64" where
  "PT_REGS_RC ab regs = regs (rc_reg ab)"

text \<open>
  \<open>___bpf_ctx_castN\<close>: the first \<open>N\<close> words of a tracing program's context, in order, and
  \<open>___bpf_kprobe_argsN\<close>: the first \<open>N\<close> parameters from the registers.
\<close>

fun bpf_ctx_cast :: "nat \<Rightarrow> (nat \<Rightarrow> u64) \<Rightarrow> u64 list" where
  "bpf_ctx_cast 0 ctx = []"
| "bpf_ctx_cast (Suc n) ctx = bpf_ctx_cast n ctx @ [ctx n]"

fun bpf_kprobe_args :: "abi \<Rightarrow> nat \<Rightarrow> (reg \<Rightarrow> u64) \<Rightarrow> u64 list" where
  "bpf_kprobe_args ab 0 regs = []"
| "bpf_kprobe_args ab (Suc n) regs = bpf_kprobe_args ab n regs @ [PT_REGS_PARM ab (Suc n) regs]"

lemma length_bpf_ctx_cast [simp]: "length (bpf_ctx_cast n ctx) = n"
  by (induction n) auto

lemma nth_bpf_ctx_cast: "i < n \<Longrightarrow> bpf_ctx_cast n ctx ! i = ctx i"
  by (induction n) (auto simp: nth_append less_Suc_eq)

lemma length_bpf_kprobe_args [simp]: "length (bpf_kprobe_args ab n regs) = n"
  by (induction n) auto

lemma nth_bpf_kprobe_args: "i < n \<Longrightarrow> bpf_kprobe_args ab n regs ! i = PT_REGS_PARM ab (Suc i) regs"
  by (induction n) (auto simp: nth_append less_Suc_eq)

lemmas abi_defs = x86_abi_def i386_user_abi_def x86_user_abi_def s390_abi_def arm_abi_def
  arm64_abi_def mips_abi_def powerpc_abi_def sparc_abi_def riscv_abi_def arc_abi_def
  loongarch_abi_def regs_of_def

end
