(* ===== verification/Byte_Hooks.thy ===== *)
theory Byte_Hooks
  imports Conn_Facts Pt_Regs
begin

text \<open>
  The byte-counting programs of \<open>tollwing.bpf.c\<close> and the \<open>fexit/udp_recvmsg\<close> program of
  \<open>dns.bpf.c\<close>: they look the connection up by socket cookie, add to its counters, and add
  to the flow aggregate of the connection's key.
\<close>

section \<open>Conversions of the hooked functions' arguments\<close>

text \<open>\<open>(int)x\<close> of a register or context word, and \<open>(__u64)i\<close> of an \<open>int\<close>.\<close>

definition c_int :: "u64 \<Rightarrow> int" where
  "c_int x = sint (ucast x :: u32)"

definition int_to_u64 :: "int \<Rightarrow> u64" where
  "int_to_u64 i = word_of_int i"

text \<open>A positive \<open>int\<close> widens to the 64 bits without its sign, and back.\<close>

lemma unat_ucast_eq_self:
  assumes "unat (x :: u64) < 2 ^ 32"
  shows "ucast (ucast x :: u32) = x"
proof -
  have "ucast (ucast x :: u32) = take_bit 32 x"
    by (rule bit_word_eqI) (auto simp: bit_simps dest: bit_imp_le_length)
  also have "\<dots> = x"
    using assms by (simp add: word_unat_eq_iff unsigned_take_bit_eq take_bit_nat_eq_self_iff)
  finally show ?thesis .
qed

lemma c_int_positive:
  assumes "0 < c_int x"
  shows "int_to_u64 (c_int x) = ucast (ucast x :: u32)"
proof -
  let ?w = "ucast x :: u32"
  have low: "\<not> bit (uint ?w) 31"
  proof
    assume "bit (uint ?w) 31"
    then have "signed_take_bit 31 (uint ?w) < 0" by (simp only: signed_take_bit_negative_iff)
    moreover have "c_int x = signed_take_bit 31 (uint ?w)" by (simp add: c_int_def sint_uint)
    ultimately show False using assms by linarith
  qed
  then have c: "c_int x = take_bit 31 (uint ?w)"
    by (simp add: c_int_def sint_uint signed_take_bit_eq_if_positive)
  show ?thesis
  proof (rule bit_word_eqI)
    fix n assume "n < LENGTH(64)"
    show "bit (int_to_u64 (c_int x)) n = bit (ucast ?w :: u64) n"
      using low \<open>n < LENGTH(64)\<close>
      by (cases "n = 31") (auto simp: c int_to_u64_def bit_simps dest: bit_imp_le_length)
  qed
qed

section \<open>The flow aggregate\<close>

definition update_flow_aggregate :: "kenv \<Rightarrow> conn_info \<Rightarrow> u64 \<Rightarrow> u64 \<Rightarrow> agent \<Rightarrow> agent" where
  "update_flow_aggregate e conn tx_delta rx_delta a =
     (let key = flow_key_of conn in
      case lookup_flow a key of
        Some vals \<Rightarrow>
          (let val = vals (smp_processor_id e)
           in write_flow e key vals
                (val\<lparr>fm_tx_bytes := fm_tx_bytes val + tx_delta,
                     fm_rx_bytes := fm_rx_bytes val + rx_delta,
                     fm_last_updated_ns := bpf_ktime_get_ns e 0\<rparr>) a)
      | None \<Rightarrow>
          insert_flow e key
            (zero_flow_metrics\<lparr>fm_tx_bytes := tx_delta, fm_rx_bytes := rx_delta,
               fm_conn_count := 1, fm_last_updated_ns := bpf_ktime_get_ns e 0\<rparr>) a)"

section \<open>TCP send and receive: the kprobe programs\<close>

text \<open>Increments of a connection's counters: \<open>__sync_fetch_and_add\<close> on the looked-up value.\<close>

definition add_tx :: "u64 \<Rightarrow> conn_info \<Rightarrow> conn_info" where
  "add_tx n conn = conn\<lparr>ci_tx_bytes := ci_tx_bytes conn + n\<rparr>"

definition add_rx :: "u64 \<Rightarrow> conn_info \<Rightarrow> conn_info" where
  "add_rx n conn = conn\<lparr>ci_rx_bytes := ci_rx_bytes conn + n\<rparr>"

definition add_retransmit :: "u64 \<Rightarrow> conn_info \<Rightarrow> conn_info" where
  "add_retransmit n conn = conn\<lparr>ci_retransmit_bytes := ci_retransmit_bytes conn + n,
     ci_retransmit_count := ci_retransmit_count conn + 1\<rparr>"

definition tollwing_tcp_sendmsg :: "kenv \<Rightarrow> abi \<Rightarrow> (reg \<Rightarrow> u64) \<Rightarrow> agent \<Rightarrow> int \<times> agent" where
  "tollwing_tcp_sendmsg e ab regs a =
     (if get_config a = None then (0, a)
      else let size = c_int (PT_REGS_PARM ab 3 regs) in
        if size \<le> 0 then (0, a)
        else let cookie = bpf_get_socket_cookie e in
          case lookup_connection a cookie of
            None \<Rightarrow> (0, a)
          | Some conn \<Rightarrow>
              if is_sidecar_socket_cookie cookie (Some conn) then (0, a)
              else let conn' = add_tx (int_to_u64 size) conn;
                       a1 = write_connection cookie conn' a
                   in (0, update_flow_aggregate e conn' (int_to_u64 size) 0 a1))"

definition tollwing_tcp_cleanup_rbuf :: "kenv \<Rightarrow> abi \<Rightarrow> (reg \<Rightarrow> u64) \<Rightarrow> agent \<Rightarrow> int \<times> agent" where
  "tollwing_tcp_cleanup_rbuf e ab regs a =
     (if get_config a = None then (0, a)
      else let copied = c_int (PT_REGS_PARM ab 2 regs) in
        if copied \<le> 0 then (0, a)
        else let cookie = bpf_get_socket_cookie e in
          case lookup_connection a cookie of
            None \<Rightarrow> (0, a)
          | Some conn \<Rightarrow>
              if is_sidecar_socket_cookie cookie (Some conn) then (0, a)
              else let conn' = add_rx (int_to_u64 copied) conn;
                       a1 = write_connection cookie conn' a
                   in (0, update_flow_aggregate e conn' 0 (int_to_u64 copied) a1))"

section \<open>TCP send and receive: the fentry programs\<close>

text \<open>The context is the array of the function's arguments; \<open>copied\<close> is an \<open>int\<close>, \<open>size\<close> a \<open>size_t\<close>.\<close>

definition tollwing_tcp_sendmsg_fentry :: "kenv \<Rightarrow> (nat \<Rightarrow> u64) \<Rightarrow> agent \<Rightarrow> int \<times> agent" where
  "tollwing_tcp_sendmsg_fentry e ctx a =
     (if get_config a = None then (0, a)
      else let size = bpf_ctx_cast 3 ctx ! 2 in
        if c_int size \<le> 0 then (0, a)
        else let cookie = bpf_get_socket_cookie e in
          case lookup_connection a cookie of
            None \<Rightarrow> (0, a)
          | Some conn \<Rightarrow>
              if is_sidecar_socket_cookie cookie (Some conn) then (0, a)
              else let conn' = add_tx size conn;
                       a1 = write_connection cookie conn' a
                   in (0, update_flow_aggregate e conn' size 0 a1))"

definition tollwing_tcp_cleanup_rbuf_fentry :: "kenv \<Rightarrow> (nat \<Rightarrow> u64) \<Rightarrow> agent \<Rightarrow> int \<times> agent" where
  "tollwing_tcp_cleanup_rbuf_fentry e ctx a =
     (if get_config a = None then (0, a)
      else let copied = c_int (bpf_ctx_cast 2 ctx ! 1) in
        if copied \<le> 0 then (0, a)
        else let cookie = bpf_get_socket_cookie e in
          case lookup_connection a cookie of
            None \<Rightarrow> (0, a)
          | Some conn \<Rightarrow>
              if is_sidecar_socket_cookie cookie (Some conn) then (0, a)
              else let conn' = add_rx (int_to_u64 copied) conn;
                       a1 = write_connection cookie conn' a
                   in (0, update_flow_aggregate e conn' 0 (int_to_u64 copied) a1))"

section \<open>UDP send and receive\<close>

definition tollwing_udp_sendmsg :: "kenv \<Rightarrow> (nat \<Rightarrow> u64) \<Rightarrow> agent \<Rightarrow> int \<times> agent" where
  "tollwing_udp_sendmsg e ctx a =
     (if get_config a = None then (0, a)
      else let len = bpf_ctx_cast 3 ctx ! 2 in
        if c_int len \<le> 0 then (0, a)
        else let cookie = bpf_get_socket_cookie e in
          case lookup_connection a cookie of
            None \<Rightarrow> (0, a)
          | Some conn \<Rightarrow>
              if ci_protocol conn \<noteq> IPPROTO_UDP then (0, a)
              else let conn' = add_tx len conn;
                       a1 = write_connection cookie conn' a
                   in (0, update_flow_aggregate e conn' len 0 a1))"

text \<open>An update of an existing flow entry; a missing one is left missing.\<close>

definition bump_flow ::
  "kenv \<Rightarrow> flow_key \<Rightarrow> (flow_metrics \<Rightarrow> flow_metrics) \<Rightarrow> agent \<Rightarrow> agent" where
  "bump_flow e key f a =
     (case lookup_flow a key of
        Some vals \<Rightarrow>
          write_flow e key vals
            ((f (vals (smp_processor_id e)))\<lparr>fm_last_updated_ns := bpf_ktime_get_ns e 0\<rparr>) a
      | None \<Rightarrow> a)"

definition tollwing_udp_recvmsg_exit :: "kenv \<Rightarrow> (nat \<Rightarrow> u64) \<Rightarrow> agent \<Rightarrow> int \<times> agent" where
  "tollwing_udp_recvmsg_exit e ctx a =
     (let ret = c_int (bpf_ctx_cast 6 ctx ! 5) in
      if ret \<le> 0 then (0, a)
      else case agent_config_map a 0 of
        None \<Rightarrow> (0, a)
      | Some cfg \<Rightarrow>
          if ac_enabled cfg = 0 then (0, a)
          else let cookie = bpf_get_socket_cookie e in
            case lookup_connection a cookie of
              None \<Rightarrow> (0, a)
            | Some conn \<Rightarrow>
                if ci_protocol conn \<noteq> IPPROTO_UDP then (0, a)
                else let conn' = add_rx (int_to_u64 ret) conn;
                         a1 = write_connection cookie conn' a
                     in (0, bump_flow e (flow_key_of conn')
                            (\<lambda>val. val\<lparr>fm_rx_bytes := fm_rx_bytes val + int_to_u64 ret\<rparr>) a1))"

section \<open>Retransmissions\<close>

definition bump_retransmit :: "u64 \<Rightarrow> flow_metrics \<Rightarrow> flow_metrics" where
  "bump_retransmit n val = val\<lparr>fm_retransmit_bytes := fm_retransmit_bytes val + n,
     fm_retransmit_count := fm_retransmit_count val + 1\<rparr>"

text \<open>\<open>skb_len\<close> and \<open>mss_cache\<close> are what \<open>BPF_CORE_READ\<close> finds behind the program's pointers.\<close>

definition tollwing_tcp_retransmit :: "kenv \<Rightarrow> u32 \<Rightarrow> agent \<Rightarrow> int \<times> agent" where
  "tollwing_tcp_retransmit e skb_len a =
     (if get_config a = None then (0, a)
      else if skb_len = 0 then (0, a)
      else let cookie = bpf_get_socket_cookie e in
        case lookup_connection a cookie of
          None \<Rightarrow> (0, a)
        | Some conn \<Rightarrow>
            let conn' = add_retransmit (ucast skb_len) conn;
                a1 = write_connection cookie conn' a
            in (0, bump_flow e (flow_key_of conn') (bump_retransmit (ucast skb_len)) a1))"

definition tollwing_tcp_loss_probe :: "kenv \<Rightarrow> u32 \<Rightarrow> agent \<Rightarrow> int \<times> agent" where
  "tollwing_tcp_loss_probe e mss_cache a =
     (if get_config a = None then (0, a)
      else let cookie = bpf_get_socket_cookie e in
        case lookup_connection a cookie of
          None \<Rightarrow> (0, a)
        | Some conn \<Rightarrow>
            let mss = (if mss_cache = 0 then 1460 else mss_cache);
                conn' = add_retransmit (ucast mss) conn;
                a1 = write_connection cookie conn' a
            in (0, bump_flow e (flow_key_of conn') (bump_retransmit (ucast mss)) a1))"

section \<open>The contract of a byte-counting program\<close>

text \<open>
  Eight programs share one shape: find the connection of the socket, decide from the call's
  arguments and the connection whether it counts, bump the connection's counters, and bring
  the flow aggregate up to date. The locale states what each keeps; a run of calls on one
  socket then folds the bumps over its connection, and touches no other.
\<close>

locale byte_hook =
  fixes hook :: "kenv \<Rightarrow> 'c \<Rightarrow> agent \<Rightarrow> int \<times> agent"
    and counts :: "'c \<Rightarrow> conn_info \<Rightarrow> bool"
    and bump :: "'c \<Rightarrow> conn_info \<Rightarrow> conn_info"
  assumes verdict: "fst (hook e c a) = 0"
    and disabled: "get_config a = None \<Longrightarrow> snd (hook e c a) = a"
    and untracked: "lookup_connection a (bpf_get_socket_cookie e) = None \<Longrightarrow> snd (hook e c a) = a"
    and skipped: "lookup_connection a (bpf_get_socket_cookie e) = Some conn \<Longrightarrow> \<not> counts c conn \<Longrightarrow>
      snd (hook e c a) = a"
    and counted: "get_config a \<noteq> None \<Longrightarrow>
      lookup_connection a (bpf_get_socket_cookie e) = Some conn \<Longrightarrow> counts c conn \<Longrightarrow>
      connections (snd (hook e c a)) =
        bpf_map_write (bpf_get_socket_cookie e) (bump c conn) (connections a)"
    and config_kept: "agent_config_map (snd (hook e c a)) = agent_config_map a"
    and cookies_kept: "cookie_to_original_dst (snd (hook e c a)) = cookie_to_original_dst a"
    and events_kept: "events (snd (hook e c a)) = events a"
    and quic_kept: "quic_flows (snd (hook e c a)) = quic_flows a"
    and dns_kept: "dns_events (snd (hook e c a)) = dns_events a"
    and flags_kept: "sk_cb_flags (snd (hook e c a)) = sk_cb_flags a"
    and wf_kept: "agent_wf a \<Longrightarrow> agent_wf (snd (hook e c a))"
    and bump_key: "flow_key_of (bump c conn) = flow_key_of conn"
    and bump_counts: "counts c' (bump c conn) = counts c' conn"
begin

lemma lookup_after_hook:
  "lookup_connection (snd (hook e c a)) j =
    (case lookup_connection a j of
       None \<Rightarrow> None
     | Some ci \<Rightarrow> Some (if j = bpf_get_socket_cookie e \<and> get_config a \<noteq> None \<and> counts c ci
                      then bump c ci else ci))"
proof (cases "lookup_connection a (bpf_get_socket_cookie e)")
  case None
  then show ?thesis by (auto simp: untracked split: option.split)
next
  case (Some conn)
  show ?thesis
  proof (cases "get_config a \<noteq> None \<and> counts c conn")
    case True
    then have "connections (snd (hook e c a)) =
        bpf_map_write (bpf_get_socket_cookie e) (bump c conn) (connections a)"
      using Some by (intro counted) auto
    with True Some show ?thesis by (auto simp: lookup_connection_def split: option.split)
  next
    case False
    then have "snd (hook e c a) = a" using Some disabled skipped by blast
    with False Some show ?thesis by (auto split: option.split)
  qed
qed

lemma present: "lookup_connection (snd (hook e c a)) j = None \<longleftrightarrow> lookup_connection a j = None"
  by (simp add: lookup_after_hook split: option.split)

lemma hook_config: "get_config (snd (hook e c a)) = get_config a"
  by (rule get_config_cong) (rule config_kept)

text \<open>A run of calls: the connection of every socket is folded over the calls made on it.\<close>

definition run :: "(kenv \<times> 'c) list \<Rightarrow> agent \<Rightarrow> agent" where
  "run calls a = fold (\<lambda>(e, c) a. snd (hook e c a)) calls a"

definition folded :: "(kenv \<times> 'c) list \<Rightarrow> u64 \<Rightarrow> conn_info \<Rightarrow> conn_info" where
  "folded calls j ci =
     fold (\<lambda>(e, c) ci. if bpf_get_socket_cookie e = j \<and> counts c ci then bump c ci else ci) calls ci"

lemma run_config: "get_config (run calls a) = get_config a"
  by (induction calls arbitrary: a) (auto simp: run_def hook_config)

lemma run_lookup:
  "get_config a \<noteq> None \<Longrightarrow> lookup_connection a j = Some ci \<Longrightarrow>
    lookup_connection (run calls a) j = Some (folded calls j ci)"
proof (induction calls arbitrary: a ci)
  case Nil
  then show ?case by (simp add: run_def folded_def)
next
  case (Cons call calls)
  obtain e c where call: "call = (e, c)" by fastforce
  let ?a = "snd (hook e c a)"
  let ?ci = "if bpf_get_socket_cookie e = j \<and> counts c ci then bump c ci else ci"
  have "lookup_connection ?a j = Some ?ci"
    using Cons.prems by (auto simp: lookup_after_hook)
  with Cons.IH [of ?a ?ci] Cons.prems(1)
  have "lookup_connection (run calls ?a) j = Some (folded calls j ?ci)" by (simp add: hook_config)
  then show ?case by (simp add: run_def folded_def call)
qed

text \<open>Whatever is counted, the flow a connection is billed to never changes.\<close>

lemma folded_key: "flow_key_of (folded calls j ci) = flow_key_of ci"
  by (induction calls arbitrary: ci) (auto simp: folded_def bump_key)

text \<open>A counter that each counted call raises by an amount is raised by the sum of the amounts.\<close>

lemma folded_sum:
  assumes "\<And>c ci. counts c ci \<Longrightarrow> f (bump c ci) = f ci + amount c"
  shows "f (folded calls j ci) =
    f ci + sum_list (map (\<lambda>(e, c). if bpf_get_socket_cookie e = j \<and> counts c ci then amount c else (0 :: u64)) calls)"
proof (induction calls arbitrary: ci)
  case Nil
  then show ?case by (simp add: folded_def)
next
  case (Cons call calls)
  obtain e c where call: "call = (e, c)" by fastforce
  have step: "folded (call # calls) j ci =
      folded calls j (if bpf_get_socket_cookie e = j \<and> counts c ci then bump c ci else ci)"
    by (simp add: folded_def call)
  show ?case
    by (simp only: step) (auto simp: Cons.IH bump_counts call assms add.assoc)
qed

end

section \<open>The programs keep the contract\<close>

lemma update_flow_wf [wf_intros]: "agent_wf a \<Longrightarrow> agent_wf (update_flow_aggregate e conn t r a)"
  by (auto simp: update_flow_aggregate_def Let_def intro: wf_intros split: option.split)

lemma bump_flow_wf [wf_intros]: "agent_wf a \<Longrightarrow> agent_wf (bump_flow e k f a)"
  by (auto simp: bump_flow_def intro: wf_intros split: option.split)

lemma flow_update_frame [frame_simps, simp]:
  "agent_config_map (update_flow_aggregate e conn t r a) = agent_config_map a"
  "cookie_to_original_dst (update_flow_aggregate e conn t r a) = cookie_to_original_dst a"
  "connections (update_flow_aggregate e conn t r a) = connections a"
  "events (update_flow_aggregate e conn t r a) = events a"
  "quic_flows (update_flow_aggregate e conn t r a) = quic_flows a"
  "dns_events (update_flow_aggregate e conn t r a) = dns_events a"
  "sk_cb_flags (update_flow_aggregate e conn t r a) = sk_cb_flags a"
  "agent_config_map (bump_flow e k f a) = agent_config_map a"
  "cookie_to_original_dst (bump_flow e k f a) = cookie_to_original_dst a"
  "connections (bump_flow e k f a) = connections a"
  "events (bump_flow e k f a) = events a"
  "drop_counters (bump_flow e k f a) = drop_counters a"
  "quic_flows (bump_flow e k f a) = quic_flows a"
  "dns_events (bump_flow e k f a) = dns_events a"
  "sk_cb_flags (bump_flow e k f a) = sk_cb_flags a"
  by (simp_all add: update_flow_aggregate_def bump_flow_def Let_def split: option.split)

lemma write_connection_more [frame_simps, simp]:
  "connections (write_connection k ci a) = bpf_map_write k ci (connections a)"
  "sk_cb_flags (write_connection k ci a) = sk_cb_flags a"
  by (simp_all add: write_connection_def)

text \<open>Bumping counters leaves the identity of a connection alone.\<close>

lemma bump_identity [simp]:
  "flow_key_of (add_tx n ci) = flow_key_of ci"
  "flow_key_of (add_rx n ci) = flow_key_of ci"
  "flow_key_of (add_retransmit n ci) = flow_key_of ci"
  "is_sidecar_socket_cookie k (Some (add_tx n ci)) = is_sidecar_socket_cookie k (Some ci)"
  "is_sidecar_socket_cookie k (Some (add_rx n ci)) = is_sidecar_socket_cookie k (Some ci)"
  "ci_protocol (add_tx n ci) = ci_protocol ci"
  "ci_protocol (add_rx n ci) = ci_protocol ci"
  by (simp_all add: flow_key_of_def add_tx_def add_rx_def add_retransmit_def
      is_sidecar_socket_cookie_def)

lemma sidecar_any_cookie:
  "is_sidecar_socket_cookie k c = is_sidecar_socket_cookie 0 c"
  by (simp add: is_sidecar_socket_cookie_def)

text \<open>When each program counts: the sign of the length it is given, and the connection's kind.\<close>

abbreviation not_sidecar :: "conn_info \<Rightarrow> bool" where
  "not_sidecar conn \<equiv> \<not> is_sidecar_socket_cookie 0 (Some conn)"

abbreviation is_udp :: "conn_info \<Rightarrow> bool" where
  "is_udp conn \<equiv> ci_protocol conn = IPPROTO_UDP"

named_theorems byte_hook_defs \<open>the byte-counting programs\<close>

declare tollwing_tcp_sendmsg_def [byte_hook_defs] tollwing_tcp_cleanup_rbuf_def [byte_hook_defs]
  tollwing_tcp_sendmsg_fentry_def [byte_hook_defs] tollwing_tcp_cleanup_rbuf_fentry_def [byte_hook_defs]
  tollwing_udp_sendmsg_def [byte_hook_defs] tollwing_udp_recvmsg_exit_def [byte_hook_defs]
  tollwing_tcp_retransmit_def [byte_hook_defs] tollwing_tcp_loss_probe_def [byte_hook_defs]

lemmas byte_hook_simps = byte_hook_defs Let_def sidecar_any_cookie [of "bpf_get_socket_cookie e" for e]

interpretation tcp_sendmsg: byte_hook
  "\<lambda>e (ab, regs). tollwing_tcp_sendmsg e ab regs"
  "\<lambda>(ab, regs) conn. 0 < c_int (PT_REGS_PARM ab 3 regs) \<and> not_sidecar conn"
  "\<lambda>(ab, regs). add_tx (int_to_u64 (c_int (PT_REGS_PARM ab 3 regs)))"
  by unfold_locales (auto simp: byte_hook_simps intro!: wf_intros split: if_splits option.splits)

interpretation tcp_cleanup_rbuf: byte_hook
  "\<lambda>e (ab, regs). tollwing_tcp_cleanup_rbuf e ab regs"
  "\<lambda>(ab, regs) conn. 0 < c_int (PT_REGS_PARM ab 2 regs) \<and> not_sidecar conn"
  "\<lambda>(ab, regs). add_rx (int_to_u64 (c_int (PT_REGS_PARM ab 2 regs)))"
  by unfold_locales (auto simp: byte_hook_simps nth_bpf_ctx_cast get_config_def
      intro!: wf_intros split: if_splits option.splits)

interpretation tcp_sendmsg_fentry: byte_hook
  "tollwing_tcp_sendmsg_fentry"
  "\<lambda>ctx conn. 0 < c_int (ctx 2) \<and> not_sidecar conn"
  "\<lambda>ctx. add_tx (ctx 2)"
  by unfold_locales (auto simp: byte_hook_simps nth_bpf_ctx_cast get_config_def
      intro!: wf_intros split: if_splits option.splits)

interpretation tcp_cleanup_rbuf_fentry: byte_hook
  "tollwing_tcp_cleanup_rbuf_fentry"
  "\<lambda>ctx conn. 0 < c_int (ctx 1) \<and> not_sidecar conn"
  "\<lambda>ctx. add_rx (int_to_u64 (c_int (ctx 1)))"
  by unfold_locales (auto simp: byte_hook_simps nth_bpf_ctx_cast get_config_def
      intro!: wf_intros split: if_splits option.splits)

interpretation udp_sendmsg: byte_hook
  "tollwing_udp_sendmsg"
  "\<lambda>ctx conn. 0 < c_int (ctx 2) \<and> is_udp conn"
  "\<lambda>ctx. add_tx (ctx 2)"
  by unfold_locales (auto simp: byte_hook_simps nth_bpf_ctx_cast get_config_def
      intro!: wf_intros split: if_splits option.splits)

interpretation udp_recvmsg_exit: byte_hook
  "tollwing_udp_recvmsg_exit"
  "\<lambda>ctx conn. 0 < c_int (ctx 5) \<and> is_udp conn"
  "\<lambda>ctx. add_rx (int_to_u64 (c_int (ctx 5)))"
  by unfold_locales (auto simp: byte_hook_simps nth_bpf_ctx_cast get_config_def
      intro!: wf_intros split: if_splits option.splits)

interpretation tcp_retransmit: byte_hook
  "tollwing_tcp_retransmit"
  "\<lambda>skb_len conn. skb_len \<noteq> 0"
  "\<lambda>skb_len. add_retransmit (ucast skb_len)"
  by unfold_locales (auto simp: byte_hook_simps nth_bpf_ctx_cast get_config_def
      intro!: wf_intros split: if_splits option.splits)

interpretation tcp_loss_probe: byte_hook
  "tollwing_tcp_loss_probe"
  "\<lambda>mss_cache conn. True"
  "\<lambda>mss_cache. add_retransmit (ucast (if mss_cache = 0 then 1460 else mss_cache))"
  by unfold_locales (auto simp: byte_hook_simps nth_bpf_ctx_cast get_config_def
      intro!: wf_intros split: if_splits option.splits)

section \<open>What the programs add to the flow totals\<close>

text \<open>
  One step of flow accounting: the total of a counter over all flows and CPUs moves by
  \<open>delta\<close>, or nothing is recorded and the flow slot of the drop counters moves by one.
\<close>

definition flow_booked :: "nat \<Rightarrow> (flow_metrics \<Rightarrow> u64) \<Rightarrow> u64 \<Rightarrow> agent \<Rightarrow> agent \<Rightarrow> bool" where
  "flow_booked n g delta a b \<longleftrightarrow>
     flow_total n g b = flow_total n g a + delta \<and>
       drops n DROP_SLOT_FLOW_AGGREGATES b = drops n DROP_SLOT_FLOW_AGGREGATES a
   \<or> flow_total n g b = flow_total n g a \<and>
       drops n DROP_SLOT_FLOW_AGGREGATES b = drops n DROP_SLOT_FLOW_AGGREGATES a + 1"

lemma flow_booked_nothing:
  "flow_aggregates b = flow_aggregates a \<Longrightarrow>
    drops n DROP_SLOT_FLOW_AGGREGATES b = drops n DROP_SLOT_FLOW_AGGREGATES a \<Longrightarrow>
    flow_booked n g 0 a b"
  using flow_total_cong [of b a n g] by (simp add: flow_booked_def)

lemma flow_booked_cong:
  assumes "flow_booked n g d a' b'" "flow_aggregates a' = flow_aggregates a"
    "drop_counters a' = drop_counters a" "flow_aggregates b' = flow_aggregates b"
    "drops n DROP_SLOT_FLOW_AGGREGATES b' = drops n DROP_SLOT_FLOW_AGGREGATES b"
  shows "flow_booked n g d a b"
  using assms flow_total_cong [of b' b n g] flow_total_cong [of a' a n g]
    drops_cong [of a' a n DROP_SLOT_FLOW_AGGREGATES]
  by (simp add: flow_booked_def)

lemma insert_flow_booked:
  assumes "agent_wf a" "smp_processor_id e < n" "other_cpus_zero e" "g zero_flow_metrics = 0"
  shows "flow_booked n g (g fm) a (insert_flow e k fm a)"
proof -
  let ?b = "insert_flow e k fm a"
  consider "flow_total n g ?b = flow_total n g a + g fm" "drop_counters ?b = drop_counters a"
    | "flow_aggregates ?b = flow_aggregates a" "?b = count_drop e (slot_index DROP_SLOT_FLOW_AGGREGATES) a"
    using insert_flow_total [where g = g, OF assms] by blast
  then show ?thesis
  proof cases
    case 1
    then show ?thesis using drops_cong [of ?b a] by (simp add: flow_booked_def)
  next
    case 2
    then show ?thesis
      using flow_total_cong [of ?b a n g]
        drops_count_drop [OF assms(2), of DROP_SLOT_FLOW_AGGREGATES DROP_SLOT_FLOW_AGGREGATES a]
      by (simp add: flow_booked_def)
  qed
qed

lemma write_flow_booked:
  assumes "agent_wf a" "smp_processor_id e < n" "lookup_flow a k = Some vals"
    "g fm = g (vals (smp_processor_id e)) + d"
  shows "flow_booked n g d a (write_flow e k vals fm a)"
  using write_flow_total [OF assms(1-3), of g fm] assms(4)
  by (simp add: flow_booked_def drops_def)

lemma update_flow_booked:
  assumes "agent_wf a" "smp_processor_id e < n" "other_cpus_zero e"
  shows "flow_booked n fm_tx_bytes t a (update_flow_aggregate e conn t r a)"
    and "flow_booked n fm_rx_bytes r a (update_flow_aggregate e conn t r a)"
  using insert_flow_booked [OF assms, of fm_tx_bytes
      "zero_flow_metrics\<lparr>fm_tx_bytes := t, fm_rx_bytes := r, fm_conn_count := 1,
         fm_last_updated_ns := bpf_ktime_get_ns e 0\<rparr>" "flow_key_of conn"]
    insert_flow_booked [OF assms, of fm_rx_bytes
      "zero_flow_metrics\<lparr>fm_tx_bytes := t, fm_rx_bytes := r, fm_conn_count := 1,
         fm_last_updated_ns := bpf_ktime_get_ns e 0\<rparr>" "flow_key_of conn"]
  by (auto simp: update_flow_aggregate_def Let_def zero_flow_metrics_def
      intro: write_flow_booked [OF assms(1,2)] split: option.split)

lemma bump_flow_booked:
  assumes "agent_wf a" "smp_processor_id e < n"
    and "\<And>m. g (m\<lparr>fm_last_updated_ns := bpf_ktime_get_ns e 0\<rparr>) = g m" "\<And>m. g (f m) = g m + d"
  shows "flow_booked n g (if lookup_flow a k = None then 0 else d) a (bump_flow e k f a)"
  using assms
  by (auto simp: bump_flow_def intro!: flow_booked_nothing write_flow_booked split: option.split)

lemma seed_flow_booked:
  assumes "agent_wf a" "smp_processor_id e < n" "other_cpus_zero e"
    and "g zero_flow_metrics = 0" "\<And>m c t. g (m\<lparr>fm_conn_count := c, fm_last_updated_ns := t\<rparr>) = g m"
  shows "flow_booked n g 0 a (seed_flow e s d conn a)"
proof -
  have "g (zero_flow_metrics\<lparr>fm_conn_count := 1, fm_last_updated_ns := bpf_ktime_get_ns e 0\<rparr>) = 0"
    by (simp add: assms(4,5))
  with insert_flow_booked [where g = g, OF assms(1-4)]
  have "flow_booked n g 0 a (insert_flow e k
      (zero_flow_metrics\<lparr>fm_conn_count := 1, fm_last_updated_ns := bpf_ktime_get_ns e 0\<rparr>) a)" for k
    by metis
  then show ?thesis
    by (auto simp: seed_flow_def Let_def assms(5) intro!: write_flow_booked [OF assms(1,2)] split: option.split)
qed

lemma emit_event_drops:
  assumes "smp_processor_id e < n" "s \<noteq> DROP_SLOT_EVENTS_RINGBUF"
  shows "drops n s (emit_event e ev a) = drops n s a"
  using drops_count_drop [OF assms(1), of s DROP_SLOT_EVENTS_RINGBUF a] assms(2)
  by (simp add: emit_event_def) (simp add: drops_def)

text \<open>A program's update of the connection, followed by its update of the flow.\<close>

lemma counted_booked:
  assumes "agent_wf a" "smp_processor_id e < n" "other_cpus_zero e"
    and conn: "lookup_connection a k = Some conn"
  shows "flow_booked n fm_tx_bytes t a (update_flow_aggregate e c t r (write_connection k c a))"
    and "flow_booked n fm_rx_bytes r a (update_flow_aggregate e c t r (write_connection k c a))"
  by (rule flow_booked_cong [OF update_flow_booked(1) [OF write_connection_wf [OF assms(1) conn] assms(2,3)]]; simp)
    (rule flow_booked_cong [OF update_flow_booked(2) [OF write_connection_wf [OF assms(1) conn] assms(2,3)]]; simp)

lemma bumped_booked:
  assumes "agent_wf a" "smp_processor_id e < n"
    and conn: "lookup_connection a k = Some conn"
    and "\<And>m. g (m\<lparr>fm_last_updated_ns := bpf_ktime_get_ns e 0\<rparr>) = g m" "\<And>m. g (f m) = g m + d"
  shows "flow_booked n g (if lookup_flow a fk = None then 0 else d) a
    (bump_flow e fk f (write_connection k c a))"
proof -
  have "lookup_flow (write_connection k c a) fk = lookup_flow a fk" by (simp add: lookup_flow_def)
  with bump_flow_booked [where f = f and d = d and g = g and k = fk,
      OF write_connection_wf [OF assms(1) conn, of c] assms(2,4,5)]
  show ?thesis by (auto elim!: flow_booked_cong)
qed

end
