(* ===== verification/Dns_Hook.thy ===== *)
theory Dns_Hook
  imports Agent_State
begin

text \<open>
  \<open>fentry/udp_recvmsg\<close> of \<open>dns.bpf.c\<close>: the capture of raw DNS responses. The kernel
  structures behind the program's pointers are a record of what \<open>BPF_CORE_READ\<close> finds.
\<close>

definition DNS_PORT :: u16 where "DNS_PORT = 53"
definition DNS_RAW_MAX :: u32 where "DNS_RAW_MAX = 512"

text \<open>
  The socket's port and family, the address of its receive queue's list head, the queue's
  \<open>next\<close> pointer, and the kernel memory: the \<open>data\<close> pointer and \<open>len\<close> of the buffer at an
  address, and the byte at an address. A null pointer is 0.
\<close>

record dns_ctx =
  skc_dport :: u16
  skc_family :: u16
  sk_receive_queue_addr :: u64
  sk_receive_queue_next :: u64
  skb_data_at :: "u64 \<Rightarrow> u64"
  skb_len_at :: "u64 \<Rightarrow> u32"
  kernel_byte :: "u64 \<Rightarrow> u8"

definition kernel_bytes :: "dns_ctx \<Rightarrow> u64 \<Rightarrow> nat \<Rightarrow> u8 list" where
  "kernel_bytes ctx p n = map (\<lambda>i. kernel_byte ctx (p + of_nat i)) [0..<n]"

definition zero_dns_raw_event :: dns_raw_event where
  "zero_dns_raw_event = \<lparr>dr_len = 0, dr_pad = 0, dr_data = replicate (unat DNS_RAW_MAX) 0\<rparr>"

definition tollwing_dns_recvmsg :: "kenv \<Rightarrow> dns_ctx \<Rightarrow> agent \<Rightarrow> int \<times> agent" where
  "tollwing_dns_recvmsg e ctx a =
     (if bpf_ntohs Little False (skc_dport ctx) \<noteq> DNS_PORT then (0, a)
      else if skc_family ctx \<noteq> AF_INET \<and> skc_family ctx \<noteq> AF_INET6 then (0, a)
      else let skb = sk_receive_queue_next ctx in
        if skb = 0 \<or> skb = sk_receive_queue_addr ctx then (0, a)
        else let data = skb_data_at ctx skb; dlen = skb_len_at ctx skb in
          if data = 0 \<or> dlen < 12 \<or> dlen > DNS_RAW_MAX then (0, a)
          else if \<not> ring_reserved e then (0, count_drop e (slot_index DROP_SLOT_DNS_RINGBUF) a)
          else let copy_len = (if dlen > DNS_RAW_MAX then DNS_RAW_MAX else dlen);
                   evt = zero_dns_raw_event\<lparr>dr_len := ucast copy_len\<rparr>
               in if \<not> probe_read_ok e then (0, a)
                  else (0, a\<lparr>dns_events := dns_events a @
                     [evt\<lparr>dr_data := store_bytes (dr_data evt) 0
                            (kernel_bytes ctx data (unat copy_len))\<rparr>]\<rparr>))"

section \<open>What the capture records\<close>

text \<open>The guard of the capture as a predicate on the datagram.\<close>

definition dns_captured :: "dns_ctx \<Rightarrow> bool" where
  "dns_captured ctx \<longleftrightarrow>
     bpf_ntohs Little False (skc_dport ctx) = DNS_PORT \<and>
     (skc_family ctx = AF_INET \<or> skc_family ctx = AF_INET6) \<and>
     sk_receive_queue_next ctx \<noteq> 0 \<and>
     sk_receive_queue_next ctx \<noteq> sk_receive_queue_addr ctx \<and>
     skb_data_at ctx (sk_receive_queue_next ctx) \<noteq> 0 \<and>
     12 \<le> skb_len_at ctx (sk_receive_queue_next ctx) \<and>
     skb_len_at ctx (sk_receive_queue_next ctx) \<le> DNS_RAW_MAX"

lemma dns_not_captured: "\<not> dns_captured ctx \<Longrightarrow> tollwing_dns_recvmsg e ctx a = (0, a)"
  by (auto simp: dns_captured_def tollwing_dns_recvmsg_def Let_def not_le)

lemma dns_captured_outcome:
  assumes "dns_captured ctx"
  defines "skb \<equiv> sk_receive_queue_next ctx"
  defines "n \<equiv> unat (skb_len_at ctx skb)"
  shows "tollwing_dns_recvmsg e ctx a =
    (0, if \<not> ring_reserved e then count_drop e (slot_index DROP_SLOT_DNS_RINGBUF) a
        else if \<not> probe_read_ok e then a
        else a\<lparr>dns_events := dns_events a @
          [\<lparr>dr_len = ucast (skb_len_at ctx skb), dr_pad = 0,
            dr_data = kernel_bytes ctx (skb_data_at ctx skb) n @ replicate (512 - n) 0\<rparr>]\<rparr>)"
proof -
  have "\<not> skb_len_at ctx skb < 12" "\<not> DNS_RAW_MAX < skb_len_at ctx skb"
    using assms(1) by (simp_all add: dns_captured_def skb_def not_less)
  moreover have "length (kernel_bytes ctx p m) = m" for p m by (simp add: kernel_bytes_def)
  moreover have "skc_family ctx = AF_INET \<or> skc_family ctx = AF_INET6"
    using assms(1) by (simp add: dns_captured_def)
  ultimately show ?thesis
    using assms(1) by (elim disjE) (simp_all add: tollwing_dns_recvmsg_def dns_captured_def Let_def zero_dns_raw_event_def
        store_bytes_def DNS_RAW_MAX_def flip: skb_def n_def)
qed

lemma dns_captured_bounds:
  assumes "dns_captured ctx"
  shows "12 \<le> unat (skb_len_at ctx (sk_receive_queue_next ctx))"
    and "unat (skb_len_at ctx (sk_receive_queue_next ctx)) \<le> 512"
  using assms by (auto simp: dns_captured_def DNS_RAW_MAX_def word_le_nat_alt)

lemma dns_frame [frame_simps]:
  "connections (snd (tollwing_dns_recvmsg e ctx a)) = connections a"
  "cookie_to_original_dst (snd (tollwing_dns_recvmsg e ctx a)) = cookie_to_original_dst a"
  "flow_aggregates (snd (tollwing_dns_recvmsg e ctx a)) = flow_aggregates a"
  "quic_flows (snd (tollwing_dns_recvmsg e ctx a)) = quic_flows a"
  "agent_config_map (snd (tollwing_dns_recvmsg e ctx a)) = agent_config_map a"
  "events (snd (tollwing_dns_recvmsg e ctx a)) = events a"
  "sk_cb_flags (snd (tollwing_dns_recvmsg e ctx a)) = sk_cb_flags a"
  by (simp_all add: tollwing_dns_recvmsg_def Let_def)

lemma dns_wf [wf_intros]: "agent_wf a \<Longrightarrow> agent_wf (snd (tollwing_dns_recvmsg e ctx a))"
  by (simp add: tollwing_dns_recvmsg_def Let_def)

end
