(* ===== verification/Quic_Hook.thy ===== *)
theory Quic_Hook
  imports Agent_State "HOL-Library.Monad_Syntax"
begin

text \<open>
  The TC egress program of \<open>quic.bpf.c\<close>. The packet is the bytes between \<open>skb->data\<close> and
  \<open>skb->data_end\<close>; every load goes through \<open>ld8\<close>, \<open>ld16\<close> or \<open>ld32\<close>, which return \<open>None\<close>
  outside the packet, so that \<open>None\<close> from the parser means an out-of-bounds access. The
  parser is proved never to return it; it recovers the 4-tuple and version of every
  well-formed IPv4 or IPv6 QUIC frame.
\<close>

section \<open>Constants\<close>

definition ETH_P_IP :: u16 where "ETH_P_IP = 0x0800"
definition ETH_P_IPV6 :: u16 where "ETH_P_IPV6 = 0x86DD"
definition QUIC_VERSION_1 :: u32 where "QUIC_VERSION_1 = 0x00000001"
definition QUIC_VERSION_2 :: u32 where "QUIC_VERSION_2 = 0x6b3343cf"
definition QUIC_VERSION_DRAFT :: u32 where "QUIC_VERSION_DRAFT = 0xff000000"
definition QUIC_LONG_HEADER_MASK :: u8 where "QUIC_LONG_HEADER_MASK = 0xC0"
definition QUIC_SHORT_HEADER_MASK :: u8 where "QUIC_SHORT_HEADER_MASK = 0x40"
definition QUIC_FIXED_BIT :: u8 where "QUIC_FIXED_BIT = 0x40"
definition ETH_HLEN :: nat where "ETH_HLEN = 14"
definition IP_MIN_HLEN :: nat where "IP_MIN_HLEN = 20"
definition IP6_HLEN :: nat where "IP6_HLEN = 40"
definition UDP_HLEN :: nat where "UDP_HLEN = 8"
definition TC_ACT_OK :: int where "TC_ACT_OK = 0"

lemmas hlen_defs = ETH_HLEN_def IP_MIN_HLEN_def IP6_HLEN_def UDP_HLEN_def

section \<open>Packet loads\<close>

definition ld8 :: "u8 list \<Rightarrow> nat \<Rightarrow> u8 option" where
  "ld8 pkt i = (if i < length pkt then Some (pkt ! i) else None)"

definition ld16 :: "u8 list \<Rightarrow> nat \<Rightarrow> u16 option" where
  "ld16 pkt i = do { b0 \<leftarrow> ld8 pkt i; b1 \<leftarrow> ld8 pkt (i + 1); Some (le_word16 b0 b1) }"

definition ld32 :: "u8 list \<Rightarrow> nat \<Rightarrow> u32 option" where
  "ld32 pkt i = do { b0 \<leftarrow> ld8 pkt i; b1 \<leftarrow> ld8 pkt (i + 1); b2 \<leftarrow> ld8 pkt (i + 2);
     b3 \<leftarrow> ld8 pkt (i + 3); Some (le_word32 b0 b1 b2 b3) }"

lemma ld8_ok [simp]: "i < length pkt \<Longrightarrow> ld8 pkt i = Some (pkt ! i)"
  by (simp add: ld8_def)

lemma ld16_ok [simp]: "i + 1 < length pkt \<Longrightarrow> ld16 pkt i = Some (le_word16 (pkt ! i) (pkt ! (i + 1)))"
  by (simp add: ld16_def)

lemma ld32_ok [simp]: "i + 3 < length pkt \<Longrightarrow>
    ld32 pkt i = Some (le_word32 (pkt ! i) (pkt ! (i + 1)) (pkt ! (i + 2)) (pkt ! (i + 3)))"
  by (simp add: ld32_def)

section \<open>The parser\<close>

definition detect_quic :: "u8 \<Rightarrow> int" where
  "detect_quic first_byte =
     (if first_byte AND QUIC_FIXED_BIT = 0 then 0
      else if first_byte AND QUIC_LONG_HEADER_MASK = QUIC_LONG_HEADER_MASK then 1
      else if first_byte AND QUIC_SHORT_HEADER_MASK = QUIC_SHORT_HEADER_MASK then 2
      else 0)"

text \<open>\<open>Pass\<close>: the program returns without recording. Otherwise the flow key, the version and the header type.\<close>

datatype quic_parse = Pass | Quic_packet quic_flow_key u32 int

definition known_version :: "u32 \<Rightarrow> u32" where
  "known_version v =
     (if v \<noteq> QUIC_VERSION_1 \<and> v \<noteq> QUIC_VERSION_2 \<and> v AND 0xff000000 \<noteq> QUIC_VERSION_DRAFT
      then 0 else v)"

definition parse_version :: "u8 list \<Rightarrow> nat \<Rightarrow> u32 option" where
  "parse_version pkt quic_start = do {
     b1 \<leftarrow> ld8 pkt (quic_start + 1);
     b2 \<leftarrow> ld8 pkt (quic_start + 2);
     b3 \<leftarrow> ld8 pkt (quic_start + 3);
     b4 \<leftarrow> ld8 pkt (quic_start + 4);
     Some (known_version (push_bit 24 (ucast b1) OR push_bit 16 (ucast b2) OR
             push_bit 8 (ucast b3) OR ucast b4)) }"

definition parse_udp :: "u8 list \<Rightarrow> u32 \<Rightarrow> u32 \<Rightarrow> nat \<Rightarrow> quic_parse option" where
  "parse_udp pkt saddr daddr udp_offset =
     (if udp_offset + UDP_HLEN + 1 > length pkt then Some Pass
      else do {
        sp \<leftarrow> ld16 pkt udp_offset;
        dp \<leftarrow> ld16 pkt (udp_offset + 2);
        ul \<leftarrow> ld16 pkt (udp_offset + 4);
        let src_port = bpf_ntohs Little False sp;
        let dst_port = bpf_ntohs Little False dp;
        let udp_len = bpf_ntohs Little False ul;
        if unat udp_len < UDP_HLEN + 1 then Some Pass
        else do {
          let quic_start = udp_offset + UDP_HLEN;
          first_byte \<leftarrow> ld8 pkt quic_start;
          let header_type = detect_quic first_byte;
          let key = zero_quic_flow_key\<lparr>qk_src_ip := saddr, qk_dst_ip := daddr,
                      qk_src_port := src_port, qk_dst_port := dst_port\<rparr>;
          if header_type = 0 then Some Pass
          else if header_type = 1 then
            (if quic_start + 5 > length pkt then Some Pass
             else do { v \<leftarrow> parse_version pkt quic_start; Some (Quic_packet key v header_type) })
          else Some (Quic_packet key 0 header_type)
        }
      })"

definition parse_ipv4 :: "u8 list \<Rightarrow> quic_parse option" where
  "parse_ipv4 pkt = do {
     ver_ihl \<leftarrow> ld8 pkt ETH_HLEN;
     let ihl = ver_ihl AND 0x0F;
     if ihl < 5 \<or> ihl > 15 then Some Pass
     else do {
       protocol \<leftarrow> ld8 pkt (ETH_HLEN + 9);
       if protocol \<noteq> IPPROTO_UDP then Some Pass
       else do {
         let ip_hdr_len = push_bit 2 (ucast ihl :: u16);
         let udp_offset = of_nat ETH_HLEN + ip_hdr_len;
         if unat udp_offset + UDP_HLEN + 1 > length pkt then Some Pass
         else do {
           saddr \<leftarrow> ld32 pkt (ETH_HLEN + 12);
           daddr \<leftarrow> ld32 pkt (ETH_HLEN + 16);
           parse_udp pkt saddr daddr (unat udp_offset)
         }
       }
     }
   }"

definition parse_ipv6 :: "u8 list \<Rightarrow> quic_parse option" where
  "parse_ipv6 pkt =
     (if ETH_HLEN + IP6_HLEN + UDP_HLEN + 1 > length pkt then Some Pass
      else do {
        next_header \<leftarrow> ld8 pkt (ETH_HLEN + 6);
        if next_header \<noteq> IPPROTO_UDP then Some Pass
        else do {
          saddr \<leftarrow> ld32 pkt (ETH_HLEN + 8);
          daddr \<leftarrow> ld32 pkt (ETH_HLEN + 24);
          parse_udp pkt saddr daddr (ETH_HLEN + IP6_HLEN)
        }
      })"

definition parse_quic :: "u8 list \<Rightarrow> quic_parse option" where
  "parse_quic pkt =
     (if ETH_HLEN + IP_MIN_HLEN + UDP_HLEN + 1 > length pkt then Some Pass
      else do {
        eth_proto \<leftarrow> ld16 pkt 12;
        if eth_proto = bpf_htons Little True ETH_P_IP then parse_ipv4 pkt
        else if eth_proto = bpf_htons Little True ETH_P_IPV6 then parse_ipv6 pkt
        else Some Pass
      })"

section \<open>The program\<close>

definition lookup_quic :: "agent \<Rightarrow> quic_flow_key \<Rightarrow> (nat \<Rightarrow> quic_flow_metrics) option" where
  "lookup_quic a k = bpf_map_lookup_elem (quic_flows a) k"

definition record_quic :: "kenv \<Rightarrow> quic_flow_key \<Rightarrow> u32 \<Rightarrow> int \<Rightarrow> u64 \<Rightarrow> agent \<Rightarrow> agent" where
  "record_quic e key quic_version header_type pkt_bytes a =
     (let now = bpf_ktime_get_ns e 0; long = (if header_type = 1 then 1 else 0 :: u8) in
      case lookup_quic a key of
        Some vals \<Rightarrow>
          (let val = vals (smp_processor_id e);
               val' = val\<lparr>qm_tx_bytes := qm_tx_bytes val + pkt_bytes,
                          qm_pkt_count := qm_pkt_count val + 1,
                          qm_last_seen_ns := now,
                          qm_quic_version := (if quic_version \<noteq> 0 then quic_version
                                              else qm_quic_version val),
                          qm_is_long_header := long\<rparr>
           in a\<lparr>quic_flows := bpf_map_write key (vals(smp_processor_id e := val')) (quic_flows a)\<rparr>)
      | None \<Rightarrow>
          (let new_val = zero_quic_flow_metrics\<lparr>qm_tx_bytes := pkt_bytes, qm_pkt_count := 1,
                 qm_last_seen_ns := now, qm_quic_version := quic_version,
                 qm_is_long_header := long\<rparr>
           in case hash_update (map_grant e M_quic_flows) BPF_NOEXIST key
                     ((other_cpus_quic e)(smp_processor_id e := new_val)) (quic_flows a) of
                (None, m) \<Rightarrow> a\<lparr>quic_flows := m\<rparr>
              | (Some _, m) \<Rightarrow>
                  count_drop e (slot_index DROP_SLOT_QUIC_FLOWS) (a\<lparr>quic_flows := m\<rparr>)))"

text \<open>\<open>None\<close> is an access outside the packet.\<close>

definition tollwing_quic_egress :: "kenv \<Rightarrow> u8 list \<Rightarrow> agent \<Rightarrow> (int \<times> agent) option" where
  "tollwing_quic_egress e pkt a =
     (case get_config a of
        None \<Rightarrow> Some (TC_ACT_OK, a)
      | Some cfg \<Rightarrow>
          if ac_udp_socket_tx cfg \<noteq> 0 then Some (TC_ACT_OK, a)
          else case parse_quic pkt of
                 None \<Rightarrow> None
               | Some Pass \<Rightarrow> Some (TC_ACT_OK, a)
               | Some (Quic_packet key quic_version header_type) \<Rightarrow>
                   Some (TC_ACT_OK,
                     record_quic e key quic_version header_type (of_nat (length pkt)) a))"

section \<open>Memory safety\<close>

lemma parse_version_safe: "quic_start + 5 \<le> length pkt \<Longrightarrow> \<exists>v. parse_version pkt quic_start = Some v"
  by (simp add: parse_version_def)

lemma parse_udp_safe: "parse_udp pkt saddr daddr off \<noteq> None"
proof (cases "off + UDP_HLEN + 1 > length pkt")
  case True
  then show ?thesis by (simp add: parse_udp_def)
next
  case False
  then have "off + 9 \<le> length pkt" by (simp add: UDP_HLEN_def)
  then show ?thesis
    using parse_version_safe [of "off + 8" pkt]
    by (auto simp: parse_udp_def UDP_HLEN_def Let_def)
qed

lemma parse_quic_safe: "parse_quic pkt \<noteq> None"
proof (cases "ETH_HLEN + IP_MIN_HLEN + UDP_HLEN + 1 > length pkt")
  case True
  then show ?thesis by (simp add: parse_quic_def)
next
  case False
  then have len: "43 \<le> length pkt" by (simp add: hlen_defs)
  have "parse_ipv4 pkt \<noteq> None" if "43 \<le> length pkt"
    using that parse_udp_safe by (auto simp: parse_ipv4_def ETH_HLEN_def Let_def)
  moreover have "parse_ipv6 pkt \<noteq> None"
    using parse_udp_safe by (auto simp: parse_ipv6_def hlen_defs Let_def)
  ultimately show ?thesis
    using len by (auto simp: parse_quic_def)
qed

section \<open>Header detection\<close>

lemma detect_quic_bits:
  "detect_quic b = (if \<not> bit b 6 then 0 else if bit b 7 then 1 else 2)"
  by (auto simp: detect_quic_def QUIC_FIXED_BIT_def QUIC_LONG_HEADER_MASK_def
      QUIC_SHORT_HEADER_MASK_def u8_eq_bits bit_simps)

section \<open>What a well-formed frame parses to\<close>

text \<open>
  The QUIC header of a UDP payload, as RFC 9000 lays it out: the fixed bit, the long-header
  bit, and the version in network order. \<open>None\<close> is a payload that is not recorded.
\<close>

definition quic_header :: "u8 list \<Rightarrow> (u32 \<times> int) option" where
  "quic_header pl =
     (if pl = [] \<or> \<not> bit (pl ! 0) 6 then None
      else if bit (pl ! 0) 7 then
        (if length pl < 5 then None
         else Some (known_version (le_word32 (pl ! 4) (pl ! 3) (pl ! 2) (pl ! 1)), 1))
      else Some (0, 2))"

definition parse_result :: "quic_flow_key \<Rightarrow> u8 list \<Rightarrow> quic_parse" where
  "parse_result key pl = (case quic_header pl of None \<Rightarrow> Pass | Some (v, h) \<Rightarrow> Quic_packet key v h)"

lemma version_word:
  "push_bit 24 (ucast b1) OR push_bit 16 (ucast b2) OR push_bit 8 (ucast b3) OR ucast b4
    = le_word32 b4 b3 b2 b1"
  by (rule word32_byte_eqI) (auto simp: le_word32_def bit_simps dest: bit_imp_le_length)

definition udp_datagram :: "u16 \<Rightarrow> u16 \<Rightarrow> u16 \<Rightarrow> u8 list \<Rightarrow> u8 list \<Rightarrow> u8 list" where
  "udp_datagram sport dport len csum pl =
     be_bytes16 sport @ be_bytes16 dport @ be_bytes16 len @ csum @ pl"

lemma parse_udp_datagram:
  assumes csum: "length csum = 2" and len: "9 \<le> unat len" and pl: "pl \<noteq> []"
  shows "parse_udp (pre @ udp_datagram sp dp len csum pl) s d (length pre) =
    Some (parse_result \<lparr>qk_src_ip = s, qk_dst_ip = d, qk_src_port = sp, qk_dst_port = dp\<rparr> pl)"
proof -
  define u where "u = udp_datagram sp dp len csum pl"
  define pkt where "pkt = pre @ u"
  have lu: "length u = 8 + length pl"
    using csum by (simp add: u_def udp_datagram_def)
  have nth: "pkt ! (length pre + i) = u ! i" for i
    by (simp add: pkt_def nth_append)
  have u_pl: "u ! (8 + i) = pl ! i" for i
    using csum by (simp add: u_def udp_datagram_def be_bytes16_def nth_append)
  have u_hdr: "u ! 0 = ucast (drop_bit 8 sp)" "u ! Suc 0 = ucast sp" "u ! 2 = ucast (drop_bit 8 dp)"
    "u ! 3 = ucast dp" "u ! 4 = ucast (drop_bit 8 len)" "u ! 5 = ucast len"
    by (simp_all add: u_def udp_datagram_def be_bytes16_def numeral_nat)
  have p: "0 < length pl" using pl by simp
  note at = nth [of 0, simplified] nth [of 1] nth [of 2] nth [of 3] nth [of 4] nth [of 5]
    nth [of 8] nth [of 9] nth [of 10] nth [of 11] nth [of 12]
  note pls = u_pl [of 0] u_pl [of 1] u_pl [of 2] u_pl [of 3] u_pl [of 4]
  have at': "pkt ! Suc (length pre) = u ! Suc 0" "pkt ! Suc (Suc (length pre)) = u ! 2"
    "pkt ! Suc (Suc (Suc (length pre))) = u ! 3"
    using at by (simp_all add: numeral_eq_Suc)
  have lp: "length pkt = length pre + 8 + length pl" by (simp add: pkt_def lu)
  have "parse_udp pkt s d (length pre) =
    Some (parse_result \<lparr>qk_src_ip = s, qk_dst_ip = d, qk_src_port = sp, qk_dst_port = dp\<rparr> pl)"
    using p len lp
    by (auto simp: parse_udp_def parse_version_def UDP_HLEN_def Let_def at at' pls [simplified] u_hdr bswap16_wire
        detect_quic_bits parse_result_def quic_header_def version_word zero_quic_flow_key_def not_le
        add.commute add.left_commute)
  then show ?thesis by (simp add: pkt_def u_def)
qed

text \<open>
  Whole frames: the Ethernet header's addresses, the IP header with its options or the fixed
  IPv6 header, and the datagram. Fields the parser does not read are arbitrary bytes.
\<close>

definition ipv4_header :: "u8 \<Rightarrow> u8 list \<Rightarrow> u8 list \<Rightarrow> u8 list \<Rightarrow> u8 list \<Rightarrow> u8 list \<Rightarrow> u8 list" where
  "ipv4_header ver_ihl mid csum src dst opts = ver_ihl # mid @ [17] @ csum @ src @ dst @ opts"

definition ipv6_header :: "u8 list \<Rightarrow> u8 \<Rightarrow> u8 list \<Rightarrow> u8 list \<Rightarrow> u8 list" where
  "ipv6_header front hops src dst = front @ [17, hops] @ src @ dst"

definition le_word32_at :: "u8 list \<Rightarrow> nat \<Rightarrow> u32" where
  "le_word32_at bs i = le_word32 (bs ! i) (bs ! (i + 1)) (bs ! (i + 2)) (bs ! (i + 3))"

lemma le_word32_at_0:
  "le_word32_at bs 0 = le_word32 (bs ! 0) (bs ! 1) (bs ! 2) (bs ! 3)"
  by (simp add: le_word32_at_def numeral_2_eq_2 numeral_3_eq_3)

lemma ihl_bound: "unat ((b :: u8) AND 15) \<le> 15"
  using word_and_le1 [of b 15] by (simp add: word_le_nat_alt)

lemma udp_offset_nat: "unat (14 + push_bit 2 (ucast (b AND 15 :: u8)) :: u16) = 14 + 4 * unat (b AND 15)"
proof -
  have "unat (ucast (b AND 15) :: u16) = unat (b AND 15)"
    using ihl_bound [of b] by (simp add: unsigned_ucast_eq take_bit_nat_eq_self_iff)
  then show ?thesis using ihl_bound [of b] by (simp add: push_bit_eq_mult unat_word_ariths)
qed

lemma eth_proto_values:
  "bpf_swab16 ETH_P_IP = le_word16 0x08 0x00"
  "bpf_swab16 ETH_P_IPV6 = le_word16 0x86 0xDD"
  "le_word16 0x86 0xDD \<noteq> le_word16 0x08 0x00"
  by (simp_all add: ETH_P_IP_def ETH_P_IPV6_def swab16_is_bswap16 builtin_bswap16_def le_word16_def)

lemma parse_ipv4_frame:
  assumes macs: "length macs = 12" and mid: "length mid = 8" and csum: "length csum = 2"
    and src: "length src = 4" and dst: "length dst = 4"
    and ihl: "5 \<le> unat (ver_ihl AND 15)" and opts: "length opts + 20 = 4 * unat (ver_ihl AND 15)"
    and ucsum: "length ucsum = 2" and len: "9 \<le> unat len" and pl: "pl \<noteq> []"
  shows "parse_quic (macs @ [0x08, 0x00] @ ipv4_header ver_ihl mid csum src dst opts @
            udp_datagram sp dp len ucsum pl) =
    Some (parse_result \<lparr>qk_src_ip = le_word32_at src 0, qk_dst_ip = le_word32_at dst 0,
                        qk_src_port = sp, qk_dst_port = dp\<rparr> pl)"
proof -
  define pre where "pre = macs @ [0x08, 0x00] @ ipv4_header ver_ihl mid csum src dst opts"
  define pkt where "pkt = pre @ udp_datagram sp dp len ucsum pl"
  have lpre: "length pre = 14 + 4 * unat (ver_ihl AND 15)"
    using macs mid csum src dst opts by (simp add: pre_def ipv4_header_def)
  have lpkt: "length pkt = length pre + 8 + length pl"
    using ucsum by (simp add: pkt_def udp_datagram_def)
  have p: "0 < length pl" using pl by simp
  have head: "pkt ! 12 = 0x08" "pkt ! 13 = 0x00" "pkt ! 14 = ver_ihl" "pkt ! 23 = 17"
    using macs mid by (simp_all add: pkt_def pre_def ipv4_header_def nth_append nth_Cons')
  have addrs: "i < 4 \<Longrightarrow> pkt ! (26 + i) = src ! i" "i < 4 \<Longrightarrow> pkt ! (30 + i) = dst ! i" for i
    using macs mid csum src dst
    by (simp_all add: pkt_def pre_def ipv4_header_def nth_append nth_Cons')
  have s32: "le_word32 (pkt ! 26) (pkt ! 27) (pkt ! 28) (pkt ! 29) = le_word32_at src 0"
    "le_word32 (pkt ! 30) (pkt ! 31) (pkt ! 32) (pkt ! 33) = le_word32_at dst 0"
    using addrs(1) [of 0] addrs(1) [of 1] addrs(1) [of 2] addrs(1) [of 3]
      addrs(2) [of 0] addrs(2) [of 1] addrs(2) [of 2] addrs(2) [of 3]
    by (simp_all add: le_word32_at_0)
  have big: "43 \<le> length pkt" using ihl lpkt lpre p by linarith
  have ihl_ok: "\<not> (ver_ihl AND 15 < 5 \<or> ver_ihl AND 15 > 15)"
    using ihl ihl_bound [of ver_ihl] by (simp add: word_less_nat_alt)
  have "parse_ipv4 pkt = parse_udp pkt (le_word32_at src 0) (le_word32_at dst 0) (length pre)"
    using ihl_ok ihl lpkt lpre p
    by (simp add: parse_ipv4_def hlen_defs head IPPROTO_UDP_def Let_def udp_offset_nat s32)
  moreover have "parse_quic pkt = parse_ipv4 pkt"
    using big by (simp add: parse_quic_def hlen_defs head eth_proto_values)
  ultimately show ?thesis
    using parse_udp_datagram [OF ucsum len pl, of pre sp dp "le_word32_at src 0" "le_word32_at dst 0"]
    by (simp add: pkt_def pre_def)
qed

lemma parse_ipv6_frame:
  assumes macs: "length macs = 12" and front: "length front = 6"
    and src: "length src = 16" and dst: "length dst = 16"
    and ucsum: "length ucsum = 2" and len: "9 \<le> unat len" and pl: "pl \<noteq> []"
  shows "parse_quic (macs @ [0x86, 0xDD] @ ipv6_header front hops src dst @
            udp_datagram sp dp len ucsum pl) =
    Some (parse_result \<lparr>qk_src_ip = le_word32_at src 0, qk_dst_ip = le_word32_at dst 0,
                        qk_src_port = sp, qk_dst_port = dp\<rparr> pl)"
proof -
  define pre where "pre = macs @ [0x86, 0xDD] @ ipv6_header front hops src dst"
  define pkt where "pkt = pre @ udp_datagram sp dp len ucsum pl"
  have lpre: "length pre = 54"
    using macs front src dst by (simp add: pre_def ipv6_header_def)
  have lpkt: "length pkt = 62 + length pl"
    using ucsum lpre by (simp add: pkt_def udp_datagram_def)
  have p: "0 < length pl" using pl by simp
  have head: "pkt ! 12 = 0x86" "pkt ! 13 = 0xDD" "pkt ! 20 = 17"
    using macs front by (simp_all add: pkt_def pre_def ipv6_header_def nth_append nth_Cons')
  have addrs: "i < 4 \<Longrightarrow> pkt ! (22 + i) = src ! i" "i < 4 \<Longrightarrow> pkt ! (38 + i) = dst ! i" for i
    using macs front src dst
    by (simp_all add: pkt_def pre_def ipv6_header_def nth_append nth_Cons')
  have s32: "le_word32 (pkt ! 22) (pkt ! 23) (pkt ! 24) (pkt ! 25) = le_word32_at src 0"
    "le_word32 (pkt ! 38) (pkt ! 39) (pkt ! 40) (pkt ! 41) = le_word32_at dst 0"
    using addrs(1) [of 0] addrs(1) [of 1] addrs(1) [of 2] addrs(1) [of 3]
      addrs(2) [of 0] addrs(2) [of 1] addrs(2) [of 2] addrs(2) [of 3]
    by (simp_all add: le_word32_at_0)
  have "parse_ipv6 pkt = parse_udp pkt (le_word32_at src 0) (le_word32_at dst 0) (length pre)"
    using lpkt lpre p by (simp add: parse_ipv6_def hlen_defs head IPPROTO_UDP_def s32)
  moreover have "parse_quic pkt = parse_ipv6 pkt"
    using lpkt p by (simp add: parse_quic_def hlen_defs head eth_proto_values)
  ultimately show ?thesis
    using parse_udp_datagram [OF ucsum len pl, of pre sp dp "le_word32_at src 0" "le_word32_at dst 0"]
    by (simp add: pkt_def pre_def)
qed

section \<open>Accounting of the recorded packets\<close>

definition quic_total :: "nat \<Rightarrow> (quic_flow_metrics \<Rightarrow> u64) \<Rightarrow> agent \<Rightarrow> u64" where
  "quic_total n g a = map_total (cpu_total n g) (entries (quic_flows a))"

text \<open>
  Each packet either adds its bytes and one packet to the totals over all flows and CPUs, or
  leaves them and counts one drop. The kernel's slots of the other CPUs start at zero.
\<close>

lemma record_quic_accounts:
  fixes key :: quic_flow_key and v :: u32 and h :: int and bytes :: u64
  assumes wf: "agent_wf a" and cpu: "smp_processor_id e < n"
    and zero: "\<And>c. qm_tx_bytes (other_cpus_quic e c) = 0"
  defines "b \<equiv> record_quic e key v h bytes a"
  shows "quic_total n qm_tx_bytes b = quic_total n qm_tx_bytes a + bytes \<and>
           drops n DROP_SLOT_QUIC_FLOWS b = drops n DROP_SLOT_QUIC_FLOWS a
       \<or> quic_total n qm_tx_bytes b = quic_total n qm_tx_bytes a \<and>
           drops n DROP_SLOT_QUIC_FLOWS b = drops n DROP_SLOT_QUIC_FLOWS a + 1"
proof -
  have fin: "finite (dom (entries (quic_flows a)))"
    using wf by (simp add: agent_wf_def bmap_wf_def)
  show ?thesis
  proof (cases "lookup_quic a key")
    case (Some vals)
    then have "entries (quic_flows a) key = Some vals"
      by (simp add: lookup_quic_def bpf_map_lookup_elem_def)
    then show ?thesis
      using Some cpu fin
      by (simp add: b_def record_quic_def Let_def quic_total_def bpf_map_write_def
          map_total_update cpu_total_upd drops_def)
  next
    case None
    define nv where "nv = zero_quic_flow_metrics\<lparr>qm_tx_bytes := bytes, qm_pkt_count := 1,
      qm_last_seen_ns := bpf_ktime_get_ns e 0, qm_quic_version := v,
      qm_is_long_header := if h = 1 then 1 else 0\<rparr>"
    define vals where "vals = (other_cpus_quic e)(smp_processor_id e := nv)"
    have tot: "cpu_total n qm_tx_bytes vals = bytes"
      using cpu_total_single [OF cpu, of qm_tx_bytes vals] zero by (simp add: vals_def nv_def)
    obtain r m where upd: "hash_update (map_grant e M_quic_flows) BPF_NOEXIST key vals (quic_flows a) = (r, m)"
      by fastforce
    from hash.insert_total [OF fin upd, of "cpu_total n qm_tx_bytes"]
    have "map_total (cpu_total n qm_tx_bytes) (entries m) = quic_total n qm_tx_bytes a + (if r = None then bytes else 0)"
      by (simp add: quic_total_def tot)
    moreover have "b = (case r of None \<Rightarrow> a\<lparr>quic_flows := m\<rparr>
        | Some _ \<Rightarrow> count_drop e (slot_index DROP_SLOT_QUIC_FLOWS) (a\<lparr>quic_flows := m\<rparr>))"
      using None upd by (simp add: b_def record_quic_def Let_def vals_def nv_def split: option.split)
    moreover have "drops n DROP_SLOT_QUIC_FLOWS
        (count_drop e (slot_index DROP_SLOT_QUIC_FLOWS) (a\<lparr>quic_flows := m\<rparr>))
        = drops n DROP_SLOT_QUIC_FLOWS a + 1"
      by (subst drops_count_drop [OF cpu]) (simp add: drops_def)
    ultimately show ?thesis
      by (cases r) (simp_all add: quic_total_def drops_def)
  qed
qed

lemma record_quic_wf [wf_intros]: "agent_wf a \<Longrightarrow> agent_wf (record_quic e key v h n a)"
  by (auto simp: record_quic_def Let_def agent_wf_def lookup_quic_def
      intro: wf_write hash.upd_wf split: option.split prod.split)

lemma record_quic_frame [frame_simps]:
  "connections (record_quic e key v h n a) = connections a"
  "cookie_to_original_dst (record_quic e key v h n a) = cookie_to_original_dst a"
  "flow_aggregates (record_quic e key v h n a) = flow_aggregates a"
  "agent_config_map (record_quic e key v h n a) = agent_config_map a"
  "events (record_quic e key v h n a) = events a"
  "dns_events (record_quic e key v h n a) = dns_events a"
  "sk_cb_flags (record_quic e key v h n a) = sk_cb_flags a"
  by (simp_all add: record_quic_def Let_def split: option.split prod.split)

end
