(* ===== verification/Agent_System.thy ===== *)
theory Agent_System
  imports Byte_Hooks Dns_Hook Quic_Hook
begin

text \<open>
  The programs together: one event of the kernel is an invocation of one program, dispatched
  as the sections of the object file are attached.
\<close>

section \<open>Dispatch\<close>

datatype kevent =
  Connect4 bpf_sock_addr
| Connect6 bpf_sock_addr
| Sockops bpf_sock_ops
| Sock_release u32
| Tcp_sendmsg abi "reg \<Rightarrow> u64"
| Tcp_cleanup_rbuf abi "reg \<Rightarrow> u64"
| Tcp_sendmsg_fentry "nat \<Rightarrow> u64"
| Tcp_cleanup_rbuf_fentry "nat \<Rightarrow> u64"
| Udp_sendmsg "nat \<Rightarrow> u64"
| Udp_recvmsg_exit "nat \<Rightarrow> u64"
| Dns_recvmsg dns_ctx
| Tcp_retransmit u32
| Tcp_loss_probe u32
| Quic_egress "u8 list"

text \<open>\<open>None\<close> is a packet access out of bounds.\<close>

fun dispatch :: "kenv \<Rightarrow> kevent \<Rightarrow> agent \<Rightarrow> (int \<times> agent) option" where
  "dispatch e (Connect4 ctx) a = Some (tollwing_connect4 e ctx a)"
| "dispatch e (Connect6 ctx) a = Some (tollwing_connect6 e ctx a)"
| "dispatch e (Sockops skops) a = Some (tollwing_sockops e skops a)"
| "dispatch e (Sock_release protocol) a = Some (tollwing_sock_release e protocol a)"
| "dispatch e (Tcp_sendmsg ab regs) a = Some (tollwing_tcp_sendmsg e ab regs a)"
| "dispatch e (Tcp_cleanup_rbuf ab regs) a = Some (tollwing_tcp_cleanup_rbuf e ab regs a)"
| "dispatch e (Tcp_sendmsg_fentry ctx) a = Some (tollwing_tcp_sendmsg_fentry e ctx a)"
| "dispatch e (Tcp_cleanup_rbuf_fentry ctx) a = Some (tollwing_tcp_cleanup_rbuf_fentry e ctx a)"
| "dispatch e (Udp_sendmsg ctx) a = Some (tollwing_udp_sendmsg e ctx a)"
| "dispatch e (Udp_recvmsg_exit ctx) a = Some (tollwing_udp_recvmsg_exit e ctx a)"
| "dispatch e (Dns_recvmsg ctx) a = Some (tollwing_dns_recvmsg e ctx a)"
| "dispatch e (Tcp_retransmit skb_len) a = Some (tollwing_tcp_retransmit e skb_len a)"
| "dispatch e (Tcp_loss_probe mss_cache) a = Some (tollwing_tcp_loss_probe e mss_cache a)"
| "dispatch e (Quic_egress pkt) a = tollwing_quic_egress e pkt a"

definition step :: "kenv \<times> kevent \<Rightarrow> agent \<Rightarrow> agent" where
  "step i a = (case dispatch (fst i) (snd i) a of None \<Rightarrow> a | Some (_, b) \<Rightarrow> b)"

text \<open>The verdict that lets the traffic through, by program type.\<close>

fun allow :: "kevent \<Rightarrow> int" where
  "allow (Connect4 _) = 1"
| "allow (Connect6 _) = 1"
| "allow (Sockops _) = 1"
| "allow (Sock_release _) = 1"
| "allow _ = 0"

lemma quic_egress_cases:
  obtains "tollwing_quic_egress e pkt a = Some (TC_ACT_OK, a)"
  | key v h where "tollwing_quic_egress e pkt a =
      Some (TC_ACT_OK, record_quic e key v h (of_nat (length pkt)) a)"
    "get_config a \<noteq> None" "ac_udp_socket_tx (the (get_config a)) = 0"
    "parse_quic pkt = Some (Quic_packet key v h)"
proof (cases "get_config a")
  case None
  then show thesis using that(1) by (simp add: tollwing_quic_egress_def)
next
  case (Some cfg)
  obtain p where p: "parse_quic pkt = Some p" using parse_quic_safe by blast
  show thesis
    using that Some p by (cases p; cases "ac_udp_socket_tx cfg = 0") (auto simp: tollwing_quic_egress_def)
qed

lemma step_simps [simp]:
  "step (e, Connect4 ctx) a = snd (tollwing_connect4 e ctx a)"
  "step (e, Connect6 ctx) a = snd (tollwing_connect6 e ctx a)"
  "step (e, Sockops s) a = snd (tollwing_sockops e s a)"
  "step (e, Sock_release p) a = snd (tollwing_sock_release e p a)"
  "step (e, Tcp_sendmsg ab regs) a = snd (tollwing_tcp_sendmsg e ab regs a)"
  "step (e, Tcp_cleanup_rbuf ab regs) a = snd (tollwing_tcp_cleanup_rbuf e ab regs a)"
  "step (e, Tcp_sendmsg_fentry c) a = snd (tollwing_tcp_sendmsg_fentry e c a)"
  "step (e, Tcp_cleanup_rbuf_fentry c) a = snd (tollwing_tcp_cleanup_rbuf_fentry e c a)"
  "step (e, Udp_sendmsg c) a = snd (tollwing_udp_sendmsg e c a)"
  "step (e, Udp_recvmsg_exit c) a = snd (tollwing_udp_recvmsg_exit e c a)"
  "step (e, Dns_recvmsg d) a = snd (tollwing_dns_recvmsg e d a)"
  "step (e, Tcp_retransmit l) a = snd (tollwing_tcp_retransmit e l a)"
  "step (e, Tcp_loss_probe m) a = snd (tollwing_tcp_loss_probe e m a)"
  by (simp_all add: step_def split_beta)

lemma dispatch_step: "dispatch e ev a = Some (allow ev, step (e, ev) a)"
proof (cases ev)
  case (Quic_egress pkt)
  show ?thesis
    by (rule quic_egress_cases [of e pkt a]) (simp_all add: Quic_egress step_def TC_ACT_OK_def)
qed (auto simp: tollwing_connect4_def tollwing_connect6_def tollwing_sockops_def
    tollwing_sock_release_def tollwing_dns_recvmsg_def Let_def prod_eq_iff
    tcp_sendmsg.verdict [of e "(ab, regs)" for ab regs, simplified]
    tcp_cleanup_rbuf.verdict [of e "(ab, regs)" for ab regs, simplified]
    tcp_sendmsg_fentry.verdict tcp_cleanup_rbuf_fentry.verdict udp_sendmsg.verdict
    udp_recvmsg_exit.verdict tcp_retransmit.verdict tcp_loss_probe.verdict split: option.split)

text \<open>Cases for the packet program: it records, or nothing changes.\<close>

lemma step_quic:
  obtains "step (e, Quic_egress pkt) a = a"
  | key v h where "step (e, Quic_egress pkt) a = record_quic e key v h (of_nat (length pkt)) a"
    "get_config a \<noteq> None" "ac_udp_socket_tx (the (get_config a)) = 0"
    "parse_quic pkt = Some (Quic_packet key v h)"
  by (rule quic_egress_cases [of e pkt a]) (auto simp: step_def)

text \<open>While the agent is disabled only the DNS capture and the release of a socket do anything.\<close>

lemma step_disabled:
  assumes "get_config a = None" and "\<And>d. ev \<noteq> Dns_recvmsg d" and "\<And>p. ev \<noteq> Sock_release p"
  shows "step (e, ev) a = a"
  using assms
proof (cases ev)
  case (Dns_recvmsg d)
  then show ?thesis using assms(2) by blast
next
  case (Sock_release p)
  then show ?thesis using assms(3) by blast
next
  case (Tcp_sendmsg ab regs)
  then show ?thesis using tcp_sendmsg.disabled [OF assms(1), of e "(ab, regs)"] by simp
next
  case (Tcp_cleanup_rbuf ab regs)
  then show ?thesis using tcp_cleanup_rbuf.disabled [OF assms(1), of e "(ab, regs)"] by simp
next
  case (Quic_egress pkt)
  then show ?thesis using assms(1) by (simp add: step_def tollwing_quic_egress_def)
qed (simp_all add: tollwing_connect4_def tollwing_connect6_def connect_selected_def tollwing_sockops_def
    tcp_sendmsg_fentry.disabled tcp_cleanup_rbuf_fentry.disabled udp_sendmsg.disabled
    udp_recvmsg_exit.disabled tcp_retransmit.disabled tcp_loss_probe.disabled)

text \<open>The facts about the eight byte-counting programs, one name each.\<close>

lemmas byte_wf = tcp_sendmsg.wf_kept [of _ _ "(ab, regs)" for ab regs, simplified]
  tcp_cleanup_rbuf.wf_kept [of _ _ "(ab, regs)" for ab regs, simplified]
  tcp_sendmsg_fentry.wf_kept tcp_cleanup_rbuf_fentry.wf_kept udp_sendmsg.wf_kept
  udp_recvmsg_exit.wf_kept tcp_retransmit.wf_kept tcp_loss_probe.wf_kept

lemma step_wf: "agent_wf a \<Longrightarrow> agent_wf (step i a)"
proof (cases i)
  case (Pair e ev)
  assume wf: "agent_wf a"
  show ?thesis
  proof (cases ev)
    case (Quic_egress pkt)
    show ?thesis
      by (rule step_quic [of e pkt a]) (simp_all add: Pair Quic_egress wf record_quic_wf)
  qed (simp_all add: Pair wf connect4_wf connect6_wf sockops_wf sock_release_wf byte_wf dns_wf)
qed

interpretation programs: kept_by_steps step agent_wf "\<lambda>_. True"
  by unfold_locales (rule step_wf)

end
