(* ===== verification/Poller.thy ===== *)
theory Poller
  imports Byte_Hooks Quic_Hook
begin

text \<open>
  The userspace side of the maps: the drain of \<open>flow_aggregates\<close> and \<open>quic_flows\<close> by
  \<open>pkg/poller/poller.go\<close>, and the configuration that \<open>pkg/ebpf/loader.go\<close> pushes. The
  programs' accounting is only as good as this reader: what it delivers and what stays in
  the map add up to what was there. \<open>n\<close> is the number of possible CPUs.
\<close>

section \<open>Snapshots\<close>

record flow_snapshot =
  fs_src_ip :: u32
  fs_dst_ip :: u32
  fs_src_port :: u16
  fs_dst_port :: u16
  fs_pid :: u32
  fs_protocol :: u8
  fs_direction :: u8
  fs_tx_bytes :: u64
  fs_rx_bytes :: u64
  fs_conn_count :: u64
  fs_packet_count :: u64
  fs_retransmit_bytes :: u64
  fs_retransmit_count :: u64

definition zero_snapshot :: flow_snapshot where
  "zero_snapshot = \<lparr>fs_src_ip = 0, fs_dst_ip = 0, fs_src_port = 0, fs_dst_port = 0, fs_pid = 0,
     fs_protocol = 0, fs_direction = 0, fs_tx_bytes = 0, fs_rx_bytes = 0, fs_conn_count = 0,
     fs_packet_count = 0, fs_retransmit_bytes = 0, fs_retransmit_count = 0\<rparr>"

definition add_metrics :: "flow_metrics \<Rightarrow> flow_snapshot \<Rightarrow> flow_snapshot" where
  "add_metrics m snap = snap
     \<lparr>fs_tx_bytes := fs_tx_bytes snap + fm_tx_bytes m,
      fs_rx_bytes := fs_rx_bytes snap + fm_rx_bytes m,
      fs_conn_count := fs_conn_count snap + fm_conn_count m,
      fs_retransmit_bytes := fs_retransmit_bytes snap + fm_retransmit_bytes m,
      fs_retransmit_count := fs_retransmit_count snap + fm_retransmit_count m\<rparr>"

definition sum_per_cpu :: "flow_key \<Rightarrow> flow_metrics list \<Rightarrow> flow_snapshot" where
  "sum_per_cpu key per_cpu = fold add_metrics per_cpu
     (zero_snapshot\<lparr>fs_src_ip := fk_src_ip key, fs_dst_ip := fk_dst_ip key,
        fs_src_port := fk_src_port key, fs_dst_port := fk_dst_port key, fs_pid := fk_pid key,
        fs_protocol := fk_protocol key, fs_direction := fk_direction key\<rparr>)"

text \<open>\<open>LookupAndDelete\<close> of one key: the per-CPU values in CPU order, and the map without them.\<close>

definition poll_flow :: "nat \<Rightarrow> flow_key \<Rightarrow> agent \<times> flow_snapshot list \<Rightarrow> agent \<times> flow_snapshot list" where
  "poll_flow n key s =
     (case s of (a, flows) \<Rightarrow>
        (case lookup_flow a key of
           None \<Rightarrow> (a, flows)
         | Some vals \<Rightarrow>
             (a\<lparr>flow_aggregates := bpf_map_delete_elem key (flow_aggregates a)\<rparr>,
              flows @ [sum_per_cpu key (map vals [0..<n])])))"

text \<open>Phase two of \<open>pollIterate\<close>, over the keys that phase one collected.\<close>

definition poll_iterate :: "nat \<Rightarrow> flow_key list \<Rightarrow> agent \<times> flow_snapshot list \<Rightarrow> agent \<times> flow_snapshot list" where
  "poll_iterate n keys s = fold (poll_flow n) keys s"

definition poll_quic_flow ::
  "nat \<Rightarrow> quic_flow_key \<Rightarrow> agent \<times> flow_snapshot list \<Rightarrow> agent \<times> flow_snapshot list" where
  "poll_quic_flow n key s =
     (case s of (a, flows) \<Rightarrow>
        (case lookup_quic a key of
           None \<Rightarrow> (a, flows)
         | Some vals \<Rightarrow>
             (a\<lparr>quic_flows := bpf_map_delete_elem key (quic_flows a)\<rparr>,
              flows @ [fold (\<lambda>m snap. snap
                         \<lparr>fs_tx_bytes := fs_tx_bytes snap + qm_tx_bytes m,
                          fs_packet_count := fs_packet_count snap + qm_pkt_count m\<rparr>)
                       (map vals [0..<n])
                       (zero_snapshot\<lparr>fs_src_ip := qk_src_ip key, fs_dst_ip := qk_dst_ip key,
                          fs_src_port := qk_src_port key, fs_dst_port := qk_dst_port key,
                          fs_protocol := 17, fs_direction := 0\<rparr>)])))"

section \<open>Configuration\<close>

definition udp_socket_tx :: "bool \<Rightarrow> bool \<Rightarrow> u8" where
  "udp_socket_tx track_udp udp_sendmsg_attached = (if track_udp \<and> udp_sendmsg_attached then 1 else 0)"

definition push_config :: "bool \<Rightarrow> bool \<Rightarrow> u8 \<Rightarrow> bool \<Rightarrow> u64 \<Rightarrow> agent \<Rightarrow> agent" where
  "push_config enabled track_udp sample_rate udp_sendmsg_attached aggregation_ns a =
     a\<lparr>agent_config_map := (agent_config_map a)(0 \<mapsto>
        \<lparr>ac_enabled = (if enabled then 1 else 0),
         ac_track_udp = (if track_udp then 1 else 0),
         ac_sample_rate = sample_rate,
         ac_udp_socket_tx = udp_socket_tx track_udp udp_sendmsg_attached,
         ac_reserved = replicate 4 0,
         ac_aggregation_ns = aggregation_ns\<rparr>)\<rparr>"

text \<open>\<open>SetEnabled\<close>: a read-modify-write of the one configuration entry.\<close>

definition set_enabled :: "bool \<Rightarrow> agent \<Rightarrow> agent" where
  "set_enabled enabled a =
     (case agent_config_map a 0 of
        None \<Rightarrow> a
      | Some cfg \<Rightarrow>
          a\<lparr>agent_config_map := (agent_config_map a)
              (0 \<mapsto> cfg\<lparr>ac_enabled := (if enabled then 1 else 0)\<rparr>)\<rparr>)"

section \<open>A snapshot is the sum over the CPUs\<close>

text \<open>A counter of the metrics and the field of the snapshot it is summed into.\<close>

definition summed_into :: "(flow_metrics \<Rightarrow> u64) \<Rightarrow> (flow_snapshot \<Rightarrow> u64) \<Rightarrow> bool" where
  "summed_into g f \<longleftrightarrow> (\<forall>m s. f (add_metrics m s) = f s + g m) \<and>
     (\<forall>key. f (sum_per_cpu key []) = 0)"

lemma summed_into_fields:
  "summed_into fm_tx_bytes fs_tx_bytes" "summed_into fm_rx_bytes fs_rx_bytes"
  "summed_into fm_conn_count fs_conn_count"
  "summed_into fm_retransmit_bytes fs_retransmit_bytes"
  "summed_into fm_retransmit_count fs_retransmit_count"
  by (simp_all add: summed_into_def add_metrics_def sum_per_cpu_def zero_snapshot_def)

lemma fold_add_metrics:
  assumes "summed_into g f"
  shows "f (fold add_metrics ms s) = f s + (\<Sum>m\<leftarrow>ms. g m)"
  using assms by (induction ms arbitrary: s) (simp_all add: summed_into_def add.assoc)

lemma sum_per_cpu_total:
  assumes "summed_into g f"
  shows "f (sum_per_cpu key (map vals [0..<n])) = cpu_total n g vals"
proof -
  let ?init = "sum_per_cpu key []"
  have "sum_per_cpu key (map vals [0..<n]) = fold add_metrics (map vals [0..<n]) ?init"
    by (simp add: sum_per_cpu_def)
  moreover have "f ?init = 0" using assms by (simp add: summed_into_def)
  ultimately show ?thesis
    using fold_add_metrics [OF assms, of "map vals [0..<n]" ?init]
    by (simp add: cpu_total_def sum_list_sum_nth atLeast0LessThan)
qed

section \<open>A drain moves totals, it does not lose them\<close>

definition delivered :: "(flow_snapshot \<Rightarrow> u64) \<Rightarrow> flow_snapshot list \<Rightarrow> u64" where
  "delivered f flows = (\<Sum>s\<leftarrow>flows. f s)"

lemma poll_flow_wf [wf_intros]: "agent_wf a \<Longrightarrow> agent_wf (fst (poll_flow n key (a, flows)))"
  by (auto simp: poll_flow_def agent_wf_def intro: wf_delete split: option.split)

lemma poll_quic_flow_wf [wf_intros]: "agent_wf a \<Longrightarrow> agent_wf (fst (poll_quic_flow n key (a, flows)))"
  by (auto simp: poll_quic_flow_def agent_wf_def intro: wf_delete split: option.split)

lemma poll_flow_moves:
  assumes "agent_wf a" and "summed_into g f"
  shows "flow_total n g (fst (poll_flow n key (a, flows))) + delivered f (snd (poll_flow n key (a, flows)))
    = flow_total n g a + delivered f flows"
proof (cases "lookup_flow a key")
  case None
  then show ?thesis by (simp add: poll_flow_def)
next
  case (Some vals)
  have "flow_total n g (fst (poll_flow n key (a, flows))) = flow_total n g a - cpu_total n g vals"
    using Some map_total_delete [of "entries (flow_aggregates a)" key vals "cpu_total n g"] assms(1)
    by (simp add: poll_flow_def flow_total_def lookup_flow_def bpf_map_lookup_elem_def
        bpf_map_delete_elem_def agent_wf_def bmap_wf_def)
  then show ?thesis
    using Some sum_per_cpu_total [OF assms(2), of key vals n]
    by (simp add: poll_flow_def delivered_def)
qed

lemma poll_iterate_moves:
  assumes "agent_wf (fst s)" and "summed_into g f"
  shows "flow_total n g (fst (poll_iterate n keys s)) + delivered f (snd (poll_iterate n keys s))
    = flow_total n g (fst s) + delivered f (snd s)"
  using assms(1)
proof (induction keys arbitrary: s)
  case Nil
  then show ?case by (simp add: poll_iterate_def)
next
  case (Cons key keys)
  obtain a flows where s: "s = (a, flows)" by fastforce
  let ?s = "poll_flow n key s"
  have "agent_wf (fst ?s)" using Cons.prems by (simp add: s poll_flow_wf)
  from Cons.IH [OF this] poll_flow_moves [OF Cons.prems [unfolded s fst_conv] assms(2), of n key flows]
  show ?case by (simp add: poll_iterate_def s)
qed

text \<open>A key is gone after its turn, and no other program runs in between to bring it back.\<close>

lemma poll_flow_lookup:
  "lookup_flow (fst (poll_flow n key (a, flows))) k = (if k = key then None else lookup_flow a k)"
  by (auto simp: poll_flow_def lookup_flow_def split: option.split)

lemma poll_iterate_lookup:
  "lookup_flow (fst (poll_iterate n keys s)) k = (if k \<in> set keys then None else lookup_flow (fst s) k)"
proof (induction keys arbitrary: s)
  case Nil
  then show ?case by (simp add: poll_iterate_def)
next
  case (Cons key keys)
  obtain a flows where s: "s = (a, flows)" by fastforce
  show ?case
    using Cons.IH [of "poll_flow n key s"]
    by (auto simp: poll_iterate_def s poll_flow_lookup)
qed

end
