(* ===== verification/Byte_Ledger.thy ===== *)
theory Byte_Ledger
  imports Agent_System Poller
begin

text \<open>
  Byte accounting across programs. \<open>tally\<close> is what an event is worth to the connection of
  its socket, in terms of the hooked call's arguments alone; \<open>step_connection\<close> shows that the
  programs implement it, \<open>run_connection\<close> that a run of events implements its fold. The second
  half does the same for the flow aggregates: \<open>step_books\<close> shows that every counted byte
  reaches them or is counted as a drop.
\<close>

section \<open>What one event is worth to the connection of its socket\<close>

fun tx_amount :: "kevent \<Rightarrow> conn_info \<Rightarrow> u64" where
  "tx_amount (Tcp_sendmsg ab regs) ci =
     (let size = c_int (PT_REGS_PARM ab 3 regs) in
      if 0 < size \<and> not_sidecar ci then int_to_u64 size else 0)"
| "tx_amount (Tcp_sendmsg_fentry ctx) ci =
     (if 0 < c_int (ctx 2) \<and> not_sidecar ci then ctx 2 else 0)"
| "tx_amount (Udp_sendmsg ctx) ci =
     (if 0 < c_int (ctx 2) \<and> is_udp ci then ctx 2 else 0)"
| "tx_amount _ ci = 0"

fun rx_amount :: "kevent \<Rightarrow> conn_info \<Rightarrow> u64" where
  "rx_amount (Tcp_cleanup_rbuf ab regs) ci =
     (let copied = c_int (PT_REGS_PARM ab 2 regs) in
      if 0 < copied \<and> not_sidecar ci then int_to_u64 copied else 0)"
| "rx_amount (Tcp_cleanup_rbuf_fentry ctx) ci =
     (if 0 < c_int (ctx 1) \<and> not_sidecar ci then int_to_u64 (c_int (ctx 1)) else 0)"
| "rx_amount (Udp_recvmsg_exit ctx) ci =
     (if 0 < c_int (ctx 5) \<and> is_udp ci then int_to_u64 (c_int (ctx 5)) else 0)"
| "rx_amount _ ci = 0"

fun retransmit_amount :: "kevent \<Rightarrow> u32" where
  "retransmit_amount (Tcp_retransmit skb_len) = skb_len"
| "retransmit_amount (Tcp_loss_probe mss_cache) = (if mss_cache = 0 then 1460 else mss_cache)"
| "retransmit_amount _ = 0"

definition tally :: "kevent \<Rightarrow> conn_info \<Rightarrow> conn_info" where
  "tally ev ci = ci
     \<lparr>ci_tx_bytes := ci_tx_bytes ci + tx_amount ev ci,
      ci_rx_bytes := ci_rx_bytes ci + rx_amount ev ci,
      ci_retransmit_bytes := ci_retransmit_bytes ci + ucast (retransmit_amount ev),
      ci_retransmit_count := ci_retransmit_count ci + (if retransmit_amount ev = 0 then 0 else 1)\<rparr>"

text \<open>The sequence of a socket's events, and what they are worth together.\<close>

definition on_socket :: "u64 \<Rightarrow> (kenv \<times> kevent) list \<Rightarrow> kevent list" where
  "on_socket k is = map snd (filter (\<lambda>(e, ev). bpf_get_socket_cookie e = k) is)"

lemma tally_fields [simp]:
  "is_sidecar_socket_cookie c (Some (tally ev ci)) = is_sidecar_socket_cookie c (Some ci)"
  "ci_protocol (tally ev ci) = ci_protocol ci"
  "flow_key_of (tally ev ci) = flow_key_of ci"
  "ci_tx_bytes (tally ev ci) = ci_tx_bytes ci + tx_amount ev ci"
  "ci_rx_bytes (tally ev ci) = ci_rx_bytes ci + rx_amount ev ci"
  "ci_retransmit_bytes (tally ev ci) = ci_retransmit_bytes ci + ucast (retransmit_amount ev)"
  "ci_start_ns (tally ev ci) = ci_start_ns ci"
  "ci_original_dst_ip (tally ev ci) = ci_original_dst_ip ci"
  "ci_original_dst_port (tally ev ci) = ci_original_dst_port ci"
  "ci_pid (tally ev ci) = ci_pid ci"
  by (simp_all add: tally_def flow_key_of_def is_sidecar_socket_cookie_def)

lemma amounts_tally [simp]:
  "tx_amount ev (tally ev' ci) = tx_amount ev ci"
  "rx_amount ev (tally ev' ci) = rx_amount ev ci"
  by (cases ev; simp add: Let_def)+

definition tallied :: "kevent list \<Rightarrow> conn_info \<Rightarrow> conn_info" where
  "tallied evs ci = fold tally evs ci"

lemma tallied_simps [simp]: "tallied [] ci = ci" "tallied (ev # evs) ci = tallied evs (tally ev ci)"
  by (simp_all add: tallied_def)

lemma tallied_fields:
  "flow_key_of (tallied evs ci) = flow_key_of ci"
  "ci_tx_bytes (tallied evs ci) = ci_tx_bytes ci + (\<Sum>ev\<leftarrow>evs. tx_amount ev ci)"
  "ci_rx_bytes (tallied evs ci) = ci_rx_bytes ci + (\<Sum>ev\<leftarrow>evs. rx_amount ev ci)"
  "ci_retransmit_bytes (tallied evs ci) = ci_retransmit_bytes ci + (\<Sum>ev\<leftarrow>evs. ucast (retransmit_amount ev))"
  "ci_start_ns (tallied evs ci) = ci_start_ns ci"
  "ci_original_dst_ip (tallied evs ci) = ci_original_dst_ip ci"
  "ci_original_dst_port (tallied evs ci) = ci_original_dst_port ci"
  "ci_pid (tallied evs ci) = ci_pid ci"
  by (induction evs arbitrary: ci) (simp_all add: add.assoc)

section \<open>Events that leave a connection in the table\<close>

text \<open>
  Not an event that ends it: no eviction of it, no new establish on its socket, not its
  transition to \<open>TCP_CLOSE\<close>, not the release of a non-TCP socket.
\<close>

fun keeps :: "u64 \<Rightarrow> kenv \<times> kevent \<Rightarrow> bool" where
  "keeps k (e, Connect4 ctx) = (k \<notin> set (lru_victims e M_connections))"
| "keeps k (e, Sockops s) = (k \<notin> set (lru_victims e M_connections) \<and>
     (bpf_get_socket_cookie e = k \<longrightarrow>
        so_op s \<noteq> BPF_SOCK_OPS_ACTIVE_ESTABLISHED_CB \<and>
        so_op s \<noteq> BPF_SOCK_OPS_PASSIVE_ESTABLISHED_CB \<and>
        \<not> (so_op s = BPF_SOCK_OPS_STATE_CB \<and> sint (so_args1 s) = TCP_CLOSE)))"
| "keeps k (e, Sock_release protocol) = (bpf_get_socket_cookie e = k \<longrightarrow> protocol = IPPROTO_TCP)"
| "keeps k _ = True"

lemma connect4_keeps:
  assumes "k \<notin> set (lru_victims e M_connections)" and "lookup_connection a k = Some ci"
  shows "lookup_connection (snd (tollwing_connect4 e ctx a)) k = Some ci"
proof -
  have "lookup_connection (update_connections e BPF_NOEXIST (bpf_get_socket_cookie e) v a') k = Some ci"
    if "lookup_connection a' k = Some ci" for v a'
    using that assms(1) update_connections_noexist [of a' k ci e v]
      update_connections_other [of k "bpf_get_socket_cookie e" e BPF_NOEXIST v a']
    by (cases "k = bpf_get_socket_cookie e") auto
  moreover have "lookup_connection (update_cookie e fl c v a) k = Some ci" for fl c v
    using assms(2) by (simp add: lookup_connection_def)
  ultimately show ?thesis
    using assms(2)
    by (auto simp: tollwing_connect4_def Let_def lookup_connection_cong [of "emit_event e ev b" b for ev b]
        split: option.split)
qed

lemma sockops_keeps:
  assumes "keeps k (e, Sockops s)" and "lookup_connection a k = Some ci"
  shows "lookup_connection (snd (tollwing_sockops e s a)) k = Some ci"
  using assms handle_established_other [of k e] state_change_other [of k e s a] state_change_ignored [of s e a]
  by (cases "k = bpf_get_socket_cookie e")
    (auto simp: tollwing_sockops_def split: option.split)

text \<open>One event: the connection of its socket is tallied, every other stays as it is.\<close>

lemma step_connection:
  assumes "keeps k (e, ev)" and "lookup_connection a k = Some ci"
  shows "lookup_connection (step (e, ev) a) k =
    Some (if bpf_get_socket_cookie e = k \<and> get_config a \<noteq> None then tally ev ci else ci)"
proof (cases ev)
  case (Connect4 ctx)
  then show ?thesis using assms connect4_keeps [of k e a ci ctx] by (simp add: tally_def)
next
  case (Connect6 ctx)
  then show ?thesis using assms(2)
    by (simp add: tally_def tollwing_connect6_def Let_def lookup_connection_def split: option.split)
next
  case (Sockops s)
  then show ?thesis using assms sockops_keeps [of k e s a ci] by (simp add: tally_def)
next
  case (Sock_release p)
  then show ?thesis using assms
    by (auto simp: tally_def tollwing_sock_release_def Let_def lookup_connection_def delete_connection_def)
next
  case (Dns_recvmsg d)
  then show ?thesis using assms(2) by (simp add: tally_def lookup_connection_def dns_frame)
next
  case (Quic_egress pkt)
  then show ?thesis using assms(2)
    by (auto simp: tally_def intro: step_quic [of e pkt a] simp: lookup_connection_def record_quic_frame)
next
  case (Tcp_sendmsg ab regs)
  then show ?thesis using assms(2) tcp_sendmsg.lookup_after_hook [of e "(ab, regs)" a k]
    by (auto simp: tally_def add_tx_def Let_def)
next
  case (Tcp_cleanup_rbuf ab regs)
  then show ?thesis using assms(2) tcp_cleanup_rbuf.lookup_after_hook [of e "(ab, regs)" a k]
    by (auto simp: tally_def add_rx_def Let_def)
next
  case (Tcp_sendmsg_fentry ctx)
  then show ?thesis using assms(2) tcp_sendmsg_fentry.lookup_after_hook [of e ctx a k]
    by (auto simp: tally_def add_tx_def)
next
  case (Tcp_cleanup_rbuf_fentry ctx)
  then show ?thesis using assms(2) tcp_cleanup_rbuf_fentry.lookup_after_hook [of e ctx a k]
    by (auto simp: tally_def add_rx_def)
next
  case (Udp_sendmsg ctx)
  then show ?thesis using assms(2) udp_sendmsg.lookup_after_hook [of e ctx a k]
    by (auto simp: tally_def add_tx_def)
next
  case (Udp_recvmsg_exit ctx)
  then show ?thesis using assms(2) udp_recvmsg_exit.lookup_after_hook [of e ctx a k]
    by (auto simp: tally_def add_rx_def)
next
  case (Tcp_retransmit skb_len)
  then show ?thesis using assms(2) tcp_retransmit.lookup_after_hook [of e skb_len a k]
    by (auto simp: tally_def add_retransmit_def)
next
  case (Tcp_loss_probe mss)
  then show ?thesis using assms(2) tcp_loss_probe.lookup_after_hook [of e mss a k]
    by (auto simp: tally_def add_retransmit_def)
qed

lemma step_config [simp]: "agent_config_map (step i a) = agent_config_map a"
proof (cases i)
  case (Pair e ev)
  show ?thesis
  proof (cases ev)
    case (Quic_egress pkt)
    show ?thesis
      by (rule step_quic [of e pkt a]) (simp_all add: Pair Quic_egress record_quic_frame)
  qed (simp_all add: Pair tollwing_connect4_def tollwing_connect6_def tollwing_sockops_def
      tollwing_sock_release_def Let_def dns_frame
      tcp_sendmsg.config_kept [of e "(ab, regs)" for ab regs, simplified]
      tcp_cleanup_rbuf.config_kept [of e "(ab, regs)" for ab regs, simplified]
      tcp_sendmsg_fentry.config_kept tcp_cleanup_rbuf_fentry.config_kept udp_sendmsg.config_kept
      udp_recvmsg_exit.config_kept tcp_retransmit.config_kept tcp_loss_probe.config_kept
      split: option.split)
qed

lemma kernel_run_config: "get_config (fold step is a) = get_config a"
proof (induction "is" arbitrary: a)
  case (Cons i "is")
  then show ?case using get_config_cong [of "step i a" a] by simp
qed simp

lemma run_connection:
  assumes "\<forall>i \<in> set is. keeps k i" and "lookup_connection a k = Some ci" and "get_config a \<noteq> None"
  shows "lookup_connection (fold step is a) k = Some (tallied (on_socket k is) ci)"
  using assms
proof (induction "is" arbitrary: a ci)
  case Nil
  then show ?case by (simp add: on_socket_def)
next
  case (Cons i "is")
  obtain e ev where i: "i = (e, ev)" by fastforce
  let ?a = "step i a" and ?ci = "if bpf_get_socket_cookie e = k then tally ev ci else ci"
  have "lookup_connection ?a k = Some ?ci"
    using step_connection [of k e ev a ci] Cons.prems by (simp add: i)
  moreover have "get_config ?a \<noteq> None"
    using Cons.prems(3) get_config_cong [of ?a a] by simp
  ultimately have "lookup_connection (fold step is ?a) k = Some (tallied (on_socket k is) ?ci)"
    using Cons.IH Cons.prems(1) by simp
  then show ?case by (simp add: on_socket_def i)
qed

section \<open>The flow aggregates account for every counted byte\<close>

lemma handle_established_booked:
  assumes wf: "agent_wf a" and cpu: "smp_processor_id e < n" and zero: "other_cpus_zero e"
    and g: "g zero_flow_metrics = 0" "\<And>m c t. g (m\<lparr>fm_conn_count := c, fm_last_updated_ns := t\<rparr>) = g m"
  shows "flow_booked n g 0 a (handle_established e s d a)"
proof -
  define co where "co = fst (correlate e d a)"
  define a4 where "a4 = snd (detect_sidecar e s (bpf_sock_ops_cb_flags_set e s
    (so_bpf_sock_ops_cb_flags s OR BPF_SOCK_OPS_STATE_CB_FLAG)
    (update_connections e BPF_ANY (bpf_get_socket_cookie e) (established_conn e s d co)
      (snd (correlate e d a)))))"
  have "agent_wf a4"
    using correlate_wf [OF wf, of e d] by (simp add: a4_def wf_intros)
  from seed_flow_booked [where g = g, OF this cpu zero g]
  have "flow_booked n g 0 a4 (seed_flow e s d (established_conn e s d co) a4)" .
  moreover have "handle_established e s d a =
      emit_event e (Establish (establish_event_of e s d co)) (seed_flow e s d (established_conn e s d co) a4)"
    by (simp add: handle_established_def Let_def split_beta co_def a4_def)
  ultimately show ?thesis
    by (simp add: emit_event_drops [OF cpu] flow_booked_cong a4_def)
qed

definition tx_credit :: "kenv \<times> kevent \<Rightarrow> agent \<Rightarrow> u64" where
  "tx_credit i a = (case lookup_connection a (bpf_get_socket_cookie (fst i)) of
     None \<Rightarrow> 0 | Some ci \<Rightarrow> if get_config a = None then 0 else tx_amount (snd i) ci)"

text \<open>
  On the receive side \<open>fexit/udp_recvmsg\<close> adds only to a flow entry that is there.
\<close>

definition rx_credit :: "kenv \<times> kevent \<Rightarrow> agent \<Rightarrow> u64" where
  "rx_credit i a = (case lookup_connection a (bpf_get_socket_cookie (fst i)) of
     None \<Rightarrow> 0
   | Some ci \<Rightarrow>
       if get_config a = None then 0
       else if (\<exists>ctx. snd i = Udp_recvmsg_exit ctx) \<and> lookup_flow a (flow_key_of ci) = None then 0
       else rx_amount (snd i) ci)"

lemma connect_drops [simp]:
  assumes "smp_processor_id e < n" "s \<noteq> DROP_SLOT_EVENTS_RINGBUF"
  shows "drops n s (snd (tollwing_connect4 e ctx a)) = drops n s a"
    and "drops n s (snd (tollwing_connect6 e ctx a)) = drops n s a"
    and "drops n s (handle_state_change e sk a) = drops n s a"
    and "drops n s (snd (tollwing_sock_release e p a)) = drops n s a"
  using emit_event_drops [OF assms] 
  by (auto simp: tollwing_connect4_def tollwing_connect6_def handle_state_change_def
      tollwing_sock_release_def Let_def
      drops_cong [of "update_cookie e fl k v b" b for fl k v b]
      drops_cong [of "update_connections e fl k v b" b for fl k v b]
      drops_cong [of "delete_connection k b" b for k b] drops_cong [of "delete_cookie k b" b for k b]
      split: option.split)

lemma other_drops [simp]:
  assumes "smp_processor_id e < n"
  shows "s \<noteq> DROP_SLOT_DNS_RINGBUF \<Longrightarrow> drops n s (snd (tollwing_dns_recvmsg e d a)) = drops n s a"
    and "s \<noteq> DROP_SLOT_QUIC_FLOWS \<Longrightarrow> drops n s (record_quic e key v h m a) = drops n s a"
  using drops_count_drop [OF assms, of s DROP_SLOT_DNS_RINGBUF a]
    drops_count_drop [OF assms, of s DROP_SLOT_QUIC_FLOWS "a\<lparr>quic_flows := x\<rparr>" for x]
  by (auto simp: tollwing_dns_recvmsg_def record_quic_def Let_def drops_cong [of "a\<lparr>quic_flows := x\<rparr>" a for x]
      drops_cong [of "a\<lparr>dns_events := x\<rparr>" a for x] split: option.split prod.split)

lemma connect_flows [simp]:
  "flow_aggregates (snd (tollwing_connect4 e ctx a)) = flow_aggregates a"
  "flow_aggregates (snd (tollwing_connect6 e ctx a)) = flow_aggregates a"
  "flow_aggregates (snd (tollwing_sock_release e p a)) = flow_aggregates a"
  by (simp_all add: tollwing_connect4_def tollwing_connect6_def tollwing_sock_release_def Let_def
      split: option.split)

lemma sockops_booked:
  assumes "agent_wf a" "smp_processor_id e < n" "other_cpus_zero e"
    and "g zero_flow_metrics = 0" "\<And>m c t. g (m\<lparr>fm_conn_count := c, fm_last_updated_ns := t\<rparr>) = g m"
  shows "flow_booked n g 0 a (snd (tollwing_sockops e s a))"
  using handle_established_booked [where g = g, OF assms] assms(2)
  by (auto simp: tollwing_sockops_def intro!: flow_booked_nothing split: option.split)

lemma c_int_zero [simp]: "c_int 0 = 0"
  by (simp add: c_int_def)

lemma step_books:
  assumes wf: "agent_wf a" and cpu: "smp_processor_id e < n" and zero: "other_cpus_zero e"
  shows "flow_booked n fm_tx_bytes (tx_credit (e, ev) a) a (step (e, ev) a)"
    and "flow_booked n fm_rx_bytes (rx_credit (e, ev) a) a (step (e, ev) a)"
proof -
  note same = flow_booked_nothing [where b = a and a = a, OF refl refl]
  note counted = counted_booked [OF wf cpu zero] 
  have tx0: "flow_booked n fm_tx_bytes 0 a (update_flow_aggregate e c 0 r (write_connection k c a))"
    if "lookup_connection a k = Some ci" for k ci c r
    using counted(1) [OF that, of 0] by simp
  have "flow_booked n fm_tx_bytes (tx_credit (e, ev) a) a (step (e, ev) a) \<and>
        flow_booked n fm_rx_bytes (rx_credit (e, ev) a) a (step (e, ev) a)"
  proof (cases ev)
    case (Sockops s)
    then show ?thesis
      using sockops_booked [where g = fm_tx_bytes, OF assms, of s]
        sockops_booked [where g = fm_rx_bytes, OF assms, of s]
      by (simp add: tx_credit_def rx_credit_def zero_flow_metrics_def split: option.split)
  next
    case (Quic_egress pkt)
    show ?thesis
      by (rule step_quic [of e pkt a])
        (auto simp: Quic_egress tx_credit_def rx_credit_def cpu record_quic_frame
          intro!: flow_booked_nothing split: option.split)
  next
    case (Udp_recvmsg_exit ctx)
    have rx: "flow_booked n fm_rx_bytes (if lookup_flow a fk = None then 0 else d) a
        (bump_flow e fk (\<lambda>val. val\<lparr>fm_rx_bytes := fm_rx_bytes val + d\<rparr>) (write_connection k c a))"
      if "lookup_connection a k = Some ci" for k ci fk c d
      by (rule bumped_booked [OF wf cpu that]) simp_all
    have rx_none: "flow_booked n fm_rx_bytes 0 a
        (bump_flow e fk (\<lambda>val. val\<lparr>fm_rx_bytes := fm_rx_bytes val + d\<rparr>) (write_connection k c a))"
      if "lookup_connection a k = Some ci" "lookup_flow a fk = None" for k ci fk c d
      using rx [OF that(1), of fk d c] that(2) by simp
    have rx_some: "flow_booked n fm_rx_bytes d a
        (bump_flow e fk (\<lambda>val. val\<lparr>fm_rx_bytes := fm_rx_bytes val + d\<rparr>) (write_connection k c a))"
      if "lookup_connection a k = Some ci" "lookup_flow a fk = Some y" for k ci fk c d y
      using rx [OF that(1), of fk d c] that(2) by simp
    show ?thesis
      using bumped_booked [where g = fm_tx_bytes and d = 0, OF wf cpu] rx_none rx_some
      by (auto simp: Udp_recvmsg_exit tx_credit_def rx_credit_def byte_hook_simps nth_bpf_ctx_cast
          get_config_def same split: option.split)
  next
    case (Tcp_retransmit len)
    show ?thesis
      using bumped_booked [where g = fm_rx_bytes and d = 0, OF wf cpu]
        bumped_booked [where g = fm_tx_bytes and d = 0, OF wf cpu] 
      by (auto simp: Tcp_retransmit tx_credit_def rx_credit_def byte_hook_simps bump_retransmit_def
          same split: option.split)
  next
    case (Tcp_loss_probe len)
    show ?thesis
      using bumped_booked [where g = fm_rx_bytes and d = 0, OF wf cpu]
        bumped_booked [where g = fm_tx_bytes and d = 0, OF wf cpu] 
      by (auto simp: Tcp_loss_probe tx_credit_def rx_credit_def byte_hook_simps bump_retransmit_def
          same split: option.split)
  qed (auto simp: tx_credit_def rx_credit_def byte_hook_simps nth_bpf_ctx_cast dns_frame cpu
      same counted tx0 intro!: flow_booked_nothing split: option.split)
  then show "flow_booked n fm_tx_bytes (tx_credit (e, ev) a) a (step (e, ev) a)"
    and "flow_booked n fm_rx_bytes (rx_credit (e, ev) a) a (step (e, ev) a)" by auto
qed

end
