(* ===== verification/Agent_Runs.thy ===== *)
theory Agent_Runs
  imports Byte_Ledger
begin

text \<open>
  The system as a whole: the programs of the kernel, the poller and the loader acting on the
  same maps, as a step function on events and the set of reachable states, with the invariants
  that hold in all of them: where the entries of the connection table come from, what they,
  the flow keys and the ring-buffer records look like.
\<close>

section \<open>Where the entries of the connection table come from\<close>

lemma update_connections_origin:
  "lookup_connection (update_connections e fl k v a) j = Some w \<Longrightarrow>
    lookup_connection a j = Some w \<or> j = k \<and> w = v"
  unfolding lookup_connection_def update_connections_def
  using lru.no_invention by fastforce

definition new_connection :: "kenv \<Rightarrow> kevent \<Rightarrow> agent \<Rightarrow> conn_info \<Rightarrow> bool" where
  "new_connection e ev a ci \<longleftrightarrow>
     (\<exists>ctx. ev = Connect4 ctx \<and> connect_selected e ctx a = Some IPPROTO_UDP \<and> ci = connect4_udp_conn e ctx)
   \<or> (\<exists>s d. ev = Sockops s \<and> get_config a \<noteq> None \<and>
        (d = 0 \<and> so_op s = BPF_SOCK_OPS_ACTIVE_ESTABLISHED_CB \<or>
         d = 1 \<and> so_op s = BPF_SOCK_OPS_PASSIVE_ESTABLISHED_CB) \<and>
        ci = established_conn e s d (fst (correlate e d a)))"

lemma connect4_origin:
  assumes "lookup_connection (snd (tollwing_connect4 e ctx a)) k = Some ci"
  shows "lookup_connection a k = Some ci \<or>
    k = bpf_get_socket_cookie e \<and> new_connection e (Connect4 ctx) a ci"
proof (cases "connect_selected e ctx a")
  case None
  then show ?thesis using assms by (simp add: tollwing_connect4_def)
next
  case (Some proto)
  let ?a = "update_cookie e BPF_ANY (bpf_get_socket_cookie e) (connect4_dst e ctx) a"
  have same: "lookup_connection ?a k = lookup_connection a k" by (simp add: lookup_connection_def)
  show ?thesis
  proof (cases "proto = IPPROTO_UDP")
    case True
    then have "lookup_connection (update_connections e BPF_NOEXIST (bpf_get_socket_cookie e)
        (connect4_udp_conn e ctx) ?a) k = Some ci"
      using assms Some by (simp add: tollwing_connect4_def Let_def lookup_connection_def)
    then show ?thesis
      using update_connections_origin same Some True by (fastforce simp: new_connection_def)
  next
    case False
    then show ?thesis
      using assms Some by (simp add: tollwing_connect4_def Let_def lookup_connection_def)
  qed
qed

lemma handle_established_origin:
  assumes "lookup_connection (handle_established e s d a) k = Some ci"
  shows "lookup_connection a k = Some ci \<or>
    k = bpf_get_socket_cookie e \<and> ci = established_conn e s d (fst (correlate e d a))"
proof -
  let ?a = "snd (correlate e d a)"
  have "lookup_connection (update_connections e BPF_ANY (bpf_get_socket_cookie e)
      (established_conn e s d (fst (correlate e d a))) ?a) k = Some ci"
    using assms by (simp add: handle_established_def Let_def split_beta lookup_connection_def)
  moreover have "lookup_connection ?a k = lookup_connection a k" by (simp add: lookup_connection_def)
  ultimately show ?thesis using update_connections_origin by fastforce
qed

lemma state_change_origin:
  "lookup_connection (handle_state_change e s a) k = Some ci \<Longrightarrow> lookup_connection a k = Some ci"
  by (auto simp: handle_state_change_def Let_def lookup_connection_def delete_connection_def
      split: if_splits option.splits)

lemma sockops_origin:
  assumes "lookup_connection (snd (tollwing_sockops e s a)) k = Some ci"
  shows "lookup_connection a k = Some ci \<or>
    k = bpf_get_socket_cookie e \<and> new_connection e (Sockops s) a ci"
proof -
  have "lookup_connection a k = Some ci \<or> k = bpf_get_socket_cookie e \<and>
      (\<exists>d. get_config a \<noteq> None \<and> (d = 0 \<and> so_op s = BPF_SOCK_OPS_ACTIVE_ESTABLISHED_CB \<or>
         d = 1 \<and> so_op s = BPF_SOCK_OPS_PASSIVE_ESTABLISHED_CB) \<and>
        ci = established_conn e s d (fst (correlate e d a)))"
    using assms handle_established_origin [of e s 0 a k ci] handle_established_origin [of e s 1 a k ci]
      state_change_origin [of e s a k ci]
    by (auto simp: tollwing_sockops_def split: option.splits if_splits)
  then show ?thesis by (auto simp: new_connection_def)
qed

text \<open>Every entry was there, is the tally of the entry that was there, or is new on the event's socket.\<close>

lemma step_origin:
  assumes "lookup_connection (step (e, ev) a) k = Some ci"
  shows "(\<exists>ci0. lookup_connection a k = Some ci0 \<and> (ci = ci0 \<or> ci = tally ev ci0)) \<or>
    k = bpf_get_socket_cookie e \<and> new_connection e ev a ci"
proof -
  have byte: ?thesis if "keeps k (e, ev)" "lookup_connection a k \<noteq> None"
    using that step_connection [of k e ev a] assms by (auto split: if_splits)
  show ?thesis
  proof (cases ev)
    case (Connect4 ctx)
    then show ?thesis using assms connect4_origin [of e ctx a k ci] by auto
  next
    case (Sockops s)
    then show ?thesis using assms sockops_origin [of e s a k ci] by auto
  next
    case (Sock_release p)
    then show ?thesis
      using assms by (auto simp: tollwing_sock_release_def Let_def lookup_connection_def
          delete_connection_def split: if_splits)
  next
    case (Connect6 ctx)
    then show ?thesis
      using assms by (auto simp: tollwing_connect6_def Let_def lookup_connection_def split: option.splits)
  next
    case (Dns_recvmsg d)
    then show ?thesis using assms by (simp add: lookup_connection_def dns_frame)
  next
    case (Quic_egress pkt)
    have "lookup_connection a k = Some ci"
      by (rule step_quic [of e pkt a])
        (use assms in \<open>simp_all add: Quic_egress lookup_connection_def record_quic_frame\<close>)
    then show ?thesis by blast
  next
    case (Tcp_sendmsg ab regs)
    then show ?thesis using assms tcp_sendmsg.present [of e "(ab, regs)" a k] by (intro byte) auto
  next
    case (Tcp_cleanup_rbuf ab regs)
    then show ?thesis using assms tcp_cleanup_rbuf.present [of e "(ab, regs)" a k] by (intro byte) auto
  next
    case (Tcp_sendmsg_fentry c)
    then show ?thesis using assms tcp_sendmsg_fentry.present [of e c a k] by (intro byte) auto
  next
    case (Tcp_cleanup_rbuf_fentry c)
    then show ?thesis using assms tcp_cleanup_rbuf_fentry.present [of e c a k] by (intro byte) auto
  next
    case (Udp_sendmsg c)
    then show ?thesis using assms udp_sendmsg.present [of e c a k] by (intro byte) auto
  next
    case (Udp_recvmsg_exit c)
    then show ?thesis using assms udp_recvmsg_exit.present [of e c a k] by (intro byte) auto
  next
    case (Tcp_retransmit c)
    then show ?thesis using assms tcp_retransmit.present [of e c a k] by (intro byte) auto
  next
    case (Tcp_loss_probe c)
    then show ?thesis using assms tcp_loss_probe.present [of e c a k] by (intro byte) auto
  qed
qed

section \<open>The system: programs, poller and loader\<close>

text \<open>
  What happens to the maps: a program runs, the poller takes a key, the loader pushes a
  configuration or toggles the enabled flag. The second component is what the poller has
  delivered.
\<close>

datatype sys_event =
  Kernel kenv kevent
| Poll_flow flow_key
| Poll_quic_flow quic_flow_key
| Push_config bool bool u8 bool u64
| Set_enabled bool

type_synonym system = "agent \<times> flow_snapshot list"

fun sys_step :: "nat \<Rightarrow> sys_event \<Rightarrow> system \<Rightarrow> system" where
  "sys_step n (Kernel e ev) (a, fl) = (step (e, ev) a, fl)"
| "sys_step n (Poll_flow key) s = poll_flow n key s"
| "sys_step n (Poll_quic_flow key) s = poll_quic_flow n key s"
| "sys_step n (Push_config en udp rate att agg) (a, fl) = (push_config en udp rate att agg a, fl)"
| "sys_step n (Set_enabled en) (a, fl) = (set_enabled en a, fl)"

text \<open>A program runs on one of the \<open>n\<close> CPUs, and new per-CPU entries start at zero on the others.\<close>

fun possible :: "nat \<Rightarrow> sys_event \<Rightarrow> bool" where
  "possible n (Kernel e ev) \<longleftrightarrow> smp_processor_id e < n \<and> other_cpus_zero e"
| "possible n _ \<longleftrightarrow> True"

inductive reachable :: "nat \<Rightarrow> system \<Rightarrow> bool" for n where
  boot: "reachable n (boot_agent sizes cfg, [])"
| move: "reachable n s \<Longrightarrow> possible n ev \<Longrightarrow> reachable n (sys_step n ev s)"

inductive_cases reachable_cases: "reachable n s"

lemma reachable_run:
  "reachable n s \<Longrightarrow> \<forall>ev \<in> set evs. possible n ev \<Longrightarrow> reachable n (fold (sys_step n) evs s)"
  by (induction evs arbitrary: s) (simp_all add: reachable.move)

section \<open>Invariants of the reachable states\<close>

lemma set_config_frame [simp]:
  "connections (push_config en udp rate att agg a) = connections a"
  "flow_aggregates (push_config en udp rate att agg a) = flow_aggregates a"
  "quic_flows (push_config en udp rate att agg a) = quic_flows a"
  "events (push_config en udp rate att agg a) = events a"
  "dns_events (push_config en udp rate att agg a) = dns_events a"
  "drop_counters (push_config en udp rate att agg a) = drop_counters a"
  "agent_wf (push_config en udp rate att agg a) = agent_wf a"
  "connections (set_enabled en a) = connections a"
  "flow_aggregates (set_enabled en a) = flow_aggregates a"
  "quic_flows (set_enabled en a) = quic_flows a"
  "events (set_enabled en a) = events a"
  "dns_events (set_enabled en a) = dns_events a"
  "drop_counters (set_enabled en a) = drop_counters a"
  "agent_wf (set_enabled en a) = agent_wf a"
  by (simp_all add: push_config_def set_enabled_def split: option.split)

lemma poll_frame [simp]:
  "connections (fst (poll_flow n key s)) = connections (fst s)"
  "events (fst (poll_flow n key s)) = events (fst s)"
  "dns_events (fst (poll_flow n key s)) = dns_events (fst s)"
  "drop_counters (fst (poll_flow n key s)) = drop_counters (fst s)"
  "quic_flows (fst (poll_flow n key s)) = quic_flows (fst s)"
  "agent_config_map (fst (poll_flow n key s)) = agent_config_map (fst s)"
  "connections (fst (poll_quic_flow n qk s)) = connections (fst s)"
  "events (fst (poll_quic_flow n qk s)) = events (fst s)"
  "dns_events (fst (poll_quic_flow n qk s)) = dns_events (fst s)"
  "drop_counters (fst (poll_quic_flow n qk s)) = drop_counters (fst s)"
  "flow_aggregates (fst (poll_quic_flow n qk s)) = flow_aggregates (fst s)"
  "agent_config_map (fst (poll_quic_flow n qk s)) = agent_config_map (fst s)"
  by (simp_all add: poll_flow_def poll_quic_flow_def split: option.split prod.split)

lemma sys_step_wf: "agent_wf (fst s) \<Longrightarrow> agent_wf (fst (sys_step n ev s))"
  by (cases s; cases ev) (simp_all add: step_wf poll_flow_wf poll_quic_flow_wf)

interpretation system: kept_by_steps "sys_step n" "\<lambda>s. agent_wf (fst s)" "\<lambda>_. True"
  by unfold_locales (rule sys_step_wf)

lemma reachable_wf: "reachable n s \<Longrightarrow> agent_wf (fst s)"
  by (induction rule: reachable.induct) (simp_all add: sys_step_wf)

text \<open>The shape of the connections.\<close>

definition conn_shape :: "conn_info \<Rightarrow> bool" where
  "conn_shape ci \<longleftrightarrow> ci_state ci = 1 \<and>
     (ci_protocol ci = IPPROTO_TCP \<and> ci_direction ci \<in> {0, 1} \<or>
      ci_protocol ci = IPPROTO_UDP \<and> ci_direction ci = 0 \<and> ci_src_ip ci = 0 \<and>
        ci_src_port ci = 0 \<and> ci_dst_ip ci = ci_original_dst_ip ci \<and>
        ci_dst_port ci = ci_original_dst_port ci)"

definition conns_ok :: "agent \<Rightarrow> bool" where
  "conns_ok a \<longleftrightarrow> (\<forall>k ci. lookup_connection a k = Some ci \<longrightarrow> conn_shape ci)"

lemma conn_shape_tally: "conn_shape ci \<Longrightarrow> conn_shape (tally ev ci)"
  by (simp add: conn_shape_def tally_def)

lemma conn_shape_established: "d \<in> {0, 1} \<Longrightarrow> conn_shape (established_conn e s d co)"
  by (simp add: conn_shape_def established_conn_fields) (simp add: established_conn_def Let_def)

lemma conn_shape_udp: "conn_shape (connect4_udp_conn e ctx)"
  by (simp add: conn_shape_def connect4_udp_conn_def zero_conn_info_def Let_def)

lemma conn_shape_new: "new_connection e ev a ci \<Longrightarrow> conn_shape ci"
  by (auto simp: new_connection_def conn_shape_udp conn_shape_established)

lemma step_conns_ok: "conns_ok a \<Longrightarrow> conns_ok (step i a)"
  unfolding conns_ok_def
proof (intro allI impI)
  fix k ci assume ok: "\<forall>k ci. lookup_connection a k = Some ci \<longrightarrow> conn_shape ci" and "lookup_connection (step i a) k = Some ci"
  with step_origin [of "fst i" "snd i" a k ci] show "conn_shape ci"
    using conn_shape_tally conn_shape_new by auto
qed

text \<open>The keys of the flow aggregates, whose padding takes part in the hash.\<close>

definition key_shape :: "flow_key \<Rightarrow> bool" where
  "key_shape k \<longleftrightarrow> fk_pad k = 0 \<and>
     (fk_protocol k = IPPROTO_TCP \<and> fk_direction k \<in> {0, 1} \<or>
      fk_protocol k = IPPROTO_UDP \<and> fk_direction k = 0)"

definition flows_ok :: "agent \<Rightarrow> bool" where
  "flows_ok a \<longleftrightarrow> (\<forall>k. lookup_flow a k \<noteq> None \<longrightarrow> key_shape k)"

lemma key_shape_of: "conn_shape ci \<Longrightarrow> key_shape (flow_key_of ci)"
  by (auto simp: conn_shape_def key_shape_def flow_key_of_def zero_flow_key_def)

lemma write_flow_keys:
  "lookup_flow a k = Some vals \<Longrightarrow> flows_ok a \<Longrightarrow> flows_ok (write_flow e k vals fm a)"
  by (auto simp: flows_ok_def lookup_flow_def write_flow_def)

lemma insert_flow_keys:
  assumes "flows_ok a" and "key_shape k"
  shows "flows_ok (insert_flow e k fm a)"
proof -
  let ?m = "snd (hash_update (map_grant e M_flow_aggregates) BPF_NOEXIST k
    ((other_cpus_flow e)(smp_processor_id e := fm)) (flow_aggregates a))"
  have "flow_aggregates (insert_flow e k fm a) = ?m"
    by (simp add: insert_flow_def split: prod.split option.split)
  moreover have "key_shape j" if "bpf_map_lookup_elem ?m j = Some w" for j w
    using hash.no_invention [OF that] assms by (auto simp: flows_ok_def lookup_flow_def)
  ultimately show ?thesis by (auto simp: flows_ok_def lookup_flow_def)
qed

lemma flows_ok_cong: "flow_aggregates b = flow_aggregates a \<Longrightarrow> flows_ok b = flows_ok a"
  by (simp add: flows_ok_def lookup_flow_def)

lemma update_flow_keys: "flows_ok a \<Longrightarrow> conn_shape ci \<Longrightarrow> flows_ok (update_flow_aggregate e ci t r a)"
  by (auto simp: update_flow_aggregate_def Let_def key_shape_of write_flow_keys insert_flow_keys
      split: option.split)

lemma bump_flow_keys: "flows_ok a \<Longrightarrow> flows_ok (bump_flow e k f a)"
  by (auto simp: bump_flow_def write_flow_keys split: option.split)

lemma seed_flow_keys:
  assumes "flows_ok a" and "d \<in> {0, 1}"
  shows "flows_ok (seed_flow e s d (established_conn e s d co) a)"
proof -
  have "key_shape (flow_key_of (established_conn e s d co))"
    by (rule key_shape_of [OF conn_shape_established [OF assms(2)]])
  then show ?thesis
    using assms(1) by (auto simp: seed_flow_def Let_def seed_flow_key [symmetric] write_flow_keys
        insert_flow_keys split: option.split)
qed

lemma handle_established_keys:
  assumes "flows_ok a" and "d \<in> {0, 1}"
  shows "flows_ok (handle_established e s d a)"
proof -
  let ?co = "fst (correlate e d a)"
  have "flows_ok (seed_flow e s d (established_conn e s d ?co) b)" if "flow_aggregates b = flow_aggregates a" for b
    using seed_flow_keys [OF _ assms(2)] flows_ok_cong [OF that] assms(1) by blast
  then show ?thesis
    by (simp add: handle_established_def Let_def split_beta flows_ok_cong [of "emit_event e ev b" b for ev b])
qed

lemma sockops_keys: "flows_ok a \<Longrightarrow> flows_ok (snd (tollwing_sockops e s a))"
  using handle_established_keys [of a 0 e s] handle_established_keys [of a 1 e s]
    flows_ok_cong [of "handle_state_change e s a" a]
  by (simp add: tollwing_sockops_def split: option.split)

lemma step_flows_ok:
  assumes "conns_ok a" and "flows_ok a"
  shows "flows_ok (step (e, ev) a)"
proof -
  have written: "flows_ok (write_connection k ci a)" for k ci
    using assms(2) flows_ok_cong [of "write_connection k ci a" a] by simp
  have shape: "conn_shape (add_tx m ci)" "conn_shape (add_rx m ci)"
    if "lookup_connection a k = Some ci" for k m ci
    using that assms(1) by (auto simp: conns_ok_def conn_shape_def add_tx_def add_rx_def)
  show ?thesis
  proof (cases ev)
    case (Quic_egress pkt)
    show ?thesis
      by (rule step_quic [of e pkt a])
        (use assms Quic_egress in \<open>simp_all add: record_quic_frame flows_ok_cong [of "record_quic e x v h m a" a for x v h m]\<close>)
  next
    case (Sockops s)
    then show ?thesis using assms(2) by (simp add: sockops_keys)
  next
    case (Dns_recvmsg d)
    then show ?thesis using assms(2) flows_ok_cong [OF dns_frame(3)] by simp
  next
    case (Connect4 ctx)
    then show ?thesis using assms(2) flows_ok_cong [OF connect_flows(1)] by simp
  next
    case (Connect6 ctx)
    then show ?thesis using assms(2) flows_ok_cong [OF connect_flows(2)] by simp
  next
    case (Sock_release p)
    then show ?thesis using assms(2) flows_ok_cong [OF connect_flows(3)] by simp
  qed (auto simp: byte_hook_simps assms(2) written shape update_flow_keys bump_flow_keys split: option.split)
qed

text \<open>What the ring buffers carry: userspace dispatches on the type byte and trusts the lengths.\<close>

fun event_shape :: "event \<Rightarrow> bool" where
  "event_shape (Connect c) \<longleftrightarrow> cn_type c = EVENT_CONNECT \<and> cn_protocol c \<in> {IPPROTO_TCP, IPPROTO_UDP}"
| "event_shape (Establish s) \<longleftrightarrow> es_type s = EVENT_ESTABLISH \<and> es_protocol s = IPPROTO_TCP \<and>
     es_direction s \<in> {0, 1}"
| "event_shape (Close c) \<longleftrightarrow> cl_type c = EVENT_CLOSE \<and> cl_direction c \<in> {0, 1}"

definition dns_shape :: "dns_raw_event \<Rightarrow> bool" where
  "dns_shape d \<longleftrightarrow> 12 \<le> unat (dr_len d) \<and> unat (dr_len d) \<le> 512 \<and> length (dr_data d) = 512"

definition rings_ok :: "agent \<Rightarrow> bool" where
  "rings_ok a \<longleftrightarrow> (\<forall>ev \<in> set (events a). event_shape ev) \<and> (\<forall>d \<in> set (dns_events a). dns_shape d)"

lemma connect_selected_proto: "connect_selected e ctx a = Some p \<Longrightarrow> p \<in> {IPPROTO_TCP, IPPROTO_UDP}"
  by (auto simp: connect_selected_def Let_def split: option.splits if_splits)

lemma rings_ok_cong:
  "events b = events a \<Longrightarrow> dns_events b = dns_events a \<Longrightarrow> rings_ok b = rings_ok a"
  by (simp add: rings_ok_def)

lemma emit_event_rings: "rings_ok a \<Longrightarrow> event_shape ev \<Longrightarrow> rings_ok (emit_event e ev a)"
  by (auto simp: emit_event_def rings_ok_def)

lemma connect_rings:
  assumes "rings_ok a"
  shows "rings_ok (snd (tollwing_connect4 e ctx a))" "rings_ok (snd (tollwing_connect6 e ctx a))"
proof -
  have "rings_ok b" if "events b = events a" "dns_events b = dns_events a" for b
    using rings_ok_cong [OF that] assms by simp
  then show "rings_ok (snd (tollwing_connect4 e ctx a))" "rings_ok (snd (tollwing_connect6 e ctx a))"
    using assms connect_selected_proto [of e ctx a]
    by (auto simp: tollwing_connect4_def tollwing_connect6_def Let_def connect4_event_def
        connect6_event_def intro!: emit_event_rings split: option.split)
qed

lemma sockops_rings:
  assumes "rings_ok a" and "conns_ok a"
  shows "rings_ok (snd (tollwing_sockops e s a))"
proof -
  have same: "rings_ok b" if "events b = events a" "dns_events b = dns_events a" for b
    using rings_ok_cong [OF that] assms by simp
  have est: "rings_ok (handle_established e s d a)" if "d \<in> {0, 1}" for d
  proof -
    have "event_shape (Establish (establish_event_of e s d co))" for co
      using that by (simp add: establish_event_of_def)
    then show ?thesis
      unfolding handle_established_def Let_def split_beta
      by (intro emit_event_rings same) simp_all
  qed
  have "rings_ok (handle_state_change e s a)"
  proof (cases "sint (so_args1 s) = TCP_CLOSE \<and> lookup_connection a (bpf_get_socket_cookie e) \<noteq> None")
    case True
    then obtain ci where ci: "lookup_connection a (bpf_get_socket_cookie e) = Some ci" by auto
    then have "event_shape (Close (close_event_of e ci))"
      using assms(2) by (auto simp: close_event_of_def Let_def conns_ok_def conn_shape_def)
    from emit_event_rings [OF assms(1) this, of e] show ?thesis
      using True ci rings_ok_cong [of "delete_connection k b" b for k b]
      by (simp add: state_change_closes)
  next
    case False
    then show ?thesis using assms(1) by (auto simp: handle_state_change_def)
  qed
  then show ?thesis using assms(1) est by (auto simp: tollwing_sockops_def split: option.split)
qed

lemma dns_rings: "rings_ok a \<Longrightarrow> rings_ok (snd (tollwing_dns_recvmsg e d a))"
proof (cases "dns_captured d")
  case True
  assume ok: "rings_ok a"
  let ?n = "skb_len_at d (sk_receive_queue_next d)"
  have "unat (ucast ?n :: u16) = unat ?n"
    using dns_captured_bounds [OF True] by (simp add: unsigned_ucast_eq take_bit_nat_eq_self_iff)
  then show ?thesis
    using ok dns_captured_bounds [OF True]
    by (auto simp: dns_captured_outcome [OF True] rings_ok_def dns_shape_def kernel_bytes_def)
qed (simp add: dns_not_captured)

context byte_hook
begin

lemma rings_kept: "rings_ok (snd (hook e c a)) = rings_ok a"
  by (rule rings_ok_cong) (rule events_kept dns_kept)+

end

lemma step_rings_ok:
  assumes "rings_ok a" and "conns_ok a"
  shows "rings_ok (step (e, ev) a)"
proof (cases ev)
  case (Quic_egress pkt)
  show ?thesis
    by (rule step_quic [of e pkt a])
      (use assms Quic_egress in \<open>simp_all add: record_quic_frame rings_ok_def\<close>)
next
  case (Sock_release p)
  then show ?thesis
    using assms(1) by (simp add: tollwing_sock_release_def Let_def rings_ok_def)
qed (use assms in \<open>simp_all add: connect_rings sockops_rings dns_rings
    tcp_sendmsg.rings_kept [of e "(ab, regs)" for ab regs, simplified]
    tcp_cleanup_rbuf.rings_kept [of e "(ab, regs)" for ab regs, simplified]
    tcp_sendmsg_fentry.rings_kept tcp_cleanup_rbuf_fentry.rings_kept udp_sendmsg.rings_kept
    udp_recvmsg_exit.rings_kept tcp_retransmit.rings_kept tcp_loss_probe.rings_kept\<close>)

lemma poll_flow_keys: "flows_ok (fst s) \<Longrightarrow> flows_ok (fst (poll_flow n key s))"
  using poll_flow_lookup [of n key "fst s" "snd s"] by (auto simp: flows_ok_def)

lemma sys_step_invariants:
  assumes "conns_ok (fst s) \<and> flows_ok (fst s) \<and> rings_ok (fst s)"
  shows "conns_ok (fst (sys_step n ev s)) \<and> flows_ok (fst (sys_step n ev s)) \<and> rings_ok (fst (sys_step n ev s))"
proof -
  obtain a fl where s: "s = (a, fl)" by fastforce
  have same: "conns_ok b \<and> flows_ok b \<and> rings_ok b"
    if "connections b = connections a" "flow_aggregates b = flow_aggregates a"
      "events b = events a" "dns_events b = dns_events a" for b
    using that assms by (simp add: s conns_ok_def flows_ok_def rings_ok_def lookup_connection_def lookup_flow_def)
  show ?thesis
  proof (cases ev)
    case (Kernel e kev)
    then show ?thesis using assms by (simp add: s step_conns_ok step_flows_ok step_rings_ok)
  next
    case (Poll_flow key)
    then show ?thesis using assms poll_flow_keys [of s n key]
      by (simp add: s conns_ok_def rings_ok_def lookup_connection_def)
  qed (simp_all add: s same)
qed

lemma reachable_invariants:
  "reachable n s \<Longrightarrow> conns_ok (fst s) \<and> flows_ok (fst s) \<and> rings_ok (fst s)"
proof (induction rule: reachable.induct)
  case (boot sizes cfg)
  then show ?case
    by (simp add: conns_ok_def flows_ok_def rings_ok_def lookup_connection_def lookup_flow_def
        bpf_map_lookup_elem_def)
next
  case (move s ev)
  then show ?case using sys_step_invariants by blast
qed

end
