(* ===== verification/Run_Ledger.thy ===== *)
theory Run_Ledger
  imports Agent_Runs "HOL-Library.Multiset"
begin

text \<open>
  The ledger of transmitted bytes over runs of the whole system: what the programs count is in
  the flow aggregates, in the QUIC flows, delivered by the poller, or lost in an update that the
  drop counters show.
\<close>

section \<open>The ledger of a run\<close>

text \<open>
  What is accounted for: the transmitted bytes in the two kernel maps and those delivered.
  \<open>MapUpdateDrops\<close> of \<open>drops.go\<close> is the number of updates that the two maps refused.
\<close>

definition accounted_tx :: "nat \<Rightarrow> system \<Rightarrow> u64" where
  "accounted_tx n s = flow_total n fm_tx_bytes (fst s) + quic_total n qm_tx_bytes (fst s)
     + delivered fs_tx_bytes (snd s)"

definition accounted_rx :: "nat \<Rightarrow> system \<Rightarrow> u64" where
  "accounted_rx n s = flow_total n fm_rx_bytes (fst s) + delivered fs_rx_bytes (snd s)"

definition map_update_drops :: "nat \<Rightarrow> system \<Rightarrow> u64" where
  "map_update_drops n s = drops n DROP_SLOT_FLOW_AGGREGATES (fst s) + drops n DROP_SLOT_QUIC_FLOWS (fst s)"

text \<open>What a packet is worth to the QUIC flows.\<close>

fun quic_credit :: "kenv \<times> kevent \<Rightarrow> agent \<Rightarrow> u64" where
  "quic_credit (e, Quic_egress pkt) a =
     (case get_config a of
        None \<Rightarrow> 0
      | Some cfg \<Rightarrow>
          if ac_udp_socket_tx cfg \<noteq> 0 then 0
          else case parse_quic pkt of Some (Quic_packet _ _ _) \<Rightarrow> of_nat (length pkt) | _ \<Rightarrow> 0)"
| "quic_credit _ a = 0"

text \<open>An event is booked in full, or it is one refused update and nothing is booked.\<close>

definition accounts :: "u64 \<Rightarrow> u64 \<times> u64 \<Rightarrow> u64 \<times> u64 \<Rightarrow> bool" where
  "accounts credit before after \<longleftrightarrow>
     after = (fst before + credit, snd before) \<or> after = (fst before, snd before + 1)"

lemma insert_flow_drops:
  assumes "smp_processor_id e < n" "s \<noteq> DROP_SLOT_FLOW_AGGREGATES"
  shows "drops n s (insert_flow e k fm a) = drops n s a"
  using drops_count_drop [OF assms(1), of s DROP_SLOT_FLOW_AGGREGATES "a\<lparr>flow_aggregates := m\<rparr>" for m] assms(2)
    drops_cong [of "a\<lparr>flow_aggregates := m\<rparr>" a n s for m]
  by (simp add: insert_flow_def split: option.split prod.split)

lemma flow_drops:
  assumes "smp_processor_id e < n" "s \<noteq> DROP_SLOT_FLOW_AGGREGATES"
  shows "drops n s (update_flow_aggregate e ci t r a) = drops n s a"
    and "drops n s (seed_flow e sk d conn a) = drops n s a"
    and "drops n s (bump_flow e k f a) = drops n s a"
    and "drops n s (write_connection c ci a) = drops n s a"
  using insert_flow_drops [OF assms] drops_cong [of "write_flow e k v fm a" a n s for k v fm]
    drops_cong [of "bump_flow e k f a" a n s] drops_cong [of "write_connection c ci a" a n s]
  by (simp_all add: update_flow_aggregate_def seed_flow_def Let_def split: option.split)

lemma handle_established_drops:
  assumes "smp_processor_id e < n" "s \<noteq> DROP_SLOT_FLOW_AGGREGATES" "s \<noteq> DROP_SLOT_EVENTS_RINGBUF"
  shows "drops n s (handle_established e sk d a) = drops n s a"
proof -
  have "drops n s (seed_flow e sk d c b) = drops n s a" if "drop_counters b = drop_counters a" for b c
    using flow_drops(2) [OF assms(1,2), of sk d c b] drops_cong [OF that, of n s] by simp
  then show ?thesis
    by (simp add: handle_established_def Let_def split_beta emit_event_drops [OF assms(1,3)])
qed

lemma step_quic_slot:
  assumes cpu: "smp_processor_id e < n" and "\<And>pkt. ev \<noteq> Quic_egress pkt"
  shows "drops n DROP_SLOT_QUIC_FLOWS (step (e, ev) a) = drops n DROP_SLOT_QUIC_FLOWS a"
    and "quic_flows (step (e, ev) a) = quic_flows a"
proof -
  have same: "drops n DROP_SLOT_QUIC_FLOWS (update_flow_aggregate e c t r (write_connection k c a))
      = drops n DROP_SLOT_QUIC_FLOWS a"
    "drops n DROP_SLOT_QUIC_FLOWS (bump_flow e key f (write_connection k c a)) = drops n DROP_SLOT_QUIC_FLOWS a"
    for c t r k key f
    using flow_drops [OF cpu, of DROP_SLOT_QUIC_FLOWS] by simp_all
  show "drops n DROP_SLOT_QUIC_FLOWS (step (e, ev) a) = drops n DROP_SLOT_QUIC_FLOWS a"
    using assms(2)
    by (cases ev) (auto simp: cpu byte_hook_simps same tollwing_sockops_def handle_established_drops
        split: option.split)
  show "quic_flows (step (e, ev) a) = quic_flows a"
    using assms(2)
    by (cases ev) (auto simp: byte_hook_simps tollwing_connect4_def tollwing_connect6_def tollwing_sockops_def
        tollwing_sock_release_def dns_frame split: option.split)
qed

lemma quic_credit_cases:
  obtains "step (e, Quic_egress pkt) a = a" "quic_credit (e, Quic_egress pkt) a = 0"
  | k v h where "step (e, Quic_egress pkt) a = record_quic e k v h (of_nat (length pkt)) a"
      "quic_credit (e, Quic_egress pkt) a = of_nat (length pkt)"
proof (cases "get_config a")
  case None
  then show thesis using that(1) by (simp add: step_def tollwing_quic_egress_def)
next
  case (Some cfg)
  obtain p where p: "parse_quic pkt = Some p" using parse_quic_safe by blast
  show thesis
    using that Some p
    by (cases p; cases "ac_udp_socket_tx cfg = 0") (auto simp: step_def tollwing_quic_egress_def)
qed

lemma step_accounts_tx:
  assumes wf: "agent_wf a" and cpu: "smp_processor_id e < n" and zero: "other_cpus_zero e"
    and qzero: "\<And>c. qm_tx_bytes (other_cpus_quic e c) = 0"
  shows "accounts (tx_credit (e, ev) a + quic_credit (e, ev) a)
    (accounted_tx n (a, fl), map_update_drops n (a, fl))
    (accounted_tx n (step (e, ev) a, fl), map_update_drops n (step (e, ev) a, fl))"
proof (cases "\<exists>pkt. ev = Quic_egress pkt")
  case False
  then have "quic_credit (e, ev) a = 0" by (cases ev) auto
  moreover have "quic_total n qm_tx_bytes (step (e, ev) a) = quic_total n qm_tx_bytes a"
    using step_quic_slot(2) [OF cpu, of ev a] False by (simp add: quic_total_def)
  moreover have "drops n DROP_SLOT_QUIC_FLOWS (step (e, ev) a) = drops n DROP_SLOT_QUIC_FLOWS a"
    using step_quic_slot(1) [OF cpu, of ev a] False by simp
  ultimately show ?thesis
    using step_books(1) [OF wf cpu zero, of ev]
    by (auto simp: accounts_def accounted_tx_def map_update_drops_def flow_booked_def)
next
  case True
  then obtain pkt where ev: "ev = Quic_egress pkt" by auto
  have tx: "tx_credit (e, ev) a = 0" by (simp add: ev tx_credit_def split: option.split)
  show ?thesis
  proof (rule quic_credit_cases [of e pkt a])
    assume "step (e, Quic_egress pkt) a = a" "quic_credit (e, Quic_egress pkt) a = 0"
    then show ?thesis using tx by (simp add: ev accounts_def)
  next
    fix k v h
    assume r: "step (e, Quic_egress pkt) a = record_quic e k v h (of_nat (length pkt)) a"
      and c: "quic_credit (e, Quic_egress pkt) a = of_nat (length pkt)"
    show ?thesis
      using record_quic_accounts [OF wf cpu qzero, of k v h "of_nat (length pkt)"] tx c
      by (auto simp: ev r accounts_def accounted_tx_def map_update_drops_def
          record_quic_frame flow_total_def cpu)
  qed
qed

section \<open>Runs\<close>

text \<open>The same for the poller: it moves bytes, so its credit is 0.\<close>

lemma poll_flow_accounts:
  assumes "agent_wf (fst s)"
  shows "accounted_tx n (poll_flow n key s) = accounted_tx n s"
    and "accounted_rx n (poll_flow n key s) = accounted_rx n s"
  using poll_flow_moves [OF assms summed_into_fields(1), of n key "snd s"]
    poll_flow_moves [OF assms summed_into_fields(2), of n key "snd s"]
  by (simp_all add: accounted_tx_def accounted_rx_def quic_total_def algebra_simps)

lemma quic_snapshot_fold:
  "fs_tx_bytes (fold (\<lambda>m snap. snap\<lparr>fs_tx_bytes := fs_tx_bytes snap + qm_tx_bytes m,
      fs_packet_count := fs_packet_count snap + qm_pkt_count m\<rparr>) ms snap)
    = fs_tx_bytes snap + (\<Sum>m\<leftarrow>ms. qm_tx_bytes m)"
  by (induction ms arbitrary: snap) (auto simp: add.assoc)

lemma sum_list_cpus: "(\<Sum>m\<leftarrow>map vals [0..<n]. g m) = cpu_total n g vals"
  by (simp add: cpu_total_def sum_list_sum_nth atLeast0LessThan)

lemma poll_quic_accounts:
  assumes "agent_wf (fst s)"
  shows "accounted_tx n (poll_quic_flow n key s) = accounted_tx n s"
proof (cases "lookup_quic (fst s) key")
  case None
  then show ?thesis by (cases s) (simp add: poll_quic_flow_def)
next
  case (Some vals)
  obtain a fl where s: "s = (a, fl)" by fastforce
  have "map_total (cpu_total n qm_tx_bytes) ((entries (quic_flows a))(key := None))
      = quic_total n qm_tx_bytes a - cpu_total n qm_tx_bytes vals"
    using Some assms map_total_delete [of "entries (quic_flows a)" key vals "cpu_total n qm_tx_bytes"]
    by (simp add: s quic_total_def lookup_quic_def bpf_map_lookup_elem_def agent_wf_def bmap_wf_def)
  then show ?thesis
    using Some
    by (simp add: s accounted_tx_def poll_quic_flow_def quic_total_def flow_total_def delivered_def
        bpf_map_delete_elem_def quic_snapshot_fold zero_snapshot_def sum_list_cpus [simplified])
qed

lemma poll_drops [simp]:
  "drops n sl (fst (poll_flow n key s)) = drops n sl (fst s)"
  "drops n sl (fst (poll_quic_flow n qk s)) = drops n sl (fst s)"
  by (simp_all add: drops_def)

fun sys_credit :: "sys_event \<Rightarrow> system \<Rightarrow> u64" where
  "sys_credit (Kernel e ev) s = tx_credit (e, ev) (fst s) + quic_credit (e, ev) (fst s)"
| "sys_credit _ s = 0"

text \<open>New per-CPU entries of the QUIC flows start at zero on the other CPUs too.\<close>

fun quic_zero :: "sys_event \<Rightarrow> bool" where
  "quic_zero (Kernel e ev) \<longleftrightarrow> (\<forall>c. qm_tx_bytes (other_cpus_quic e c) = 0)"
| "quic_zero _ \<longleftrightarrow> True"

lemma sys_step_accounts:
  assumes "agent_wf (fst s)" and "possible n ev" and "quic_zero ev"
  shows "accounts (sys_credit ev s) (accounted_tx n s, map_update_drops n s)
    (accounted_tx n (sys_step n ev s), map_update_drops n (sys_step n ev s))"
proof -
  obtain a fl where s: "s = (a, fl)" by fastforce
  show ?thesis
  proof (cases ev)
    case (Kernel e kev)
    then show ?thesis
      using assms step_accounts_tx [of a e n kev fl] by (simp add: s)
  next
    case (Poll_flow key)
    then show ?thesis using poll_flow_accounts [OF assms(1)] by (simp add: accounts_def map_update_drops_def)
  next
    case (Poll_quic_flow key)
    then show ?thesis using poll_quic_accounts [OF assms(1)] by (simp add: accounts_def map_update_drops_def)
  qed (simp_all add: s accounts_def accounted_tx_def map_update_drops_def flow_total_def quic_total_def drops_def)
qed

text \<open>
  Over a run: the log of a quantity lists its value at every event. When each event is booked in
  full or refused, what is accounted for at the end and the refused credits add up to the
  credits; \<open>lost\<close> is some of them, as many as the drop counters have moved by.
\<close>

fun run_log :: "('e \<Rightarrow> 's \<Rightarrow> 'c) \<Rightarrow> ('e \<Rightarrow> 's \<Rightarrow> 's) \<Rightarrow> 'e list \<Rightarrow> 's \<Rightarrow> 'c list" where
  "run_log f move [] s = []"
| "run_log f move (ev # evs) s = f ev s # run_log f move evs (move ev s)"

locale ledger = kept_by_steps move inv allowed
  for move :: "'e \<Rightarrow> 's \<Rightarrow> 's" and inv :: "'s \<Rightarrow> bool" and allowed :: "'e \<Rightarrow> bool" +
  fixes credit :: "'e \<Rightarrow> 's \<Rightarrow> u64" and accounted :: "'s \<Rightarrow> u64" and refused :: "'s \<Rightarrow> u64"
  assumes books: "inv s \<Longrightarrow> allowed ev \<Longrightarrow>
    accounts (credit ev s) (accounted s, refused s) (accounted (move ev s), refused (move ev s))"
begin

lemma run_books:
  assumes "inv s" and "\<forall>ev \<in> set evs. allowed ev"
  shows "\<exists>lost. mset lost \<subseteq># mset (run_log credit move evs s) \<and>
    refused (fold move evs s) = refused s + of_nat (length lost) \<and>
    accounted (fold move evs s) + sum_list lost = accounted s + sum_list (run_log credit move evs s)"
  using assms
proof (induction evs arbitrary: s)
  case Nil
  then show ?case by simp
next
  case (Cons ev evs)
  let ?s = "move ev s"
  have "inv ?s" using Cons.prems by (simp add: step_keeps)
  then obtain lost where lost: "mset lost \<subseteq># mset (run_log credit move evs ?s)"
    "refused (fold move evs ?s) = refused ?s + of_nat (length lost)"
    "accounted (fold move evs ?s) + sum_list lost = accounted ?s + sum_list (run_log credit move evs ?s)"
    using Cons.IH Cons.prems(2) by (meson list.set_intros(2))
  from books [of s ev] Cons.prems
  consider "accounted ?s = accounted s + credit ev s" "refused ?s = refused s"
    | "accounted ?s = accounted s" "refused ?s = refused s + 1"
    by (auto simp: accounts_def)
  then show ?case
  proof cases
    case 1
    have "mset lost \<subseteq># mset (run_log credit move (ev # evs) s)"
      using subset_mset.order_trans [OF lost(1), of "add_mset (credit ev s) (mset (run_log credit move evs ?s))"]
      by simp
    then show ?thesis
      using lost(2,3) 1 by (intro exI [of _ lost]) (simp add: algebra_simps)
  next
    case 2
    have "mset (credit ev s # lost) \<subseteq># mset (run_log credit move (ev # evs) s)" using lost(1) by simp
    then show ?thesis
      using lost(2,3) 2 by (intro exI [of _ "credit ev s # lost"]) (simp add: algebra_simps)
  qed
qed

end

interpretation tx: ledger "sys_step n" "\<lambda>s. agent_wf (fst s)" "\<lambda>ev. possible n ev \<and> quic_zero ev"
    sys_credit "accounted_tx n" "map_update_drops n"
  by unfold_locales (use sys_step_wf sys_step_accounts in auto)

definition credits :: "nat \<Rightarrow> sys_event list \<Rightarrow> system \<Rightarrow> u64 list" where
  "credits n = run_log sys_credit (sys_step n)"

text \<open>From a fresh start, where nothing is accounted for yet.\<close>

lemma booted_books:
  assumes "\<forall>ev \<in> set evs. possible n ev \<and> quic_zero ev"
  shows "\<exists>lost. mset lost \<subseteq># mset (credits n evs (boot_agent sizes cfg, [])) \<and>
    map_update_drops n (fold (sys_step n) evs (boot_agent sizes cfg, [])) = of_nat (length lost) \<and>
    accounted_tx n (fold (sys_step n) evs (boot_agent sizes cfg, [])) + sum_list lost =
      sum_list (credits n evs (boot_agent sizes cfg, []))"
proof -
  have "accounted_tx n (boot_agent sizes cfg, []) = 0" "map_update_drops n (boot_agent sizes cfg, []) = 0"
    by (simp_all add: accounted_tx_def map_update_drops_def flow_total_def quic_total_def delivered_def
        drops_def cpu_total_def)
  then show ?thesis
    using tx.run_books [of "(boot_agent sizes cfg, [])" evs n] assms by (simp add: credits_def)
qed

end
