(* ===== verification/Lifetimes.thy ===== *)
theory Lifetimes
  imports Run_Ledger
begin

text \<open>
  Behaviour over time: the one-owner rule for UDP's transmitted bytes, and the life of a TCP
  connection from \<open>connect\<close> to its close event.
\<close>

section \<open>One owner for UDP's transmitted bytes\<close>

text \<open>
  The configuration is pushed once, \<open>fentry/udp_sendmsg\<close> runs only when it is attached; the
  enabled flag may be toggled.
\<close>

fun after_push :: "bool \<Rightarrow> sys_event \<Rightarrow> bool" where
  "after_push att (Kernel e (Udp_sendmsg ctx)) \<longleftrightarrow> att"
| "after_push att (Push_config _ _ _ _ _) \<longleftrightarrow> False"
| "after_push att _ \<longleftrightarrow> True"

definition one_owner :: "bool \<Rightarrow> bool \<Rightarrow> agent \<Rightarrow> bool" where
  "one_owner udp att a \<longleftrightarrow>
     (\<exists>cfg. agent_config_map a 0 = Some cfg \<and> ac_track_udp cfg = (if udp then 1 else 0) \<and>
        ac_udp_socket_tx cfg = udp_socket_tx udp att) \<and>
     (udp \<and> att \<longrightarrow> entries (quic_flows a) = Map.empty) \<and>
     (\<not> udp \<longrightarrow> (\<forall>k ci. lookup_connection a k = Some ci \<longrightarrow> \<not> is_udp ci))"

lemma one_owner_cong:
  "agent_config_map b = agent_config_map a \<Longrightarrow> quic_flows b = quic_flows a \<Longrightarrow>
    connections b = connections a \<Longrightarrow> one_owner udp att b = one_owner udp att a"
  by (simp add: one_owner_def lookup_connection_def)

lemma new_connection_not_udp:
  assumes "new_connection e ev a ci" and "agent_config_map a 0 = Some cfg" and "ac_track_udp cfg = 0"
  shows "\<not> is_udp ci"
  using assms
  by (auto simp: new_connection_def connect_selected_def get_config_def established_conn_fields
      IPPROTO_TCP_def IPPROTO_UDP_def Let_def split: if_splits)

lemma step_quic_idle:
  assumes "agent_config_map a 0 = Some cfg" and "ac_udp_socket_tx cfg \<noteq> 0"
  shows "step (e, Quic_egress pkt) a = a"
  using assms by (simp add: step_def tollwing_quic_egress_def get_config_def)

lemma step_one_owner:
  assumes "one_owner udp att a"
  shows "one_owner udp att (step (e, ev) a)"
proof -
  obtain cfg where cfg: "agent_config_map a 0 = Some cfg" "ac_track_udp cfg = (if udp then 1 else 0)"
    "ac_udp_socket_tx cfg = udp_socket_tx udp att"
    using assms by (auto simp: one_owner_def)
  have "entries (quic_flows (step (e, ev) a)) = Map.empty" if "udp \<and> att"
  proof (cases "\<exists>pkt. ev = Quic_egress pkt")
    case True
    then show ?thesis
      using step_quic_idle [of a cfg e] cfg that assms by (auto simp: one_owner_def udp_socket_tx_def)
  next
    case False
    then show ?thesis
      using step_quic_slot(2) [of e "Suc (smp_processor_id e)" ev a] that assms by (auto simp: one_owner_def)
  qed
  moreover have "\<not> is_udp ci" if "\<not> udp" "lookup_connection (step (e, ev) a) k = Some ci" for k ci
    using step_origin [OF that(2)] new_connection_not_udp [of e ev a ci cfg] cfg that(1) assms
    by (auto simp: one_owner_def)
  ultimately show ?thesis using cfg by (simp add: one_owner_def)
qed

lemma sys_step_one_owner:
  assumes "one_owner udp att (fst s)" and "after_push att ev"
  shows "one_owner udp att (fst (sys_step n ev s))"
proof -
  obtain a fl where s: "s = (a, fl)" by fastforce
  show ?thesis
  proof (cases ev)
    case (Kernel e kev)
    then show ?thesis using assms(1) by (simp add: s step_one_owner)
  next
    case (Poll_flow key)
    then show ?thesis using assms(1) one_owner_cong [of "fst (poll_flow n key s)" "fst s"] by simp
  next
    case (Poll_quic_flow key)
    then show ?thesis using assms(1)
      by (auto simp: s one_owner_def poll_quic_flow_def lookup_quic_def bpf_map_lookup_elem_def
          lookup_connection_def split: option.split)
  next
    case (Push_config en udp' rate att' agg)
    then show ?thesis using assms(2) by simp
  next
    case (Set_enabled en)
    then show ?thesis using assms(1)
      by (auto simp: s one_owner_def set_enabled_def lookup_connection_def split: option.split)
  qed
qed

lemma pushed_one_owner:
  "one_owner udp att (fst (sys_step n (Push_config en udp rate att agg) (boot_agent sizes cfg, [])))"
  by (simp add: one_owner_def push_config_def lookup_connection_def
      bpf_map_lookup_elem_def)

lemma run_one_owner:
  "one_owner udp att (fst s) \<Longrightarrow> \<forall>ev \<in> set evs. after_push att ev \<Longrightarrow>
    one_owner udp att (fst (fold (sys_step n) evs s))"
  by (induction evs arbitrary: s) (simp_all add: sys_step_one_owner)

lemma one_owner_credits:
  assumes "one_owner udp att a"
  shows "(\<forall>e pkt. quic_credit (e, Quic_egress pkt) a = 0) \<and> entries (quic_flows a) = Map.empty \<or>
    (\<forall>e ctx. att \<longrightarrow> tx_credit (e, Udp_sendmsg ctx) a = 0)"
  using assms
  by (cases udp; cases att) (auto simp: one_owner_def udp_socket_tx_def tx_credit_def get_config_def
      split: option.split)

section \<open>The life of a connection\<close>

text \<open>Events that leave the pre-DNAT entry of a socket in place.\<close>

fun keeps_dst :: "u64 \<Rightarrow> kenv \<times> kevent \<Rightarrow> bool" where
  "keeps_dst k (e, Connect4 ctx) \<longleftrightarrow>
     bpf_get_socket_cookie e \<noteq> k \<and> k \<notin> set (lru_victims e M_cookie_to_original_dst)"
| "keeps_dst k (e, Connect6 ctx) \<longleftrightarrow>
     bpf_get_socket_cookie e \<noteq> k \<and> k \<notin> set (lru_victims e M_cookie_to_original_dst)"
| "keeps_dst k (e, Sockops s) \<longleftrightarrow> bpf_get_socket_cookie e \<noteq> k"
| "keeps_dst k (e, Sock_release p) \<longleftrightarrow> bpf_get_socket_cookie e \<noteq> k"
| "keeps_dst k _ \<longleftrightarrow> True"

lemma correlate_other:
  "bpf_get_socket_cookie e \<noteq> k \<Longrightarrow> lookup_original_dst (snd (correlate e d a)) k = lookup_original_dst a k"
  by (auto simp: correlate_def split: option.split)

lemma step_original_dst:
  assumes "keeps_dst k (e, ev)"
  shows "lookup_original_dst (step (e, ev) a) k = lookup_original_dst a k"
proof (cases ev)
  case (Quic_egress pkt)
  show ?thesis
    by (rule step_quic [of e pkt a])
      (simp_all add: Quic_egress lookup_original_dst_def record_quic_frame)
next
  case (Sockops s)
  then show ?thesis
    using assms correlate_other [of e k _ a]
    by (simp add: tollwing_sockops_def lookup_original_dst_def handle_established_cookie split: option.split)
next
  case (Sock_release p)
  then show ?thesis
    using assms by (simp add: tollwing_sock_release_def Let_def lookup_original_dst_def
        delete_cookie_def delete_connection_def)
next
  case (Connect4 ctx)
  then show ?thesis
    using assms update_cookie_other [of k "bpf_get_socket_cookie e" e BPF_ANY _ a]
    by (auto simp: tollwing_connect4_def Let_def lookup_original_dst_def split: option.split)
next
  case (Connect6 ctx)
  then show ?thesis
    using assms update_cookie_other [of k "bpf_get_socket_cookie e" e BPF_ANY _ a]
    by (auto simp: tollwing_connect6_def Let_def lookup_original_dst_def split: option.split)
next
  case (Tcp_sendmsg ab regs)
  then show ?thesis using tcp_sendmsg.cookies_kept [of e "(ab, regs)" a]
    by (simp add: lookup_original_dst_def)
next
  case (Tcp_cleanup_rbuf ab regs)
  then show ?thesis using tcp_cleanup_rbuf.cookies_kept [of e "(ab, regs)" a]
    by (simp add: lookup_original_dst_def)
qed (simp_all add: lookup_original_dst_def dns_frame tcp_sendmsg_fentry.cookies_kept
    tcp_cleanup_rbuf_fentry.cookies_kept udp_sendmsg.cookies_kept udp_recvmsg_exit.cookies_kept
    tcp_retransmit.cookies_kept tcp_loss_probe.cookies_kept)

lemma run_original_dst:
  "\<forall>i \<in> set is. keeps_dst k i \<Longrightarrow> lookup_original_dst (fold step is a) k = lookup_original_dst a k"
proof (induction "is" arbitrary: a)
  case (Cons i "is")
  then show ?case using step_original_dst [of k "fst i" "snd i" a] by simp
qed simp

text \<open>What phase two takes over from phase one.\<close>

definition correlation_of :: "original_dst \<Rightarrow> correlation" where
  "correlation_of orig = \<lparr>co_orig_ip = od_ip orig, co_orig_port = od_port orig, co_pid = od_pid orig,
     co_cgroupid = od_cgroupid orig, co_comm = od_comm orig\<rparr>"

lemma active_establish:
  assumes cfg: "get_config a \<noteq> None" and op: "so_op s = BPF_SOCK_OPS_ACTIVE_ESTABLISHED_CB"
    and fam: "so_family s = AF_INET \<or> so_family s = AF_INET6"
    and dst: "lookup_original_dst a (bpf_get_socket_cookie e) = Some orig"
  shows "step (e, Sockops s) a = handle_established e s 0 a"
    and "fst (correlate e 0 a) = correlation_of orig"
  using assms correlate_found [OF dst]
  by (auto simp: tollwing_sockops_def correlation_of_def)

lemma close_step:
  assumes cfg: "get_config a \<noteq> None" and op: "so_op s = BPF_SOCK_OPS_STATE_CB"
    and fam: "so_family s = AF_INET \<or> so_family s = AF_INET6"
    and new: "sint (so_args1 s) = TCP_CLOSE"
    and conn: "lookup_connection a (bpf_get_socket_cookie e) = Some ci"
    and ring: "ring_reserved e"
  shows "events (step (e, Sockops s) a) = events a @ [Close (close_event_of e ci)]"
    and "lookup_connection (step (e, Sockops s) a) (bpf_get_socket_cookie e) = None"
proof -
  have "step (e, Sockops s) a = handle_state_change e s a"
    using cfg op fam by (auto simp: tollwing_sockops_def BPF_SOCK_OPS_ACTIVE_ESTABLISHED_CB_def
        BPF_SOCK_OPS_PASSIVE_ESTABLISHED_CB_def BPF_SOCK_OPS_STATE_CB_def)
  then show "events (step (e, Sockops s) a) = events a @ [Close (close_event_of e ci)]"
    and "lookup_connection (step (e, Sockops s) a) (bpf_get_socket_cookie e) = None"
    using state_change_closes [OF new conn] ring by (simp_all add: emit_event_def)
qed

text \<open>What an active establish reports carries what phase one recorded.\<close>

lemma establish_reported:
  fixes k :: u64
  assumes "get_config a \<noteq> None" and "bpf_get_socket_cookie e1 = k" "bpf_get_socket_cookie e2 = k"
    and "connect_selected e1 ctx a = Some proto" "cookie_room e1 a" "\<forall>i \<in> set is. keeps_dst k i"
    and "so_op s = BPF_SOCK_OPS_ACTIVE_ESTABLISHED_CB" "so_family s = AF_INET" "ring_reserved e2"
  shows "last (events (fold step ((e1, Connect4 ctx) # is @ [(e2, Sockops s)]) a)) =
    Establish (establish_event_of e2 s 0 (correlation_of (connect4_dst e1 ctx)))"
proof -
  define a1 where "a1 = fold step ((e1, Connect4 ctx) # is) a"
  have "lookup_original_dst (step (e1, Connect4 ctx) a) k = Some (connect4_dst e1 ctx)"
    using connect4_captures [OF assms(4,5)] assms(2) by simp
  then have dst: "lookup_original_dst a1 (bpf_get_socket_cookie e2) = Some (connect4_dst e1 ctx)"
    using run_original_dst [OF assms(6)] assms(3) by (simp add: a1_def)
  have cfg: "get_config a1 \<noteq> None"
    using assms(1) kernel_run_config [of "(e1, Connect4 ctx) # is" a] by (simp add: a1_def del: step_simps)
  have fam: "so_family s = AF_INET \<or> so_family s = AF_INET6" using assms(8) by simp
  note est = active_establish [OF cfg assms(7) fam dst]
  have "fold step ((e1, Connect4 ctx) # is @ [(e2, Sockops s)]) a = step (e2, Sockops s) a1"
    by (simp add: a1_def del: step_simps)
  then show ?thesis using handle_established_event [OF assms(9), of s 0 a1] est by (simp del: step_simps)
qed

lemma connection_life:
  fixes k :: u64
  defines "closed \<equiv> \<lambda>a e1 ctx is1 e2 s is2 e3 s'.
    fold step ((e1, Connect4 ctx) # is1 @ (e2, Sockops s) # is2 @ [(e3, Sockops s')]) a"
  assumes cfg: "get_config a \<noteq> None"
    and cookies: "bpf_get_socket_cookie e1 = k" "bpf_get_socket_cookie e2 = k" "bpf_get_socket_cookie e3 = k"
    and connect: "connect_selected e1 ctx a = Some proto" "cookie_room e1 a"
    and before: "\<forall>i \<in> set is1. keeps_dst k i"
    and est: "so_op s = BPF_SOCK_OPS_ACTIVE_ESTABLISHED_CB" "so_family s = AF_INET"
      "connections_room e2 (fold step ((e1, Connect4 ctx) # is1) a)"
    and during: "\<forall>i \<in> set is2. keeps k i"
    and close: "so_op s' = BPF_SOCK_OPS_STATE_CB" "so_family s' = AF_INET"
      "sint (so_args1 s') = TCP_CLOSE" "ring_reserved e3"
  shows "lookup_connection (closed a e1 ctx is1 e2 s is2 e3 s') k = None \<and>
    last (events (closed a e1 ctx is1 e2 s is2 e3 s')) =
      Close (close_event_of e3 (tallied (on_socket k is2)
        (established_conn e2 s 0 (correlation_of (connect4_dst e1 ctx)))))"
proof -
  define a1 where "a1 = fold step ((e1, Connect4 ctx) # is1) a"
  define a2 where "a2 = step (e2, Sockops s) a1"
  define a3 where "a3 = fold step is2 a2"
  let ?ci = "established_conn e2 s 0 (correlation_of (connect4_dst e1 ctx))"
  have "lookup_original_dst (step (e1, Connect4 ctx) a) k = Some (connect4_dst e1 ctx)"
    using connect4_captures [OF connect] cookies by simp
  then have dst: "lookup_original_dst a1 (bpf_get_socket_cookie e2) = Some (connect4_dst e1 ctx)"
    using run_original_dst [OF before] cookies by (simp add: a1_def)
  have cfg1: "get_config a1 \<noteq> None" and cfg2: "get_config a2 \<noteq> None"
    using cfg kernel_run_config [of "(e1, Connect4 ctx) # is1" a] kernel_run_config [of "[(e2, Sockops s)]" a1]
    by (simp_all add: a1_def a2_def del: step_simps)
  have fam: "so_family s = AF_INET \<or> so_family s = AF_INET6" "so_family s' = AF_INET \<or> so_family s' = AF_INET6"
    using est(2) close(2) by auto
  note active = active_establish [OF cfg1 est(1) fam(1) dst]
  have "lookup_connection a2 k = Some ?ci"
    using handle_established_connection [of e2 a1 s 0] est(3) active cookies
    by (simp add: a2_def a1_def del: step_simps)
  from run_connection [OF during this cfg2]
  have conn: "lookup_connection a3 (bpf_get_socket_cookie e3) = Some (tallied (on_socket k is2) ?ci)"
    by (simp add: a3_def cookies)
  have cfg3: "get_config a3 \<noteq> None" using kernel_run_config [of is2 a2] cfg2 by (simp add: a3_def)
  have "closed a e1 ctx is1 e2 s is2 e3 s' = step (e3, Sockops s') a3"
    by (simp add: closed_def a1_def a2_def a3_def del: step_simps)
  then show ?thesis
    using close_step [OF cfg3 close(1) fam(2) close(3) conn close(4)] cookies
    by (simp del: step_simps)
qed

end
