(* ===== verification/Run_Facts.thy ===== *)
theory Run_Facts
  imports Lifetimes
begin

text \<open>
  More about runs: the ledger of the received bytes, what becomes of a socket whose connects were
  all sampled out, and the metrics of a QUIC flow over a sequence of packets.
\<close>

section \<open>The ledger of the received bytes\<close>

fun sys_rx_credit :: "sys_event \<Rightarrow> system \<Rightarrow> u64" where
  "sys_rx_credit (Kernel e ev) s = rx_credit (e, ev) (fst s)"
| "sys_rx_credit _ s = 0"

definition flow_drops :: "nat \<Rightarrow> system \<Rightarrow> u64" where
  "flow_drops n s = drops n DROP_SLOT_FLOW_AGGREGATES (fst s)"

lemma quic_snapshot_rx:
  "fs_rx_bytes (fold (\<lambda>m snap. snap\<lparr>fs_tx_bytes := fs_tx_bytes snap + qm_tx_bytes m,
      fs_packet_count := fs_packet_count snap + qm_pkt_count m\<rparr>) ms snap) = fs_rx_bytes snap"
  by (induction ms arbitrary: snap) auto

lemma poll_quic_rx: "accounted_rx n (poll_quic_flow n key s) = accounted_rx n s"
  by (cases s) (simp add: accounted_rx_def poll_quic_flow_def flow_total_def delivered_def zero_snapshot_def
      quic_snapshot_rx split: option.split)

lemma sys_step_accounts_rx:
  assumes "agent_wf (fst s)" and "possible n ev"
  shows "accounts (sys_rx_credit ev s) (accounted_rx n s, flow_drops n s)
    (accounted_rx n (sys_step n ev s), flow_drops n (sys_step n ev s))"
proof -
  obtain a fl where s: "s = (a, fl)" by fastforce
  show ?thesis
  proof (cases ev)
    case (Kernel e kev)
    then have "flow_booked n fm_rx_bytes (rx_credit (e, kev) a) a (step (e, kev) a)"
      using step_books(2) [of a e n kev] assms by (simp add: s)
    then show ?thesis
      by (auto simp: s Kernel accounts_def accounted_rx_def flow_drops_def flow_booked_def algebra_simps
          simp del: step_simps)
  next
    case (Poll_flow key)
    then show ?thesis using poll_flow_accounts(2) [OF assms(1)] by (simp add: accounts_def flow_drops_def)
  next
    case (Poll_quic_flow key)
    then show ?thesis using poll_quic_rx by (simp add: accounts_def flow_drops_def)
  qed (simp_all add: s accounts_def accounted_rx_def flow_drops_def flow_total_def drops_def)
qed

interpretation rx: ledger "sys_step n" "\<lambda>s. agent_wf (fst s)" "possible n"
    sys_rx_credit "accounted_rx n" "flow_drops n"
  by unfold_locales (use sys_step_wf sys_step_accounts_rx in auto)

definition rx_credits :: "nat \<Rightarrow> sys_event list \<Rightarrow> system \<Rightarrow> u64 list" where
  "rx_credits n = run_log sys_rx_credit (sys_step n)"

section \<open>A socket that was sampled out\<close>

text \<open>The events that do not select socket \<open>k\<close>: its connects fail the sampling, it accepts nothing.\<close>

fun sampled_out :: "u64 \<Rightarrow> u8 \<Rightarrow> kenv \<times> kevent \<Rightarrow> bool" where
  "sampled_out k rate (e, Connect4 ctx) \<longleftrightarrow> bpf_get_socket_cookie e = k \<longrightarrow> \<not> should_sample e rate"
| "sampled_out k rate (e, Connect6 ctx) \<longleftrightarrow> bpf_get_socket_cookie e = k \<longrightarrow> \<not> should_sample e rate"
| "sampled_out k rate (e, Sockops s) \<longleftrightarrow>
     bpf_get_socket_cookie e = k \<longrightarrow> so_op s \<noteq> BPF_SOCK_OPS_PASSIVE_ESTABLISHED_CB"
| "sampled_out k rate _ \<longleftrightarrow> True"

definition untracked :: "u64 \<Rightarrow> u8 \<Rightarrow> agent \<Rightarrow> bool" where
  "untracked k rate a \<longleftrightarrow> lookup_connection a k = None \<and> lookup_original_dst a k = None \<and>
     (\<exists>cfg. get_config a = Some cfg \<and> ac_sample_rate cfg = rate \<and> 1 < rate)"

lemma update_cookie_absent: "j \<noteq> k \<Longrightarrow> lookup_original_dst a k = None \<Longrightarrow>
    lookup_original_dst (update_cookie e fl j v a) k = None"
  using lru.no_invention [of "(map_grant e M_cookie_to_original_dst, lru_victims e M_cookie_to_original_dst)" fl j v
      "cookie_to_original_dst a" k]
  by (cases "lookup_original_dst (update_cookie e fl j v a) k") (auto simp: lookup_original_dst_def update_cookie_def)

lemma cookie_kept_none:
  "lookup_original_dst a k = None \<Longrightarrow> cookie_to_original_dst b = cookie_to_original_dst a \<Longrightarrow> lookup_original_dst b k = None"
  by (simp add: lookup_original_dst_def)

lemma other_socket_cookie:
  assumes "bpf_get_socket_cookie e \<noteq> k" and "lookup_original_dst a k = None"
  shows "lookup_original_dst (step (e, ev) a) k = None"
proof (cases ev)
  case (Quic_egress pkt)
  show ?thesis
    by (rule step_quic [of e pkt a])
      (use assms(2) in \<open>simp_all add: Quic_egress lookup_original_dst_def record_quic_frame\<close>)
next
  case (Connect4 ctx)
  have "lookup_original_dst (update_cookie e BPF_ANY (bpf_get_socket_cookie e) v a) k = None" for v
    by (rule update_cookie_absent [OF assms])
  then show ?thesis
    using assms(2) by (simp add: Connect4 tollwing_connect4_def Let_def lookup_original_dst_def split: option.split)
next
  case (Connect6 ctx)
  have "lookup_original_dst (update_cookie e BPF_ANY (bpf_get_socket_cookie e) v a) k = None" for v
    by (rule update_cookie_absent [OF assms])
  then show ?thesis
    using assms(2) by (simp add: Connect6 tollwing_connect6_def Let_def lookup_original_dst_def split: option.split)
next
  case (Sockops s)
  then show ?thesis
    using assms
    by (simp add: tollwing_sockops_def handle_established_def handle_state_change_def Let_def split_beta
        lookup_original_dst_def correlate_def delete_cookie_def split: option.split)
next
  case (Sock_release p)
  then show ?thesis
    using assms by (simp add: tollwing_sock_release_def Let_def lookup_original_dst_def delete_cookie_def)
qed (use assms(2) in \<open>simp_all add: lookup_original_dst_def byte_hook_simps dns_frame split: option.split\<close>)

lemma own_socket_untracked:
  assumes "bpf_get_socket_cookie e = k" and "lookup_connection a k = None" "lookup_original_dst a k = None"
    and "get_config a = Some c" "1 < ac_sample_rate c" and "sampled_out k (ac_sample_rate c) (e, ev)"
    and "\<And>ctx. \<not> should_sample e (ac_sample_rate c) \<Longrightarrow> connect_selected e ctx a = None"
  shows "lookup_connection (step (e, ev) a) k = None \<and> lookup_original_dst (step (e, ev) a) k = None"
proof (cases ev)
  case (Quic_egress pkt)
  show ?thesis
    by (rule step_quic [of e pkt a])
      (use assms(2,3) in \<open>simp_all add: Quic_egress lookup_original_dst_def lookup_connection_def record_quic_frame\<close>)
next
  case (Connect4 ctx)
  then show ?thesis using assms by (simp add: tollwing_connect4_def)
next
  case (Connect6 ctx)
  then show ?thesis using assms by (simp add: tollwing_connect6_def)
next
  case (Sockops s)
  then show ?thesis
    using assms by (simp add: tollwing_sockops_def handle_state_change_def Let_def)
next
  case (Sock_release p)
  then show ?thesis
    using assms(1-3) by (simp add: tollwing_sock_release_def Let_def lookup_original_dst_def lookup_connection_def
        delete_cookie_def delete_connection_def)
next
  case (Dns_recvmsg d)
  then show ?thesis using assms(2,3) by (simp add: lookup_original_dst_def lookup_connection_def dns_frame)
qed (use assms(1-3) in \<open>simp_all add: byte_hook_simps split: option.split\<close>)

lemma untracked_step:
  assumes "untracked k rate a" and "sampled_out k rate i"
  shows "untracked k rate (step i a)"
proof -
  obtain e ev where i: "i = (e, ev)" by fastforce
  have cfg: "get_config (step (e, ev) a) = get_config a" by (rule get_config_cong [OF step_config])
  from assms(1) obtain c where c: "lookup_connection a k = None" "lookup_original_dst a k = None"
    "get_config a = Some c" "ac_sample_rate c = rate" "1 < rate" by (auto simp: untracked_def)
  have unsampled: "connect_selected e ctx a = None" if "\<not> should_sample e rate" for ctx
    using that c by (auto simp: connect_selected_def Let_def)
  have "lookup_connection (step (e, ev) a) k = None \<and> lookup_original_dst (step (e, ev) a) k = None"
  proof (cases "bpf_get_socket_cookie e = k")
    case False
    have "lookup_connection (step (e, ev) a) k = None"
      using step_origin [of e ev a k] c(1) False by (cases "lookup_connection (step (e, ev) a) k") auto
    moreover have "lookup_original_dst (step (e, ev) a) k = None"
      using other_socket_cookie [OF False c(2)] .
    ultimately show ?thesis by simp
  next
    case True
    then show ?thesis using c assms(2) i own_socket_untracked [OF True c(1-3)] unsampled by simp
  qed
  then show ?thesis using c cfg by (simp add: i untracked_def)
qed

interpretation sampled: kept_by_steps step "untracked k rate" "sampled_out k rate"
  by unfold_locales (rule untracked_step)

section \<open>A QUIC flow over a sequence of packets\<close>

definition quic_run :: "(kenv \<times> u8 list) list \<Rightarrow> agent \<Rightarrow> agent" where
  "quic_run pkts = fold (\<lambda>(e, pkt). step (e, Quic_egress pkt)) pkts"

definition of_flow :: "quic_flow_key \<Rightarrow> kenv \<times> u8 list \<Rightarrow> bool" where
  "of_flow key p \<longleftrightarrow> (case parse_quic (snd p) of Some (Quic_packet k v h) \<Rightarrow> k = key | _ \<Rightarrow> False)"

lemma hash_other:
  "k \<noteq> key \<Longrightarrow> bpf_map_lookup_elem (snd (hash_update g fl k v m)) key = bpf_map_lookup_elem m key"
  by (auto simp: hash_update_def bpf_map_lookup_elem_def bpf_map_write_def split: option.split)

lemma record_quic_other:
  assumes "k \<noteq> key"
  shows "lookup_quic (record_quic e k v h m a) key = lookup_quic a key"
proof -
  have "lookup_quic (case hash_update g fl k x (quic_flows a) of (None, q) \<Rightarrow> a\<lparr>quic_flows := q\<rparr>
      | (Some _, q) \<Rightarrow> count_drop e i (a\<lparr>quic_flows := q\<rparr>)) key = lookup_quic a key" for g fl x i
    using hash_other [OF assms, of g fl x "quic_flows a"]
    by (cases "hash_update g fl k x (quic_flows a)") (auto simp: lookup_quic_def split: option.split)
  then show ?thesis
    using assms by (simp add: record_quic_def Let_def lookup_quic_def split: option.split)
qed

lemma quic_step_flow:
  assumes "lookup_quic a key = Some vals" and "get_config a = Some cfg" "ac_udp_socket_tx cfg = 0"
    and "smp_processor_id e < n"
  obtains vals' where "lookup_quic (step (e, Quic_egress pkt) a) key = Some vals'"
    "cpu_total n qm_tx_bytes vals' = cpu_total n qm_tx_bytes vals + (if of_flow key (e, pkt) then of_nat (length pkt) else 0)"
    "cpu_total n qm_pkt_count vals' = cpu_total n qm_pkt_count vals + (if of_flow key (e, pkt) then 1 else 0)"
    "get_config (step (e, Quic_egress pkt) a) = Some cfg"
proof -
  obtain p where p: "parse_quic pkt = Some p" using parse_quic_safe by blast
  have cfg: "get_config (step (e, Quic_egress pkt) a) = Some cfg"
    using get_config_cong [OF step_config] assms(2) by simp
  show thesis
  proof (cases p)
    case Pass
    then have "step (e, Quic_egress pkt) a = a" using assms p by (simp add: step_def tollwing_quic_egress_def)
    then show thesis using that [of vals] assms p Pass by (simp add: of_flow_def)
  next
    case (Quic_packet k v h)
    have rec: "step (e, Quic_egress pkt) a = record_quic e k v h (of_nat (length pkt)) a"
      using assms p Quic_packet by (simp add: step_def tollwing_quic_egress_def)
    show thesis
    proof (cases "k = key")
      case False
      have "lookup_quic (record_quic e k v h (of_nat (length pkt)) a) key = Some vals"
        using assms(1) by (simp add: record_quic_other [OF False])
      then show thesis using that [of vals] cfg p Quic_packet False rec by (simp add: of_flow_def)
    next
      case True
      let ?c = "smp_processor_id e"
      obtain x where x: "lookup_quic (record_quic e k v h (of_nat (length pkt)) a) key = Some (vals(?c := x))"
        "qm_tx_bytes x = qm_tx_bytes (vals ?c) + of_nat (length pkt)" "qm_pkt_count x = qm_pkt_count (vals ?c) + 1"
        using assms(1) True by (simp add: record_quic_def Let_def lookup_quic_def)
      then show thesis
        using that [of "vals(?c := x)"] cfg p Quic_packet True rec by (simp add: of_flow_def cpu_total_upd [OF assms(4)])
    qed
  qed
qed

lemma quic_run_flow:
  assumes "lookup_quic a key = Some vals" and "get_config a = Some cfg" "ac_udp_socket_tx cfg = 0"
    and "\<forall>(e, pkt) \<in> set pkts. smp_processor_id e < n"
  shows "\<exists>vals'. lookup_quic (quic_run pkts a) key = Some vals' \<and>
    cpu_total n qm_tx_bytes vals' =
      cpu_total n qm_tx_bytes vals + (\<Sum>p\<leftarrow>filter (of_flow key) pkts. of_nat (length (snd p))) \<and>
    cpu_total n qm_pkt_count vals' =
      cpu_total n qm_pkt_count vals + of_nat (length (filter (of_flow key) pkts))"
  using assms
proof (induction pkts arbitrary: a vals)
  case (Cons i pkts)
  obtain e pkt where i: "i = (e, pkt)" by fastforce
  have "smp_processor_id e < n" using Cons.prems(4) by (simp add: i)
  from quic_step_flow [OF Cons.prems(1-3) this, of pkt] obtain w where
    w: "lookup_quic (step (e, Quic_egress pkt) a) key = Some w"
      "cpu_total n qm_tx_bytes w = cpu_total n qm_tx_bytes vals + (if of_flow key (e, pkt) then of_nat (length pkt) else 0)"
      "cpu_total n qm_pkt_count w = cpu_total n qm_pkt_count vals + (if of_flow key (e, pkt) then 1 else 0)"
      "get_config (step (e, Quic_egress pkt) a) = Some cfg" by blast
  from Cons.IH [OF w(1,4) Cons.prems(3)] Cons.prems(4) show ?case
    by (auto simp: i quic_run_def w(2,3))
qed (simp add: quic_run_def)

end
