(* ===== verification/Event_Ledger.thy ===== *)
theory Event_Ledger
  imports Run_Ledger
begin

text \<open>
  The lifecycle events over runs of the whole system: what each invocation has to report, what of
  it is in the \<open>events\<close> ring, in which order, and what the drop counter shows.
\<close>

section \<open>What an invocation has to report\<close>

text \<open>The connection state a socket event is about, from the guards of the programs.\<close>

fun notice :: "kenv \<times> kevent \<Rightarrow> agent \<Rightarrow> event option" where
  "notice (e, Connect4 ctx) a =
     map_option (\<lambda>proto. Connect (connect4_event e ctx proto)) (connect_selected e ctx a)"
| "notice (e, Connect6 ctx) a =
     map_option (\<lambda>proto. Connect (connect6_event e ctx proto)) (connect_selected e ctx a)"
| "notice (e, Sockops s) a =
     (case get_config a of
        None \<Rightarrow> None
      | Some cfg \<Rightarrow>
          if so_family s \<noteq> AF_INET \<and> so_family s \<noteq> AF_INET6 then None
          else if so_op s = BPF_SOCK_OPS_ACTIVE_ESTABLISHED_CB then
            (if lookup_original_dst a (bpf_get_socket_cookie e) = None \<and> ac_sample_rate cfg > 1 then None
             else Some (Establish (establish_event_of e s 0 (fst (correlate e 0 a)))))
          else if so_op s = BPF_SOCK_OPS_PASSIVE_ESTABLISHED_CB then
            (if should_sample e (ac_sample_rate cfg)
             then Some (Establish (establish_event_of e s 1 (fst (correlate e 1 a)))) else None)
          else if so_op s = BPF_SOCK_OPS_STATE_CB \<and> sint (so_args1 s) = TCP_CLOSE then
            map_option (\<lambda>conn. Close (close_event_of e conn)) (lookup_connection a (bpf_get_socket_cookie e))
          else None)"
| "notice (e, _) a = None"

text \<open>A notice goes to the ring when memory is reserved for it; else it is one drop of its slot.\<close>

definition reported :: "nat \<Rightarrow> bool \<Rightarrow> event option \<Rightarrow> agent \<Rightarrow> agent \<Rightarrow> bool" where
  "reported n room nt a b \<longleftrightarrow>
     events b = events a @ (if room then (case nt of None \<Rightarrow> [] | Some evt \<Rightarrow> [evt]) else []) \<and>
     drops n DROP_SLOT_EVENTS_RINGBUF b =
       drops n DROP_SLOT_EVENTS_RINGBUF a + (if nt = None \<or> room then 0 else 1)"

lemma emit_reported:
  assumes "smp_processor_id e < n" and "events b = events a"
    and "drops n DROP_SLOT_EVENTS_RINGBUF b = drops n DROP_SLOT_EVENTS_RINGBUF a"
  shows "reported n (ring_reserved e) (Some evt) a (emit_event e evt b)"
  using drops_count_drop [OF assms(1), of DROP_SLOT_EVENTS_RINGBUF DROP_SLOT_EVENTS_RINGBUF b] assms(2,3)
  by (simp add: reported_def emit_event_def drops_cong [of "b\<lparr>events := es\<rparr>" b n DROP_SLOT_EVENTS_RINGBUF for es])

lemma silent_reported:
  assumes "events b = events a" and "drops n DROP_SLOT_EVENTS_RINGBUF b = drops n DROP_SLOT_EVENTS_RINGBUF a"
  shows "reported n room None a b"
  using assms by (simp add: reported_def)

lemma sock_ops_distinct:
  "BPF_SOCK_OPS_STATE_CB \<noteq> BPF_SOCK_OPS_ACTIVE_ESTABLISHED_CB"
  "BPF_SOCK_OPS_STATE_CB \<noteq> BPF_SOCK_OPS_PASSIVE_ESTABLISHED_CB"
  "BPF_SOCK_OPS_PASSIVE_ESTABLISHED_CB \<noteq> BPF_SOCK_OPS_ACTIVE_ESTABLISHED_CB"
  by (simp_all add: BPF_SOCK_OPS_STATE_CB_def BPF_SOCK_OPS_ACTIVE_ESTABLISHED_CB_def
      BPF_SOCK_OPS_PASSIVE_ESTABLISHED_CB_def)

lemma handle_established_reported:
  assumes cpu: "smp_processor_id e < n"
  shows "reported n (ring_reserved e) (Some (Establish (establish_event_of e s d (fst (correlate e d a))))) a
    (handle_established e s d a)"
proof -
  define a4 where "a4 = snd (detect_sidecar e s (bpf_sock_ops_cb_flags_set e s
    (so_bpf_sock_ops_cb_flags s OR BPF_SOCK_OPS_STATE_CB_FLAG)
    (update_connections e BPF_ANY (bpf_get_socket_cookie e) (established_conn e s d (fst (correlate e d a)))
      (snd (correlate e d a)))))"
  have "events a4 = events a" "drop_counters a4 = drop_counters a" by (simp_all add: a4_def)
  then have "drops n DROP_SLOT_EVENTS_RINGBUF (seed_flow e s d c a4) = drops n DROP_SLOT_EVENTS_RINGBUF a"
    "events (seed_flow e s d c a4) = events a" for c
    using flow_drops(2) [OF cpu, of DROP_SLOT_EVENTS_RINGBUF s d c a4] drops_cong [of a4 a n] by simp_all
  then show ?thesis
    using emit_reported [OF cpu] by (simp add: handle_established_def Let_def split_beta a4_def)
qed

lemma state_change_reported:
  assumes cpu: "smp_processor_id e < n"
  shows "reported n (ring_reserved e)
    (if sint (so_args1 s) = TCP_CLOSE
     then map_option (\<lambda>conn. Close (close_event_of e conn)) (lookup_connection a (bpf_get_socket_cookie e)) else None)
    a (handle_state_change e s a)"
proof -
  have "reported n r nt a (delete_connection k b)" if "reported n r nt a b" for r nt k b
    using that drops_cong [of "delete_connection k b" b n DROP_SLOT_EVENTS_RINGBUF] by (simp add: reported_def)
  then show ?thesis
    using emit_reported [OF cpu refl refl] silent_reported [OF refl refl]
    by (simp add: handle_state_change_def Let_def split: option.split)
qed

text \<open>Every invocation reports its notice: programs that have none leave ring and counter alone.\<close>

lemma step_reported:
  assumes cpu: "smp_processor_id e < n"
  shows "reported n (ring_reserved e) (notice (e, ev) a) a (step (e, ev) a)"
proof -
  note same = silent_reported [OF refl refl]
  have slot: "drops n DROP_SLOT_EVENTS_RINGBUF (update_flow_aggregate e c t r (write_connection k c a))
      = drops n DROP_SLOT_EVENTS_RINGBUF a"
    "drops n DROP_SLOT_EVENTS_RINGBUF (bump_flow e key f (write_connection k c a)) = drops n DROP_SLOT_EVENTS_RINGBUF a"
    for c t r k key f
    using flow_drops [OF cpu, of DROP_SLOT_EVENTS_RINGBUF] by simp_all
  show ?thesis
  proof (cases ev)
    case (Connect4 ctx)
    show ?thesis
    proof (cases "connect_selected e ctx a")
      case (Some proto)
      then show ?thesis
        using emit_reported [OF cpu] 
        by (simp add: Connect4 tollwing_connect4_def Let_def
            drops_cong [of "update_cookie e fl k v b" b for fl k v b]
            drops_cong [of "update_connections e fl k v b" b for fl k v b])
    qed (simp add: Connect4 tollwing_connect4_def same)
  next
    case (Connect6 ctx)
    show ?thesis
    proof (cases "connect_selected e ctx a")
      case (Some proto)
      then show ?thesis
        using emit_reported [OF cpu] 
        by (simp add: Connect6 tollwing_connect6_def Let_def drops_cong [of "update_cookie e fl k v b" b for fl k v b])
    qed (simp add: Connect6 tollwing_connect6_def same)
  next
    case (Sockops s)
    show ?thesis
      using handle_established_reported [OF cpu, of s _ a] state_change_reported [OF cpu, of s a] same
      by (auto simp: Sockops tollwing_sockops_def sock_ops_distinct split: option.split if_splits)
  next
    case (Quic_egress pkt)
    show ?thesis
      by (rule step_quic [of e pkt a]) (simp_all add: Quic_egress same silent_reported cpu record_quic_frame)
  next
    case (Sock_release p)
    then show ?thesis
      using connect_drops(4) cpu
      by (simp add: reported_def tollwing_sock_release_def Let_def
            drops_cong [of "delete_connection k b" b for k b] drops_cong [of "delete_cookie k b" b for k b])
  next
    case (Dns_recvmsg d)
    then show ?thesis by (simp add: silent_reported dns_frame cpu)
  qed (auto simp: byte_hook_simps slot intro!: silent_reported split: option.split)
qed

section \<open>Runs\<close>

text \<open>The log of a run: each notice with whether the ring had room for it.\<close>

fun sys_notice :: "sys_event \<Rightarrow> system \<Rightarrow> (bool \<times> event) list" where
  "sys_notice (Kernel e ev) s =
     (case notice (e, ev) (fst s) of None \<Rightarrow> [] | Some evt \<Rightarrow> [(ring_reserved e, evt)])"
| "sys_notice _ s = []"

definition notices :: "nat \<Rightarrow> sys_event list \<Rightarrow> system \<Rightarrow> (bool \<times> event) list" where
  "notices n evs s = concat (run_log sys_notice (sys_step n) evs s)"

lemma notices_simps [simp]:
  "notices n [] s = []"
  "notices n (ev # evs) s = sys_notice ev s @ notices n evs (sys_step n ev s)"
  by (simp_all add: notices_def)

lemma sys_step_reported:
  assumes "possible n ev"
  shows "events (fst (sys_step n ev s)) = events (fst s) @ map snd (filter fst (sys_notice ev s))"
    and "drops n DROP_SLOT_EVENTS_RINGBUF (fst (sys_step n ev s)) = drops n DROP_SLOT_EVENTS_RINGBUF (fst s)
      + of_nat (length (filter (\<lambda>x. \<not> fst x) (sys_notice ev s)))"
proof -
  have "events (fst (sys_step n ev s)) = events (fst s) @ map snd (filter fst (sys_notice ev s)) \<and>
    drops n DROP_SLOT_EVENTS_RINGBUF (fst (sys_step n ev s)) = drops n DROP_SLOT_EVENTS_RINGBUF (fst s)
      + of_nat (length (filter (\<lambda>x. \<not> fst x) (sys_notice ev s)))"
  proof (cases ev)
    case (Kernel e kev)
    have "smp_processor_id e < n" using assms by (simp add: Kernel)
    from step_reported [OF this, of kev "fst s"] show ?thesis
      by (cases s) (auto simp: Kernel reported_def simp del: step_simps split: option.split)
  qed (cases s; simp add: drops_def)+
  then show "events (fst (sys_step n ev s)) = events (fst s) @ map snd (filter fst (sys_notice ev s))"
    and "drops n DROP_SLOT_EVENTS_RINGBUF (fst (sys_step n ev s)) = drops n DROP_SLOT_EVENTS_RINGBUF (fst s)
      + of_nat (length (filter (\<lambda>x. \<not> fst x) (sys_notice ev s)))" by auto
qed

lemma run_reported:
  assumes "\<forall>ev \<in> set evs. possible n ev"
  shows "events (fst (fold (sys_step n) evs s)) = events (fst s) @ map snd (filter fst (notices n evs s))"
    and "drops n DROP_SLOT_EVENTS_RINGBUF (fst (fold (sys_step n) evs s)) =
      drops n DROP_SLOT_EVENTS_RINGBUF (fst s) + of_nat (length (filter (\<lambda>x. \<not> fst x) (notices n evs s)))"
proof -
  have "events (fst (fold (sys_step n) evs s)) = events (fst s) @ map snd (filter fst (notices n evs s)) \<and>
    drops n DROP_SLOT_EVENTS_RINGBUF (fst (fold (sys_step n) evs s)) =
      drops n DROP_SLOT_EVENTS_RINGBUF (fst s) + of_nat (length (filter (\<lambda>x. \<not> fst x) (notices n evs s)))"
    using assms by (induction evs arbitrary: s) (simp_all add: sys_step_reported)
  then show "events (fst (fold (sys_step n) evs s)) = events (fst s) @ map snd (filter fst (notices n evs s))"
    and "drops n DROP_SLOT_EVENTS_RINGBUF (fst (fold (sys_step n) evs s)) =
      drops n DROP_SLOT_EVENTS_RINGBUF (fst s) + of_nat (length (filter (\<lambda>x. \<not> fst x) (notices n evs s)))"
    by auto
qed

section \<open>A connection is closed at most once\<close>

fun opens :: "u64 \<Rightarrow> event \<Rightarrow> bool" where
  "opens k (Connect c) \<longleftrightarrow> cn_cookie c = k \<and> cn_protocol c = IPPROTO_UDP"
| "opens k (Establish s) \<longleftrightarrow> es_cookie s = k"
| "opens k (Close c) \<longleftrightarrow> False"

fun closes :: "u64 \<Rightarrow> event \<Rightarrow> bool" where
  "closes k (Close c) \<longleftrightarrow> cl_cookie c = k"
| "closes k _ \<longleftrightarrow> False"

text \<open>A connection enters the table with a notice that opens it \<dots>\<close>

lemma entry_opens:
  assumes "lookup_connection a k = None" and "lookup_connection (step (e, ev) a) k \<noteq> None"
  shows "\<exists>evt. notice (e, ev) a = Some evt \<and> opens k evt"
proof -
  obtain ci where "lookup_connection (step (e, ev) a) k = Some ci" using assms(2) by auto
  then have new: "k = bpf_get_socket_cookie e" "new_connection e ev a ci"
    using step_origin [of e ev a k ci] assms(1) by auto
  from new(2) consider (udp) ctx where "ev = Connect4 ctx" "connect_selected e ctx a = Some IPPROTO_UDP"
    | (outgoing) s where "ev = Sockops s" "get_config a \<noteq> None" "so_op s = BPF_SOCK_OPS_ACTIVE_ESTABLISHED_CB"
    | (incoming) s where "ev = Sockops s" "get_config a \<noteq> None" "so_op s = BPF_SOCK_OPS_PASSIVE_ESTABLISHED_CB"
    unfolding new_connection_def by blast
  then show ?thesis
  proof cases
    case udp
    then show ?thesis by (simp add: connect4_event_def new(1))
  next
    case outgoing
    then obtain cfg where cfg: "get_config a = Some cfg" by blast
    have "so_family s = AF_INET \<or> so_family s = AF_INET6"
      by (rule ccontr) (use assms outgoing cfg in \<open>simp add: tollwing_sockops_def\<close>)
    with assms outgoing cfg show ?thesis
      by (cases "lookup_original_dst a k = None \<and> 1 < ac_sample_rate cfg"; elim disjE)
        (simp_all add: tollwing_sockops_def establish_event_of_def new(1) del: de_Morgan_conj)
  next
    case incoming
    then obtain cfg where cfg: "get_config a = Some cfg" by blast
    have "so_family s = AF_INET \<or> so_family s = AF_INET6"
      by (rule ccontr) (use assms incoming cfg in \<open>simp add: tollwing_sockops_def\<close>)
    with assms incoming cfg show ?thesis
      by (cases "should_sample e (ac_sample_rate cfg)"; elim disjE)
        (simp_all add: tollwing_sockops_def sock_ops_distinct establish_event_of_def new(1))
  qed
qed

text \<open>\<dots> and leaves it with the notice that closes it.\<close>

lemma close_ends:
  assumes "notice (e, ev) a = Some evt" and "closes k evt"
  shows "lookup_connection a k \<noteq> None \<and> lookup_connection (step (e, ev) a) k = None"
proof -
  show ?thesis
  proof (cases ev)
    case (Sockops s)
    obtain c where c: "evt = Close c" "cl_cookie c = k" using assms(2) by (cases evt) auto
    obtain cfg where get: "get_config a = Some cfg"
      using assms(1) by (cases "get_config a") (simp_all add: Sockops)
    from assms(1) c obtain conn where cfg: "get_config a = Some cfg"
      and op: "so_op s = BPF_SOCK_OPS_STATE_CB" "sint (so_args1 s) = TCP_CLOSE"
        "so_family s = AF_INET \<or> so_family s = AF_INET6"
      and conn: "lookup_connection a (bpf_get_socket_cookie e) = Some conn" and k: "k = bpf_get_socket_cookie e"
      by (simp add: Sockops get close_event_of_def Let_def split: if_split_asm) (fastforce)
    from op(3) have "snd (tollwing_sockops e s a) = handle_state_change e s a"
      using cfg op(1) by (elim disjE) (simp_all add: tollwing_sockops_def sock_ops_distinct)
    then show ?thesis
      using op(2) conn by (simp add: Sockops k handle_state_change_def Let_def)
  qed (use assms in auto)
qed

definition tracked :: "u64 \<Rightarrow> system \<Rightarrow> nat" where
  "tracked k s = (if lookup_connection (fst s) k = None then 0 else 1)"

definition count_of :: "(event \<Rightarrow> bool) \<Rightarrow> (bool \<times> event) list \<Rightarrow> nat" where
  "count_of P log = length (filter (\<lambda>x. P (snd x)) log)"

lemma count_of_append [simp]:
  "count_of P [] = 0" "count_of P (xs @ ys) = count_of P xs + count_of P ys"
  by (simp_all add: count_of_def)

lemma step_tracked:
  "tracked k (sys_step n ev s) + count_of (closes k) (sys_notice ev s)
    \<le> tracked k s + count_of (opens k) (sys_notice ev s)"
proof -
  obtain a fl where s: "s = (a, fl)" by fastforce
  show ?thesis
  proof (cases ev)
    case (Kernel e kev)
    have "tracked k (sys_step n ev s) + (if \<exists>evt. notice (e, kev) a = Some evt \<and> closes k evt then 1 else 0)
        \<le> tracked k s + (if \<exists>evt. notice (e, kev) a = Some evt \<and> opens k evt then 1 else 0)"
      using entry_opens [of a k e kev] close_ends [of e kev a _ k]
      by (auto simp: s Kernel tracked_def simp del: step_simps)
    then show ?thesis
      by (auto simp: s Kernel count_of_def simp del: step_simps split: option.splits if_splits)
  qed (simp_all add: s tracked_def lookup_connection_def)
qed

lemma run_tracked:
  "tracked k (fold (sys_step n) evs s) + count_of (closes k) (notices n evs s)
    \<le> tracked k s + count_of (opens k) (notices n evs s)"
proof (induction evs arbitrary: s)
  case (Cons ev evs)
  show ?case using Cons.IH [of "sys_step n ev s"] step_tracked [of k n ev s] by simp
qed simp

end
