(* ===== verification/Loader.thy ===== *)
theory Loader
  imports Poller
begin

text \<open>
  Which programs run together: the attach decisions of \<open>pkg/ebpf/loader.go\<close>. Whether the
  kernel supports a feature or accepts an attachment is an argument; what the loader makes of
  the answers decides which programs count a byte.
\<close>

section \<open>Programs and links\<close>

datatype program =
  P_connect4 | P_connect6 | P_sockops | P_sock_release
| P_tcp_sendmsg | P_tcp_cleanup_rbuf | P_tcp_sendmsg_fentry | P_tcp_cleanup_rbuf_fentry
| P_tcp_retransmit | P_tcp_loss_probe | P_dns_recvmsg | P_udp_sendmsg | P_udp_recvmsg_exit
| P_quic_egress

definition all_programs :: "program list" where
  "all_programs = [P_connect4, P_connect6, P_sockops, P_sock_release, P_tcp_sendmsg,
     P_tcp_cleanup_rbuf, P_tcp_sendmsg_fentry, P_tcp_cleanup_rbuf_fentry, P_tcp_retransmit,
     P_tcp_loss_probe, P_dns_recvmsg, P_udp_sendmsg, P_udp_recvmsg_exit, P_quic_egress]"

definition remove_programs :: "program list \<Rightarrow> program list \<Rightarrow> program list" where
  "remove_programs names spec = filter (\<lambda>p. p \<notin> set names) spec"

definition prune_optional_programs :: "bool \<Rightarrow> bool \<Rightarrow> program list \<Rightarrow> program list" where
  "prune_optional_programs have_fentry have_tcx spec =
     (let spec1 = (if \<not> have_fentry
                   then remove_programs [P_tcp_retransmit, P_tcp_loss_probe, P_dns_recvmsg,
                          P_udp_recvmsg_exit, P_udp_sendmsg, P_tcp_sendmsg_fentry,
                          P_tcp_cleanup_rbuf_fentry] spec
                   else remove_programs [P_tcp_sendmsg, P_tcp_cleanup_rbuf] spec)
      in if \<not> have_tcx then remove_programs [P_quic_egress] spec1 else spec1)"

text \<open>An attachment succeeds when the program is loaded and the kernel accepts it; the link is kept.\<close>

type_synonym links = "program list"

definition attach :: "(program \<Rightarrow> bool) \<Rightarrow> program list \<Rightarrow> program \<Rightarrow> links \<Rightarrow> bool \<times> links" where
  "attach accepts coll p ls =
     (if p \<notin> set coll then (False, ls)
      else if \<not> accepts p then (False, ls)
      else (True, ls @ [p]))"

section \<open>Byte counting: fentry, else kprobe\<close>

definition attach_kprobes :: "(program \<Rightarrow> bool) \<Rightarrow> program list \<Rightarrow> links \<Rightarrow> bool \<times> links" where
  "attach_kprobes accepts coll ls =
     (case attach accepts coll P_tcp_sendmsg ls of
        (False, ls1) \<Rightarrow> (False, ls1)
      | (True, ls1) \<Rightarrow> attach accepts coll P_tcp_cleanup_rbuf ls1)"

definition attach_byte_counting_hooks ::
  "bool \<Rightarrow> (program \<Rightarrow> bool) \<Rightarrow> program list \<Rightarrow> links \<Rightarrow> bool \<times> links" where
  "attach_byte_counting_hooks have_fentry accepts coll ls =
     (if have_fentry then
        (let (sendmsg_ok, ls1) =
               (if P_tcp_sendmsg_fentry \<in> set coll
                then attach accepts coll P_tcp_sendmsg_fentry ls else (False, ls));
             (cleanup_ok, ls2) =
               (if P_tcp_cleanup_rbuf_fentry \<in> set coll
                then attach accepts coll P_tcp_cleanup_rbuf_fentry ls1 else (False, ls1))
         in if sendmsg_ok \<and> cleanup_ok then (True, ls2) else attach_kprobes accepts coll ls2)
      else attach_kprobes accepts coll ls)"

section \<open>The whole attach sequence\<close>

text \<open>A failed optional attachment is logged; a failed required one ends the start with \<open>None\<close>.\<close>

definition require :: "bool \<times> links \<Rightarrow> links option" where
  "require r = (if fst r then Some (snd r) else None)"

definition optional :: "(program \<Rightarrow> bool) \<Rightarrow> program list \<Rightarrow> program \<Rightarrow> links \<Rightarrow> links" where
  "optional accepts coll p ls = snd (attach accepts coll p ls)"

definition attach_cgroup_programs :: "(program \<Rightarrow> bool) \<Rightarrow> program list \<Rightarrow> links option" where
  "attach_cgroup_programs accepts coll =
     (case require (attach accepts coll P_connect4 []) of
        None \<Rightarrow> None
      | Some l1 \<Rightarrow>
          (case require (attach accepts coll P_sockops (optional accepts coll P_connect6 l1)) of
             None \<Rightarrow> None
           | Some l2 \<Rightarrow> Some (optional accepts coll P_sock_release l2)))"

definition attach_optional_programs ::
  "bool \<Rightarrow> bool \<Rightarrow> bool \<Rightarrow> (program \<Rightarrow> bool) \<Rightarrow> program list \<Rightarrow> links \<Rightarrow> links" where
  "attach_optional_programs have_fentry have_tcx have_interface accepts coll ls =
     (let l4 = (if have_fentry
           then fold (optional accepts coll)
             [P_tcp_retransmit, P_tcp_loss_probe, P_dns_recvmsg, P_udp_sendmsg, P_udp_recvmsg_exit] ls
           else ls)
      in if P_quic_egress \<in> set coll \<and> have_interface \<and> have_tcx
         then optional accepts coll P_quic_egress l4 else l4)"

definition start_attach ::
  "bool \<Rightarrow> bool \<Rightarrow> bool \<Rightarrow> (program \<Rightarrow> bool) \<Rightarrow> program list \<Rightarrow> links option" where
  "start_attach have_fentry have_tcx have_interface accepts coll =
     (case attach_cgroup_programs accepts coll of
        None \<Rightarrow> None
      | Some l2 \<Rightarrow>
          (case require (attach_byte_counting_hooks have_fentry accepts coll l2) of
             None \<Rightarrow> None
           | Some l3 \<Rightarrow>
               Some (attach_optional_programs have_fentry have_tcx have_interface accepts coll l3)))"

definition udp_sendmsg_attached :: "links \<Rightarrow> bool" where
  "udp_sendmsg_attached ls \<longleftrightarrow> P_udp_sendmsg \<in> set ls"

section \<open>Facts\<close>

text \<open>Fentry and kprobe programs are never in one collection after the pruning.\<close>

lemma pruned_disjoint:
  assumes "set coll \<subseteq> set (prune_optional_programs hf ht spec)"
  shows "hf \<Longrightarrow> P_tcp_sendmsg \<notin> set coll \<and> P_tcp_cleanup_rbuf \<notin> set coll"
    and "\<not> hf \<Longrightarrow> P_tcp_sendmsg_fentry \<notin> set coll \<and> P_tcp_cleanup_rbuf_fentry \<notin> set coll
      \<and> P_udp_sendmsg \<notin> set coll"
  using assms by (auto simp: prune_optional_programs_def remove_programs_def Let_def split: if_splits)

lemma attach_kprobes_missing: "P_tcp_sendmsg \<notin> set coll \<Longrightarrow> \<not> fst (attach_kprobes accepts coll ls)"
  by (simp add: attach_kprobes_def attach_def)

lemma byte_counting_exact:
  assumes coll: "set coll \<subseteq> set (prune_optional_programs hf ht spec)"
    and ok: "attach_byte_counting_hooks hf accepts coll ls = (True, ls')"
  shows "ls' = ls @ (if hf then [P_tcp_sendmsg_fentry, P_tcp_cleanup_rbuf_fentry]
                     else [P_tcp_sendmsg, P_tcp_cleanup_rbuf])"
  using ok pruned_disjoint [OF coll] attach_kprobes_missing [of coll accepts]
  by (auto simp: attach_byte_counting_hooks_def attach_kprobes_def attach_def Let_def split: if_splits bool.splits)

text \<open>When fentry is there but an attachment is refused, the announced fall back to kprobe cannot happen.\<close>

lemma no_fallback:
  assumes coll: "set coll \<subseteq> set (prune_optional_programs True ht spec)"
    and refused: "\<not> accepts P_tcp_sendmsg_fentry \<or> \<not> accepts P_tcp_cleanup_rbuf_fentry"
  shows "start_attach True ht hi accepts coll = None"
proof -
  have "\<not> fst (attach_byte_counting_hooks True accepts coll ls)" for ls
    using attach_kprobes_missing [of coll accepts] pruned_disjoint(1) [OF coll] refused
    by (auto simp: attach_byte_counting_hooks_def attach_def Let_def)
  then show ?thesis by (simp add: start_attach_def require_def split: option.split)
qed

lemma optional_links: "set (optional accepts coll p ls) = set ls \<union> (if p \<in> set coll \<and> accepts p then {p} else {})"
  by (simp add: optional_def attach_def)

lemma cgroup_links:
  "attach_cgroup_programs accepts coll = Some l2 \<Longrightarrow>
    set l2 \<subseteq> {P_connect4, P_connect6, P_sockops, P_sock_release}"
  by (auto simp: attach_cgroup_programs_def require_def optional_def attach_def split: if_splits)

lemma optional_program_links:
  "set ls \<subseteq> set (attach_optional_programs hf ht hi accepts coll ls)"
  "set (attach_optional_programs hf ht hi accepts coll ls) \<subseteq> set ls \<union>
    {P_tcp_retransmit, P_tcp_loss_probe, P_dns_recvmsg, P_udp_sendmsg, P_udp_recvmsg_exit, P_quic_egress}"
  by (auto simp: attach_optional_programs_def Let_def optional_links split: if_splits)

lemma start_byte_programs:
  assumes coll: "set coll \<subseteq> set (prune_optional_programs hf ht spec)"
    and start: "start_attach hf ht hi accepts coll = Some ls"
  shows "set ls \<inter> {P_tcp_sendmsg, P_tcp_sendmsg_fentry, P_tcp_cleanup_rbuf, P_tcp_cleanup_rbuf_fentry} =
    (if hf then {P_tcp_sendmsg_fentry, P_tcp_cleanup_rbuf_fentry} else {P_tcp_sendmsg, P_tcp_cleanup_rbuf})"
proof -
  obtain l2 l3 where cg: "attach_cgroup_programs accepts coll = Some l2"
    and bc: "attach_byte_counting_hooks hf accepts coll l2 = (True, l3)"
    and ls: "ls = attach_optional_programs hf ht hi accepts coll l3"
    using start by (auto simp: start_attach_def require_def prod_eq_iff split: option.splits if_splits)
  have "set l3 = set l2 \<union>
      (if hf then {P_tcp_sendmsg_fentry, P_tcp_cleanup_rbuf_fentry} else {P_tcp_sendmsg, P_tcp_cleanup_rbuf})"
    using byte_counting_exact [OF coll bc] by auto
  then show ?thesis
    using cgroup_links [OF cg] optional_program_links [where ls = l3 and hf = hf and ht = ht and hi = hi and accepts = accepts and coll = coll] by (auto simp: ls)
qed

text \<open>What the configuration is told about \<open>udp_sendmsg\<close> is what was attached.\<close>

lemma start_udp_sendmsg:
  assumes coll: "set coll \<subseteq> set (prune_optional_programs hf ht spec)"
    and start: "start_attach hf ht hi accepts coll = Some ls"
  shows "udp_sendmsg_attached ls \<longleftrightarrow> hf \<and> P_udp_sendmsg \<in> set coll \<and> accepts P_udp_sendmsg"
proof -
  obtain l2 l3 where cg: "attach_cgroup_programs accepts coll = Some l2"
    and bc: "attach_byte_counting_hooks hf accepts coll l2 = (True, l3)"
    and ls: "ls = attach_optional_programs hf ht hi accepts coll l3"
    using start by (auto simp: start_attach_def require_def prod_eq_iff split: option.splits if_splits)
  have "P_udp_sendmsg \<notin> set l3"
    using byte_counting_exact [OF coll bc] cgroup_links [OF cg] by (auto split: if_splits)
  then show ?thesis
    by (auto simp: ls udp_sendmsg_attached_def attach_optional_programs_def Let_def optional_links split: if_splits)
qed

end
