(* ===== verification/Loader_Load.thy ===== *)
theory Loader_Load
  imports Loader "HOL-Library.Sublist"
begin

text \<open>
  How the loader gets a collection past the verifier: \<open>loadCollectionWithFallback\<close> of
  \<open>pkg/ebpf/loader.go\<close>. The kernel names a program that it rejects in its error text; when that
  program is optional the loader removes it and tries again, five times at most. What the
  kernel says of a spec is the argument \<open>new_collection\<close>: \<open>None\<close> when it loads, else the text.
\<close>

section \<open>Names and error texts\<close>

fun program_name :: "program \<Rightarrow> string" where
  "program_name P_connect4 = ''tollwing_connect4''"
| "program_name P_connect6 = ''tollwing_connect6''"
| "program_name P_sockops = ''tollwing_sockops''"
| "program_name P_sock_release = ''tollwing_sock_release''"
| "program_name P_tcp_sendmsg = ''tollwing_tcp_sendmsg''"
| "program_name P_tcp_cleanup_rbuf = ''tollwing_tcp_cleanup_rbuf''"
| "program_name P_tcp_sendmsg_fentry = ''tollwing_tcp_sendmsg_fentry''"
| "program_name P_tcp_cleanup_rbuf_fentry = ''tollwing_tcp_cleanup_rbuf_fentry''"
| "program_name P_tcp_retransmit = ''tollwing_tcp_retransmit''"
| "program_name P_tcp_loss_probe = ''tollwing_tcp_loss_probe''"
| "program_name P_dns_recvmsg = ''tollwing_dns_recvmsg''"
| "program_name P_udp_sendmsg = ''tollwing_udp_sendmsg''"
| "program_name P_udp_recvmsg_exit = ''tollwing_udp_recvmsg_exit''"
| "program_name P_quic_egress = ''tollwing_quic_egress''"

definition optional_programs :: "program list" where
  "optional_programs = [P_connect6, P_sock_release, P_tcp_retransmit, P_tcp_loss_probe, P_dns_recvmsg,
     P_udp_recvmsg_exit, P_udp_sendmsg, P_quic_egress, P_tcp_sendmsg_fentry, P_tcp_cleanup_rbuf_fentry,
     P_tcp_sendmsg, P_tcp_cleanup_rbuf]"

text \<open>\<open>bytes.Contains\<close> is the sublist relation on strings.\<close>

definition contains_prog_name :: "string \<Rightarrow> string \<Rightarrow> bool" where
  "contains_prog_name err_msg prog_name \<longleftrightarrow>
     0 < length err_msg \<and> 0 < length prog_name \<and> sublist (''program '' @ prog_name) err_msg"

section \<open>The loop\<close>

text \<open>\<open>range\<close> over the optional programs comes in any order, a new one at each attempt.\<close>

fun load_with_fallback ::
  "nat \<Rightarrow> (program list \<Rightarrow> string option) \<Rightarrow> (nat \<Rightarrow> program list) \<Rightarrow> program list \<Rightarrow> string + program list" where
  "load_with_fallback 0 new_collection order spec =
     (case new_collection spec of None \<Rightarrow> Inr spec | Some err \<Rightarrow> Inl err)"
| "load_with_fallback (Suc k) new_collection order spec =
     (case new_collection spec of
        None \<Rightarrow> Inr spec
      | Some err \<Rightarrow>
          (case find (\<lambda>name. name \<in> set spec \<and> contains_prog_name err (program_name name)) (order k) of
             None \<Rightarrow> Inl err
           | Some name \<Rightarrow>
               load_with_fallback k new_collection order (remove_programs [name] spec)))"

definition load_collection_with_fallback ::
  "(program list \<Rightarrow> string option) \<Rightarrow> (nat \<Rightarrow> program list) \<Rightarrow> program list \<Rightarrow> string + program list" where
  "load_collection_with_fallback = load_with_fallback 5"

section \<open>What the loop achieves\<close>

text \<open>
  The documented behaviour of the verifier and of the error texts of \<open>cilium/ebpf\<close>: a spec
  loads unless it has a rejected program, and the text then names one of these, with
  \<open>program <name>:\<close>; it mentions no other program of the object.
\<close>

definition verifier :: "program set \<Rightarrow> (program list \<Rightarrow> string option) \<Rightarrow> bool" where
  "verifier rejected new_collection \<longleftrightarrow> (\<forall>spec.
     (case new_collection spec of
        None \<Rightarrow> set spec \<inter> rejected = {}
      | Some err \<Rightarrow> (\<exists>p \<in> set spec \<inter> rejected. \<exists>rest.
          err = ''program '' @ program_name p @ '': '' @ rest \<and> \<not> sublist ''program tollwing'' rest)))"

lemma prefix_up_to: "c \<notin> set xs \<Longrightarrow> prefix xs (ys @ c # zs) \<longleftrightarrow> prefix xs ys"
proof (induction xs arbitrary: ys)
  case (Cons x xs)
  then show ?case by (cases ys) auto
qed simp

lemma name_starts: obtains rest where "program_name p = ''tollwing'' @ rest"
  by (cases p) auto

lemma name_no_colon: "CHR '':'' \<notin> set (program_name p)"
  by (cases p) simp_all

lemma program_word_once:
  "sublist (''program '' @ name) (''program '' @ program_name p @ '': '' @ rest) \<longleftrightarrow>
    prefix name (program_name p @ '': '' @ rest) \<or> sublist (''program '' @ name) rest"
  by (cases p) (simp_all add: sublist_Cons_right)

text \<open>The text of \<open>p\<close> contains the name of \<open>q\<close> exactly when the name of \<open>q\<close> is a prefix.\<close>

lemma contains_prefix:
  assumes "\<not> sublist ''program tollwing'' rest"
  shows "contains_prog_name (''program '' @ program_name p @ '': '' @ rest) (program_name q) \<longleftrightarrow>
    prefix (program_name q) (program_name p)"
proof -
  obtain more where q: "program_name q = ''tollwing'' @ more" by (rule name_starts)
  have "sublist ''program tollwing'' (''program '' @ program_name q)"
    using sublist_appendI [of "''program tollwing''" "[]" more] by (simp add: q)
  then have "\<not> sublist (''program '' @ program_name q) rest"
    using assms sublist_order.order_trans by blast
  moreover have "program_name q \<noteq> []" by (simp add: q)
  ultimately show ?thesis
    using program_word_once [of "program_name q" p rest] prefix_up_to [OF name_no_colon [of q], of "program_name p"]
    by (simp add: contains_prog_name_def)
qed

text \<open>After the pruning no name of a loaded program is a prefix of another's.\<close>

lemma pruned_prefix:
  assumes "set spec \<subseteq> set (prune_optional_programs hf ht all_programs)" and "p \<in> set spec" "q \<in> set spec"
    and "prefix (program_name q) (program_name p)"
  shows "q = p"
  using assms by (cases p; cases q) (auto simp: prune_optional_programs_def remove_programs_def Let_def split: if_splits)

lemma verifierD:
  assumes "verifier rejected nc"
  shows "nc spec = None \<Longrightarrow> set spec \<inter> rejected = {}"
    and "nc spec = Some err \<Longrightarrow> \<exists>p \<in> set spec \<inter> rejected. \<forall>q. contains_prog_name err (program_name q) \<longleftrightarrow>
      prefix (program_name q) (program_name p)"
  using spec [OF assms [unfolded verifier_def], of spec] contains_prefix by auto

text \<open>
  So an attempt that fails removes exactly the rejected program that the kernel names, when it
  is optional; the rejected programs get fewer by one.
\<close>

lemma attempt_removes:
  assumes ver: "verifier rejected nc" and err: "nc spec = Some err"
    and pruned: "set spec \<subseteq> set (prune_optional_programs hf ht all_programs)"
    and order: "set (order k) = set optional_programs"
  obtains p where "p \<in> set spec \<inter> rejected"
    "find (\<lambda>name. name \<in> set spec \<and> contains_prog_name err (program_name name)) (order k) =
      (if p \<in> set optional_programs then Some p else None)"
proof -
  obtain p where p: "p \<in> set spec \<inter> rejected"
    "\<And>q. contains_prog_name err (program_name q) \<longleftrightarrow> prefix (program_name q) (program_name p)"
    using verifierD(2) [OF ver err] by blast
  have only: "name \<in> set spec \<and> contains_prog_name err (program_name name) \<longleftrightarrow> name = p" for name
    using p pruned_prefix [OF pruned, of p name] by auto
  have "find (\<lambda>name. name = p) xs = (if p \<in> set xs then Some p else None)" for xs
    by (induction xs) auto
  then show thesis using that [OF p(1)] order unfolding only by simp
qed

lemma remove_one: "set (remove_programs [p] spec) = set spec - {p}"
  "p \<in> R \<Longrightarrow> filter (\<lambda>q. q \<notin> R) (remove_programs [p] spec) = filter (\<lambda>q. q \<notin> R) spec"
  by (auto simp: remove_programs_def filter_filter intro: filter_cong)

lemma none_rejected: "set xs \<inter> rejected = {} \<Longrightarrow> filter (\<lambda>p. p \<notin> rejected) xs = xs"
  by (auto intro: filter_True)

lemma load_exact:
  assumes ver: "verifier rejected nc" and order: "\<forall>k. set (order k) = set optional_programs"
    and pruned: "set spec \<subseteq> set (prune_optional_programs hf ht all_programs)"
  shows "if set spec \<inter> rejected \<subseteq> set optional_programs \<and> card (set spec \<inter> rejected) \<le> k
    then load_with_fallback k nc order spec = Inr (filter (\<lambda>p. p \<notin> rejected) spec)
    else \<exists>err. load_with_fallback k nc order spec = Inl err"
  using pruned
proof (induction k arbitrary: spec)
  case 0
  show ?case
  proof (cases "nc spec")
    case None
    with verifierD(1) [OF ver None] show ?thesis by (simp add: none_rejected)
  next
    case (Some err)
    then obtain p where "p \<in> set spec \<inter> rejected" using verifierD(2) [OF ver] by blast
    then have "card (set spec \<inter> rejected) \<noteq> 0" by auto
    with Some show ?thesis by auto
  qed
next
  case (Suc k)
  show ?case
  proof (cases "nc spec")
    case None
    with verifierD(1) [OF ver None] show ?thesis by (simp add: none_rejected)
  next
    case (Some err)
    obtain p where p: "p \<in> set spec \<inter> rejected"
      "find (\<lambda>name. name \<in> set spec \<and> contains_prog_name err (program_name name)) (order k) =
        (if p \<in> set optional_programs then Some p else None)"
      using attempt_removes [OF ver Some Suc.prems] order by metis
    show ?thesis
    proof (cases "p \<in> set optional_programs")
      case False
      then show ?thesis using Some p by auto
    next
      case True
      let ?spec = "remove_programs [p] spec"
      have rest: "set ?spec \<inter> rejected = set spec \<inter> rejected - {p}" by (auto simp: remove_one)
      then have "card (set ?spec \<inter> rejected) + 1 = card (set spec \<inter> rejected)"
        using card_Suc_Diff1 [OF _ p(1)] by simp
      moreover have "set ?spec \<inter> rejected \<subseteq> set optional_programs \<longleftrightarrow> set spec \<inter> rejected \<subseteq> set optional_programs"
        using True rest by auto
      moreover have "set ?spec \<subseteq> set (prune_optional_programs hf ht all_programs)"
        using Suc.prems by (auto simp: remove_one)
      moreover have "filter (\<lambda>q. q \<notin> rejected) ?spec = filter (\<lambda>q. q \<notin> rejected) spec"
        using p(1) remove_one(2) by blast
      ultimately show ?thesis using Suc.IH [of ?spec] Some p True by (auto split: if_splits)
    qed
  qed
qed

end
