(* ===== verification/Agent_Start.thy ===== *)
theory Agent_Start
  imports Loader_Load Agent_System
begin

text \<open>
  The start of the agent: \<open>CheckRequired\<close> and the probes of \<open>pkg/ebpf/features.go\<close>, then
  \<open>Start\<close>, \<open>SetEnabled\<close> and \<open>Close\<close> of \<open>pkg/ebpf/loader.go\<close> with their errors as values, and
  the exact outcome of a start in terms of the kernel's answers.
\<close>

section \<open>Feature probes\<close>

text \<open>\<open>ProbeAll\<close>: what must be there, by the name that the error shows.\<close>

definition required_probes :: "string list" where
  "required_probes = [''cgroup_sock_addr'', ''sock_ops'', ''kprobe'', ''ringbuf'', ''lru_hash'', ''percpu_hash'',
     ''get_socket_cookie (cgroup)'', ''get_current_pid_tgid (cgroup)'', ''get_current_cgroup_id (cgroup)'',
     ''ringbuf_reserve (cgroup)'']"

definition check_required :: "(string \<Rightarrow> bool) \<Rightarrow> string list" where
  "check_required supported = filter (\<lambda>name. \<not> supported name) required_probes"

text \<open>
  \<open>HaveTCX\<close>: a link is attempted on an interface that cannot exist; only a kernel that knows the
  link type gets as far as not finding the device. \<open>None\<close> is an attachment without an error.
\<close>

datatype errno = ENODEV | Other_errno

definition probe_tcx :: "bool \<Rightarrow> errno option \<Rightarrow> bool" where
  "probe_tcx prog_loads attach_err \<longleftrightarrow> prog_loads \<and> (attach_err = None \<or> attach_err = Some ENODEV)"

section \<open>The loader\<close>

record loader_config =
  lc_enabled :: bool
  lc_track_udp :: bool
  lc_sample_rate :: u8
  lc_aggregation_ns :: u64
  lc_map_sizes :: map_sizes

definition set_loader_defaults :: "loader_config \<Rightarrow> loader_config" where
  "set_loader_defaults c = c\<lparr>lc_sample_rate := (if lc_sample_rate c = 0 then 1 else lc_sample_rate c),
     lc_aggregation_ns := (if lc_aggregation_ns c = 0 then 5000000000 else lc_aggregation_ns c)\<rparr>"

text \<open>The loader's fields; \<open>ld_agent\<close> is the state of the maps while a collection is open.\<close>

record loader =
  ld_config :: loader_config
  ld_agent :: "agent option"
  ld_links :: links
  ld_reading :: bool
  ld_udp_sendmsg_attached :: bool

definition new_loader :: "loader_config \<Rightarrow> loader" where
  "new_loader c = \<lparr>ld_config = set_loader_defaults c, ld_agent = None, ld_links = [], ld_reading = False,
     ld_udp_sendmsg_attached = False\<rparr>"

definition close_loader :: "loader \<Rightarrow> loader" where
  "close_loader l = l\<lparr>ld_agent := None, ld_links := [], ld_reading := False\<rparr>"

text \<open>What the kernel answers in the course of a start.\<close>

record start_answers =
  ka_supported :: "string \<Rightarrow> bool"
  ka_fentry :: bool
  ka_tcx :: bool
  ka_interface :: bool
  ka_new_collection :: "program list \<Rightarrow> string option"
  ka_order :: "nat \<Rightarrow> program list"
  ka_accepts :: "program \<Rightarrow> bool"
  ka_config_written :: bool
  ka_ring_reader :: bool

datatype start_error =
  Missing_features "string list"
| Create_collection string
| Attach_programs
| Write_config
| Open_reader

definition zero_agent_config :: agent_config where
  "zero_agent_config = \<lparr>ac_enabled = 0, ac_track_udp = 0, ac_sample_rate = 0, ac_udp_socket_tx = 0,
     ac_reserved = replicate 4 0, ac_aggregation_ns = 0\<rparr>"

text \<open>
  The maps of a new collection are empty, the one configuration entry is zero. The programs run
  from their attachment on: \<open>early\<close> are the invocations before the configuration is written.
\<close>

definition loader_start ::
  "start_answers \<Rightarrow> (kenv \<times> kevent) list \<Rightarrow> loader \<Rightarrow> loader \<times> start_error option" where
  "loader_start k early l =
     (if check_required (ka_supported k) \<noteq> []
      then (l, Some (Missing_features (check_required (ka_supported k))))
      else case load_collection_with_fallback (ka_new_collection k) (ka_order k)
                  (prune_optional_programs (ka_fentry k) (ka_tcx k) all_programs) of
        Inl err \<Rightarrow> (l, Some (Create_collection err))
      | Inr coll \<Rightarrow>
          let cfg = ld_config l;
              a0 = boot_agent (lc_map_sizes cfg) zero_agent_config
          in case start_attach (ka_fentry k) (ka_tcx k) (ka_interface k) (ka_accepts k) coll of
               None \<Rightarrow> (close_loader l, Some Attach_programs)
             | Some ls \<Rightarrow>
                 let attached = (ld_udp_sendmsg_attached l \<or> udp_sendmsg_attached ls);
                     a1 = fold step early a0;
                     l1 = l\<lparr>ld_agent := Some a1, ld_links := ld_links l @ ls,
                            ld_udp_sendmsg_attached := attached\<rparr>
                 in if \<not> ka_config_written k then (close_loader l1, Some Write_config)
                    else let a2 = push_config (lc_enabled cfg) (lc_track_udp cfg) (lc_sample_rate cfg)
                                    attached (lc_aggregation_ns cfg) a1
                      in if \<not> ka_ring_reader k then (close_loader l1, Some Open_reader)
                         else (l1\<lparr>ld_agent := Some a2, ld_reading := True\<rparr>, None))"

text \<open>\<open>SetEnabled\<close>; \<open>None\<close> is the error that no collection is loaded.\<close>

definition loader_set_enabled :: "bool \<Rightarrow> loader \<Rightarrow> loader option" where
  "loader_set_enabled en l =
     (case ld_agent l of None \<Rightarrow> None | Some a \<Rightarrow> Some (l\<lparr>ld_agent := Some (set_enabled en a)\<rparr>))"

section \<open>What a start attaches\<close>

text \<open>The order of the attachments on a kernel with or without fentry, and the programs it cannot do without.\<close>

definition attach_order :: "bool \<Rightarrow> bool \<Rightarrow> program list" where
  "attach_order have_fentry quic = [P_connect4, P_connect6, P_sockops, P_sock_release] @
     (if have_fentry
      then [P_tcp_sendmsg_fentry, P_tcp_cleanup_rbuf_fentry, P_tcp_retransmit, P_tcp_loss_probe, P_dns_recvmsg,
            P_udp_sendmsg, P_udp_recvmsg_exit]
      else [P_tcp_sendmsg, P_tcp_cleanup_rbuf]) @
     (if quic then [P_quic_egress] else [])"

definition needed_programs :: "bool \<Rightarrow> program list" where
  "needed_programs have_fentry = [P_connect4, P_sockops] @
     (if have_fentry then [P_tcp_sendmsg_fentry, P_tcp_cleanup_rbuf_fentry] else [P_tcp_sendmsg, P_tcp_cleanup_rbuf])"

lemma attach_ok:
  assumes "p \<in> set coll \<and> accepts p \<longleftrightarrow> ok p"
  shows "attach accepts coll p ls = (ok p, ls @ filter ok [p])"
  using assms by (auto simp: attach_def)

lemma optional_ok:
  assumes "p \<in> set coll \<and> accepts p \<longleftrightarrow> ok p"
  shows "optional accepts coll p ls = ls @ filter ok [p]"
  using attach_ok [of p coll accepts ok ls] assms by (simp add: optional_def)

lemma optional_all_ok:
  assumes "\<forall>p \<in> set ps. p \<in> set coll \<and> accepts p \<longleftrightarrow> ok p"
  shows "fold (optional accepts coll) ps ls = ls @ filter ok ps"
  using assms
proof (induction ps arbitrary: ls)
  case (Cons p ps)
  then have "optional accepts coll p ls = ls @ filter ok [p]" by (intro optional_ok) simp
  with Cons show ?case by simp
qed simp

lemma pruned_set:
  "set (prune_optional_programs hf ht all_programs) =
    set (attach_order hf ht)"
  by (cases hf; cases ht) (auto simp: prune_optional_programs_def remove_programs_def all_programs_def attach_order_def)

lemma attach_kprobes_ok:
  assumes "\<forall>p \<in> {P_tcp_sendmsg, P_tcp_cleanup_rbuf}. p \<in> set coll \<and> accepts p \<longleftrightarrow> ok p"
  shows "require (attach_kprobes accepts coll ls) =
    (if ok P_tcp_sendmsg \<and> ok P_tcp_cleanup_rbuf then Some (ls @ [P_tcp_sendmsg, P_tcp_cleanup_rbuf]) else None)"
  using assms by (simp add: attach_kprobes_def attach_ok [where ok = ok] require_def split: bool.split)

lemma byte_counting_ok:
  assumes "\<forall>p \<in> {P_tcp_sendmsg_fentry, P_tcp_cleanup_rbuf_fentry}. p \<in> set coll \<and> accepts p \<longleftrightarrow> ok p"
    and "P_tcp_sendmsg \<notin> set coll"
  shows "require (attach_byte_counting_hooks True accepts coll ls) =
    (if ok P_tcp_sendmsg_fentry \<and> ok P_tcp_cleanup_rbuf_fentry
     then Some (ls @ [P_tcp_sendmsg_fentry, P_tcp_cleanup_rbuf_fentry]) else None)"
  using assms attach_kprobes_missing [OF assms(2)]
  by (auto simp: attach_byte_counting_hooks_def attach_def require_def Let_def)

lemma cgroup_ok:
  assumes "\<forall>p \<in> {P_connect4, P_connect6, P_sockops, P_sock_release}. p \<in> set coll \<and> accepts p \<longleftrightarrow> ok p"
  shows "attach_cgroup_programs accepts coll =
    (if ok P_connect4 \<and> ok P_sockops then Some (filter ok [P_connect4, P_connect6, P_sockops, P_sock_release]) else None)"
  using assms attach_ok [of _ coll accepts ok] optional_ok [of _ coll accepts ok]
  by (simp add: attach_cgroup_programs_def require_def)

lemma optional_programs_ok:
  assumes "\<forall>p \<in> set (attach_order hf ht). p \<in> set coll \<and> accepts p \<longleftrightarrow> ok p"
  shows "attach_optional_programs hf ht hi accepts coll ls = ls @ filter ok
    ((if hf then [P_tcp_retransmit, P_tcp_loss_probe, P_dns_recvmsg, P_udp_sendmsg, P_udp_recvmsg_exit] else []) @
     (if hi \<and> ht then [P_quic_egress] else []))"
proof -
  let ?ps = "[P_tcp_retransmit, P_tcp_loss_probe, P_dns_recvmsg, P_udp_sendmsg, P_udp_recvmsg_exit]"
  have fentry: "fold (optional accepts coll) ?ps ls = ls @ filter ok ?ps" if hf
    by (rule optional_all_ok) (use that assms in \<open>auto simp: attach_order_def\<close>)
  have quic: "(if P_quic_egress \<in> set coll \<and> hi \<and> ht then optional accepts coll P_quic_egress ls' else ls')
      = ls' @ filter ok (if hi \<and> ht then [P_quic_egress] else [])" for ls'
  proof (cases ht)
    case True
    then have "P_quic_egress \<in> set coll \<and> accepts P_quic_egress \<longleftrightarrow> ok P_quic_egress"
      using assms by (simp add: attach_order_def)
    then show ?thesis using optional_ok [of P_quic_egress coll accepts ok ls'] by auto
  qed simp
  show ?thesis
    by (cases hf) (simp_all only: attach_optional_programs_def Let_def fentry quic if_True if_False
        filter_append append_assoc append_Nil)
qed

lemma start_attach_exact:
  assumes "\<forall>p. p \<in> set coll \<longleftrightarrow> p \<in> set (attach_order hf ht) \<and> p \<notin> rejected"
    and "\<forall>p. ok p \<longleftrightarrow> p \<notin> rejected \<and> accepts p"
  shows "start_attach hf ht hi accepts coll =
    (if \<forall>p \<in> set (needed_programs hf). ok p then Some (filter ok (attach_order hf (hi \<and> ht))) else None)"
proof -
  have member: "\<forall>p \<in> set (attach_order hf ht). p \<in> set coll \<and> accepts p \<longleftrightarrow> ok p"
    using assms by blast
  have cgroup: "attach_cgroup_programs accepts coll =
      (if ok P_connect4 \<and> ok P_sockops then Some (filter ok [P_connect4, P_connect6, P_sockops, P_sock_release]) else None)"
    by (rule cgroup_ok) (use member in \<open>simp add: attach_order_def\<close>)
  have bytes: "require (attach_byte_counting_hooks hf accepts coll ls) =
      (if \<forall>p \<in> set (drop 2 (needed_programs hf)). ok p then Some (ls @ drop 2 (needed_programs hf)) else None)" for ls
  proof (cases hf)
    case True
    then have "P_tcp_sendmsg \<notin> set coll" using assms(1) by (simp add: attach_order_def)
    then show ?thesis
      using byte_counting_ok [of coll accepts ok ls] member True
      by (simp add: attach_order_def needed_programs_def)
  next
    case False
    then show ?thesis
      using attach_kprobes_ok [of coll accepts ok ls] member
      by (simp add: attach_byte_counting_hooks_def attach_order_def needed_programs_def)
  qed
  let ?cg = "[P_connect4, P_connect6, P_sockops, P_sock_release]"
  let ?rest = "(if hf then [P_tcp_retransmit, P_tcp_loss_probe, P_dns_recvmsg, P_udp_sendmsg, P_udp_recvmsg_exit]
    else []) @ (if hi \<and> ht then [P_quic_egress] else [])"
  have order: "attach_order hf (hi \<and> ht) = ?cg @ drop 2 (needed_programs hf) @ ?rest"
    by (simp add: attach_order_def needed_programs_def)
  have needed: "(\<forall>p \<in> set (needed_programs hf). ok p) \<longleftrightarrow>
      (ok P_connect4 \<and> ok P_sockops) \<and> (\<forall>p \<in> set (drop 2 (needed_programs hf)). ok p)"
    by (simp add: needed_programs_def)
  show ?thesis
  proof (cases "\<forall>p \<in> set (needed_programs hf). ok p")
    case True
    then have all: "ok P_connect4 \<and> ok P_sockops" "\<forall>p \<in> set (drop 2 (needed_programs hf)). ok p"
      using needed by auto
    from all(2) have "filter ok (drop 2 (needed_programs hf)) = drop 2 (needed_programs hf)"
      by (simp add: filter_id_conv)
    then show ?thesis
      unfolding start_attach_def cgroup bytes optional_programs_ok [OF member] order filter_append
        if_P [OF True] if_P [OF all(1)] if_P [OF all(2)] option.case by (simp only: append_assoc)
  next
    case False
    show ?thesis
    proof (cases "ok P_connect4 \<and> ok P_sockops")
      case True
      then have bytes_no: "\<not> (\<forall>p \<in> set (drop 2 (needed_programs hf)). ok p)" using False needed by blast
      show ?thesis
        unfolding start_attach_def cgroup bytes if_not_P [OF False] if_P [OF True] if_not_P [OF bytes_no]
          option.case ..
    next
      case no: False
      show ?thesis unfolding start_attach_def cgroup if_not_P [OF no] if_not_P [OF False] option.case ..
    qed
  qed
qed

section \<open>The outcome of a start\<close>

text \<open>Invocations before the configuration is written record nothing: the flag they read is zero.\<close>

definition unrecorded :: "agent \<Rightarrow> bool" where
  "unrecorded a \<longleftrightarrow> agent_config_map a = [0 \<mapsto> zero_agent_config] \<and> entries (connections a) = Map.empty \<and>
     entries (cookie_to_original_dst a) = Map.empty \<and> entries (flow_aggregates a) = Map.empty \<and>
     entries (quic_flows a) = Map.empty \<and> events a = []"

lemma unrecorded_disabled: "unrecorded a \<Longrightarrow> get_config a = None"
  by (simp add: unrecorded_def get_config_def zero_agent_config_def)

lemma step_unrecorded:
  assumes "unrecorded a"
  shows "unrecorded (step (e, ev) a)"
proof (cases "(\<exists>d. ev = Dns_recvmsg d) \<or> (\<exists>p. ev = Sock_release p)")
  case True
  then show ?thesis
    using assms by (auto simp: unrecorded_def dns_frame tollwing_sock_release_def Let_def bpf_map_delete_elem_def
        delete_connection_def delete_cookie_def)
next
  case False
  then have "step (e, ev) a = a" using step_disabled [OF unrecorded_disabled [OF assms]] by blast
  with assms show ?thesis by simp
qed

interpretation early: kept_by_steps step unrecorded "\<lambda>_. True"
  by unfold_locales (metis prod.collapse step_unrecorded)

lemma early_unrecorded: "unrecorded (fold step early (boot_agent sizes zero_agent_config))"
  by (rule early.run_keeps) (simp_all add: unrecorded_def)

text \<open>When a start succeeds.\<close>

definition startable :: "program set \<Rightarrow> start_answers \<Rightarrow> bool" where
  "startable rejected k \<longleftrightarrow> (\<forall>name \<in> set required_probes. ka_supported k name) \<and>
     card (set (attach_order (ka_fentry k) (ka_tcx k)) \<inter> rejected) \<le> 5 \<and>
     (\<forall>p \<in> set (needed_programs (ka_fentry k)). p \<notin> rejected \<and> ka_accepts k p) \<and>
     ka_config_written k \<and> ka_ring_reader k"

lemma not_optional: "p \<in> set (attach_order hf ht) \<Longrightarrow> p \<notin> set optional_programs \<Longrightarrow> p \<in> {P_connect4, P_sockops}"
  by (cases p) (auto simp: optional_programs_def)

lemma load_outcome:
  assumes "verifier rejected nc" and "\<forall>i. set (order i) = set optional_programs"
    and needed: "\<forall>p \<in> set (needed_programs hf). p \<notin> rejected"
  shows "if card (set (attach_order hf ht) \<inter> rejected) \<le> 5
    then load_collection_with_fallback nc order (prune_optional_programs hf ht all_programs) =
      Inr (filter (\<lambda>p. p \<notin> rejected) (prune_optional_programs hf ht all_programs))
    else \<exists>err. load_collection_with_fallback nc order (prune_optional_programs hf ht all_programs) = Inl err"
proof -
  have "set (attach_order hf ht) \<inter> rejected \<subseteq> set optional_programs"
    using not_optional [of _ hf ht] needed by (fastforce simp: needed_programs_def)
  then show ?thesis
    using load_exact [OF assms(1,2) subset_refl, of hf ht 5]
    unfolding load_collection_with_fallback_def pruned_set by simp
qed

definition started :: "start_answers \<Rightarrow> (kenv \<times> kevent) list \<Rightarrow> links \<Rightarrow> loader \<Rightarrow> loader" where
  "started k early ls l =
     (let cfg = ld_config l; attached = (ld_udp_sendmsg_attached l \<or> udp_sendmsg_attached ls)
      in l\<lparr>ld_agent := Some (push_config (lc_enabled cfg) (lc_track_udp cfg) (lc_sample_rate cfg) attached
             (lc_aggregation_ns cfg) (fold step early (boot_agent (lc_map_sizes cfg) zero_agent_config))),
           ld_links := ld_links l @ ls, ld_reading := True, ld_udp_sendmsg_attached := attached\<rparr>)"

text \<open>The configuration that a fresh loader writes, and the state that its start leaves.\<close>

definition pushed_config :: "loader_config \<Rightarrow> bool \<Rightarrow> agent_config" where
  "pushed_config c attached = \<lparr>ac_enabled = (if lc_enabled c then 1 else 0),
     ac_track_udp = (if lc_track_udp c then 1 else 0),
     ac_sample_rate = (if lc_sample_rate c = 0 then 1 else lc_sample_rate c),
     ac_udp_socket_tx = (if lc_track_udp c \<and> attached then 1 else 0),
     ac_reserved = replicate 4 0,
     ac_aggregation_ns = (if lc_aggregation_ns c = 0 then 5000000000 else lc_aggregation_ns c)\<rparr>"

lemma started_state:
  "\<exists>a. ld_agent (started k early ls (new_loader c)) = Some a \<and>
    agent_config_map a = [0 \<mapsto> pushed_config c (P_udp_sendmsg \<in> set ls)] \<and>
    entries (connections a) = Map.empty \<and> entries (flow_aggregates a) = Map.empty \<and>
    entries (quic_flows a) = Map.empty \<and> events a = []"
  "ld_links (started k early ls (new_loader c)) = ls" "ld_reading (started k early ls (new_loader c))"
proof -
  have "unrecorded (fold step early (boot_agent (lc_map_sizes (set_loader_defaults c)) zero_agent_config))"
    by (rule early_unrecorded)
  then show "\<exists>a. ld_agent (started k early ls (new_loader c)) = Some a \<and>
    agent_config_map a = [0 \<mapsto> pushed_config c (P_udp_sendmsg \<in> set ls)] \<and>
    entries (connections a) = Map.empty \<and> entries (flow_aggregates a) = Map.empty \<and>
    entries (quic_flows a) = Map.empty \<and> events a = []"
    by (simp add: started_def Let_def new_loader_def push_config_def unrecorded_def pushed_config_def
        set_loader_defaults_def udp_socket_tx_def udp_sendmsg_attached_def)
  show "ld_links (started k early ls (new_loader c)) = ls" "ld_reading (started k early ls (new_loader c))"
    by (simp_all add: started_def Let_def new_loader_def)
qed

lemma no_feature_missing: "check_required supported = [] \<longleftrightarrow> (\<forall>name \<in> set required_probes. supported name)"
  by (simp add: check_required_def filter_empty_conv)

text \<open>A failed start has closed the links and the collection, or has opened none.\<close>

lemma failed_start:
  assumes "loader_start k early l = (l', Some err)" and "ld_agent l = None" "ld_links l = []" "\<not> ld_reading l"
  shows "ld_agent l' = None \<and> ld_links l' = [] \<and> \<not> ld_reading l'"
  using assms by (auto simp: loader_start_def Let_def close_loader_def split: if_splits sum.splits option.splits)

lemma successful_start:
  assumes "loader_start k early l = (l', None)"
  obtains coll ls where "load_collection_with_fallback (ka_new_collection k) (ka_order k)
      (prune_optional_programs (ka_fentry k) (ka_tcx k) all_programs) = Inr coll"
    "start_attach (ka_fentry k) (ka_tcx k) (ka_interface k) (ka_accepts k) coll = Some ls"
    "l' = started k early ls l"
  using assms by (auto simp: loader_start_def Let_def started_def split: if_splits sum.splits option.splits)

lemma start_exact:
  assumes ver: "verifier rejected (ka_new_collection k)" and order: "\<forall>i. set (ka_order k i) = set optional_programs"
  shows "if startable rejected k
    then loader_start k early l = (started k early (filter (\<lambda>p. p \<notin> rejected \<and> ka_accepts k p)
      (attach_order (ka_fentry k) (ka_interface k \<and> ka_tcx k))) l, None)
    else \<exists>l' err. loader_start k early l = (l', Some err)"
proof -
  let ?hf = "ka_fentry k" and ?ht = "ka_tcx k" and ?hi = "ka_interface k"
  let ?ok = "\<lambda>p. p \<notin> rejected \<and> ka_accepts k p"
  let ?spec = "prune_optional_programs ?hf ?ht all_programs"
  let ?load = "load_collection_with_fallback (ka_new_collection k) (ka_order k) ?spec"
  have exact: "if set ?spec \<inter> rejected \<subseteq> set optional_programs \<and> card (set ?spec \<inter> rejected) \<le> 5
      then ?load = Inr (filter (\<lambda>p. p \<notin> rejected) ?spec) else \<exists>err. ?load = Inl err"
    using load_exact [OF ver order subset_refl, of ?hf ?ht 5] unfolding load_collection_with_fallback_def .
  have attached: "start_attach ?hf ?ht ?hi (ka_accepts k) (filter (\<lambda>p. p \<notin> rejected) ?spec) =
      (if \<forall>p \<in> set (needed_programs ?hf). ?ok p then Some (filter ?ok (attach_order ?hf (?hi \<and> ?ht))) else None)"
    by (rule start_attach_exact) (auto simp: pruned_set)
  show ?thesis
  proof (cases "startable rejected k")
    case True
    then have "?load = Inr (filter (\<lambda>p. p \<notin> rejected) ?spec)" and "\<forall>p \<in> set (needed_programs ?hf). ?ok p"
      using load_outcome [OF ver order, of ?hf ?ht] by (auto simp: startable_def)
    with True show ?thesis
      using attached unfolding loader_start_def
      by (simp add: startable_def no_feature_missing Let_def started_def)
  next
    case False
    have "snd (loader_start k early l) \<noteq> None"
    proof
      assume "snd (loader_start k early l) = None"
      then have ok: "loader_start k early l = (fst (loader_start k early l), None)" by (simp add: prod_eq_iff)
      then obtain coll ls where load: "?load = Inr coll"
        and ls: "start_attach ?hf ?ht ?hi (ka_accepts k) coll = Some ls"
        by (rule successful_start)
      then have coll: "coll = filter (\<lambda>p. p \<notin> rejected) ?spec" and "card (set ?spec \<inter> rejected) \<le> 5"
        using exact by (auto split: if_splits)
      moreover have "\<forall>p \<in> set (needed_programs ?hf). ?ok p"
        using ls attached unfolding coll by (metis option.distinct(1))
      moreover have "check_required (ka_supported k) = [] \<and> ka_config_written k \<and> ka_ring_reader k"
        using ok load ls by (auto simp: loader_start_def Let_def split: if_splits)
      ultimately show False
        using False by (simp add: startable_def no_feature_missing pruned_set)
    qed
    with False show ?thesis by (metis option.exhaust prod.collapse)
  qed
qed

end
