(* ===== verification/Started_Runs.thy ===== *)
theory Started_Runs
  imports Agent_Start Lifetimes
begin

text \<open>
  A started system: a call of the kernel runs the programs whose links are on it. Every call is
  counted once, whichever of the byte-counting mechanisms is attached; UDP's transmitted bytes
  have one source; and what a second start of the same loader gets wrong.
\<close>

section \<open>What a call of the kernel runs\<close>

text \<open>
  The functions and events that the programs are attached to. A kprobe sees the arguments of its
  function in registers, an fentry program in the words of its context.
\<close>

datatype kcall =
  Do_connect4 bpf_sock_addr
| Do_connect6 bpf_sock_addr
| Do_sock_ops bpf_sock_ops
| Do_sock_release u32
| Do_tcp_sendmsg "nat \<Rightarrow> u64" "reg \<Rightarrow> u64"
| Do_tcp_cleanup_rbuf "nat \<Rightarrow> u64" "reg \<Rightarrow> u64"
| Do_udp_sendmsg "nat \<Rightarrow> u64"
| Do_udp_recvmsg dns_ctx
| Leave_udp_recvmsg "nat \<Rightarrow> u64"
| Do_tcp_retransmit_skb u32
| Do_tcp_send_loss_probe u32
| Do_egress "u8 list"

fun on_link :: "abi \<Rightarrow> kcall \<Rightarrow> program \<Rightarrow> kevent list" where
  "on_link ab (Do_connect4 ctx) p = (if p = P_connect4 then [Connect4 ctx] else [])"
| "on_link ab (Do_connect6 ctx) p = (if p = P_connect6 then [Connect6 ctx] else [])"
| "on_link ab (Do_sock_ops skops) p = (if p = P_sockops then [Sockops skops] else [])"
| "on_link ab (Do_sock_release protocol) p = (if p = P_sock_release then [Sock_release protocol] else [])"
| "on_link ab (Do_tcp_sendmsg args regs) p =
     (if p = P_tcp_sendmsg then [Tcp_sendmsg ab regs]
      else if p = P_tcp_sendmsg_fentry then [Tcp_sendmsg_fentry args] else [])"
| "on_link ab (Do_tcp_cleanup_rbuf args regs) p =
     (if p = P_tcp_cleanup_rbuf then [Tcp_cleanup_rbuf ab regs]
      else if p = P_tcp_cleanup_rbuf_fentry then [Tcp_cleanup_rbuf_fentry args] else [])"
| "on_link ab (Do_udp_sendmsg args) p = (if p = P_udp_sendmsg then [Udp_sendmsg args] else [])"
| "on_link ab (Do_udp_recvmsg ctx) p = (if p = P_dns_recvmsg then [Dns_recvmsg ctx] else [])"
| "on_link ab (Leave_udp_recvmsg args) p = (if p = P_udp_recvmsg_exit then [Udp_recvmsg_exit args] else [])"
| "on_link ab (Do_tcp_retransmit_skb len) p = (if p = P_tcp_retransmit then [Tcp_retransmit len] else [])"
| "on_link ab (Do_tcp_send_loss_probe mss) p = (if p = P_tcp_loss_probe then [Tcp_loss_probe mss] else [])"
| "on_link ab (Do_egress pkt) p = (if p = P_quic_egress then [Quic_egress pkt] else [])"

definition triggered :: "abi \<Rightarrow> links \<Rightarrow> kcall \<Rightarrow> kevent list" where
  "triggered ab ls c = concat (map (on_link ab c) ls)"

text \<open>A call runs the program of every link on it; a run is a sequence of calls.\<close>

definition call_events :: "abi \<Rightarrow> links \<Rightarrow> kenv \<times> kcall \<Rightarrow> (kenv \<times> kevent) list" where
  "call_events ab ls c = map (\<lambda>ev. (fst c, ev)) (triggered ab ls (snd c))"

definition kernel_run :: "abi \<Rightarrow> links \<Rightarrow> (kenv \<times> kcall) list \<Rightarrow> agent \<Rightarrow> agent" where
  "kernel_run ab ls calls a = fold step (concat (map (call_events ab ls) calls)) a"

text \<open>The registers of a probed function hold its arguments, and a size is below \<open>2^32\<close>.\<close>

fun passed :: "abi \<Rightarrow> kcall \<Rightarrow> bool" where
  "passed ab (Do_tcp_sendmsg args regs) \<longleftrightarrow> PT_REGS_PARM ab 3 regs = args 2 \<and> unat (args 2) < 2 ^ 32"
| "passed ab (Do_tcp_cleanup_rbuf args regs) \<longleftrightarrow> PT_REGS_PARM ab 2 regs = args 1"
| "passed ab _ \<longleftrightarrow> True"

text \<open>What a call is worth to a connection: in terms of its arguments, whichever program sees it.\<close>

fun sent :: "links \<Rightarrow> kcall \<Rightarrow> conn_info \<Rightarrow> u64" where
  "sent ls (Do_tcp_sendmsg args regs) ci = (if 0 < c_int (args 2) \<and> not_sidecar ci then args 2 else 0)"
| "sent ls (Do_udp_sendmsg args) ci =
     (if udp_sendmsg_attached ls \<and> 0 < c_int (args 2) \<and> is_udp ci then args 2 else 0)"
| "sent ls _ ci = 0"

fun received :: "links \<Rightarrow> kcall \<Rightarrow> conn_info \<Rightarrow> u64" where
  "received ls (Do_tcp_cleanup_rbuf args regs) ci =
     (if 0 < c_int (args 1) \<and> not_sidecar ci then int_to_u64 (c_int (args 1)) else 0)"
| "received ls (Leave_udp_recvmsg args) ci =
     (if P_udp_recvmsg_exit \<in> set ls \<and> 0 < c_int (args 5) \<and> is_udp ci then int_to_u64 (c_int (args 5)) else 0)"
| "received ls _ ci = 0"

section \<open>Every call is counted once\<close>

text \<open>The links of a successful start are distinct, with one pair of byte-counting programs.\<close>

lemma load_subset:
  "load_with_fallback n nc order spec = Inr coll \<Longrightarrow> set coll \<subseteq> set spec"
  by (induction n arbitrary: spec) (force simp: remove_programs_def split: option.splits)+

lemma attach_appends: "snd (attach accepts coll p ls) = ls \<or> snd (attach accepts coll p ls) = ls @ [p]"
  by (simp add: attach_def)

lemma optional_distinct:
  "distinct ls \<Longrightarrow> p \<notin> set ls \<Longrightarrow> distinct (optional accepts coll p ls)"
  by (simp add: optional_def attach_def)

lemma cgroup_distinct: "attach_cgroup_programs accepts coll = Some ls \<Longrightarrow> distinct ls"
  by (auto simp: attach_cgroup_programs_def require_def optional_def attach_def split: if_splits)

lemma optional_programs_distinct:
  assumes "distinct ls" and "set ls \<inter> {P_tcp_retransmit, P_tcp_loss_probe, P_dns_recvmsg, P_udp_sendmsg,
    P_udp_recvmsg_exit, P_quic_egress} = {}"
  shows "distinct (attach_optional_programs hf ht hi accepts coll ls)"
  using assms by (simp add: attach_optional_programs_def Let_def optional_distinct optional_links)

lemma start_links:
  assumes "loader_start k early l = (l', None)" and "ld_links l = []"
  shows "distinct (ld_links l')"
    and "set (ld_links l') \<inter> {P_tcp_sendmsg, P_tcp_sendmsg_fentry, P_tcp_cleanup_rbuf, P_tcp_cleanup_rbuf_fentry} =
      (if ka_fentry k then {P_tcp_sendmsg_fentry, P_tcp_cleanup_rbuf_fentry} else {P_tcp_sendmsg, P_tcp_cleanup_rbuf})"
proof -
  obtain coll ls where load: "load_collection_with_fallback (ka_new_collection k) (ka_order k)
      (prune_optional_programs (ka_fentry k) (ka_tcx k) all_programs) = Inr coll"
    and start: "start_attach (ka_fentry k) (ka_tcx k) (ka_interface k) (ka_accepts k) coll = Some ls"
    and l': "l' = started k early ls l"
    using assms(1) by (rule successful_start)
  have coll: "set coll \<subseteq> set (prune_optional_programs (ka_fentry k) (ka_tcx k) all_programs)"
    using load load_subset unfolding load_collection_with_fallback_def by blast
  have links: "ld_links l' = ls" using assms(2) by (simp add: l' started_def Let_def)
  show "set (ld_links l') \<inter> {P_tcp_sendmsg, P_tcp_sendmsg_fentry, P_tcp_cleanup_rbuf, P_tcp_cleanup_rbuf_fentry} =
      (if ka_fentry k then {P_tcp_sendmsg_fentry, P_tcp_cleanup_rbuf_fentry} else {P_tcp_sendmsg, P_tcp_cleanup_rbuf})"
    using start_byte_programs [OF coll start] by (simp add: links)
  obtain l2 l3 where cg: "attach_cgroup_programs (ka_accepts k) coll = Some l2"
    and bc: "attach_byte_counting_hooks (ka_fentry k) (ka_accepts k) coll l2 = (True, l3)"
    and ls: "ls = attach_optional_programs (ka_fentry k) (ka_tcx k) (ka_interface k) (ka_accepts k) coll l3"
    using start by (auto simp: start_attach_def require_def prod_eq_iff split: option.splits if_splits)
  show "distinct (ld_links l')"
    unfolding links ls
    by (rule optional_programs_distinct)
      (use cgroup_distinct [OF cg] cgroup_links [OF cg] in \<open>auto simp: byte_counting_exact [OF coll bc]\<close>)
qed

lemma sum_once:
  assumes "distinct ls" and "\<And>p. p \<in> set ls \<Longrightarrow> p \<noteq> q \<Longrightarrow> f p = (0 :: u64)"
  shows "(\<Sum>p\<leftarrow>ls. f p) = (if q \<in> set ls then f q else 0)"
  using assms
proof (induction ls)
  case (Cons p ls)
  then show ?case by (cases "p = q") auto
qed simp

lemma sum_triggered: "(\<Sum>ev\<leftarrow>triggered ab ls c. g ev) = (\<Sum>p\<leftarrow>ls. \<Sum>ev\<leftarrow>on_link ab c p. g ev :: u64)"
  unfolding triggered_def by (induction ls) simp_all

lemma c_int_size: "unat x < 2 ^ 32 \<Longrightarrow> 0 < c_int x \<Longrightarrow> int_to_u64 (c_int x) = x"
proof -
  assume "unat x < 2 ^ 32" "0 < c_int x"
  moreover from this have "ucast (ucast x :: u32) = x" by (simp add: unat_ucast_eq_self)
  ultimately show ?thesis using c_int_positive [of x] by simp
qed

lemma kprobe_fentry:
  assumes "PT_REGS_PARM ab 3 regs = ctx 2" and "unat (ctx 2) < 2 ^ 32" and "PT_REGS_PARM ab 2 regs = ctx 1"
  shows "tollwing_tcp_sendmsg e ab regs a = tollwing_tcp_sendmsg_fentry e ctx a \<and>
    tollwing_tcp_cleanup_rbuf e ab regs a = tollwing_tcp_cleanup_rbuf_fentry e ctx a"
  using assms(1,3) c_int_size [OF assms(2)]
  by (simp add: tollwing_tcp_sendmsg_def tollwing_tcp_sendmsg_fentry_def tollwing_tcp_cleanup_rbuf_def
      tollwing_tcp_cleanup_rbuf_fentry_def Let_def nth_bpf_ctx_cast split: option.split)

definition one_counter :: "links \<Rightarrow> bool" where
  "one_counter ls \<longleftrightarrow> distinct ls \<and>
     (set ls \<inter> {P_tcp_sendmsg, P_tcp_sendmsg_fentry, P_tcp_cleanup_rbuf, P_tcp_cleanup_rbuf_fentry} =
        {P_tcp_sendmsg_fentry, P_tcp_cleanup_rbuf_fentry} \<or>
      set ls \<inter> {P_tcp_sendmsg, P_tcp_sendmsg_fentry, P_tcp_cleanup_rbuf, P_tcp_cleanup_rbuf_fentry} =
        {P_tcp_sendmsg, P_tcp_cleanup_rbuf})"

lemma one_counter_cases:
  assumes "one_counter ls"
  obtains "distinct ls" "P_tcp_sendmsg_fentry \<in> set ls" "P_tcp_cleanup_rbuf_fentry \<in> set ls"
      "P_tcp_sendmsg \<notin> set ls" "P_tcp_cleanup_rbuf \<notin> set ls"
  | "distinct ls" "P_tcp_sendmsg \<in> set ls" "P_tcp_cleanup_rbuf \<in> set ls"
      "P_tcp_sendmsg_fentry \<notin> set ls" "P_tcp_cleanup_rbuf_fentry \<notin> set ls"
  using assms unfolding one_counter_def by blast

lemma call_amounts:
  assumes "one_counter ls" and "passed ab c"
  shows "(\<Sum>ev\<leftarrow>triggered ab ls c. tx_amount ev ci) = sent ls c ci"
    and "(\<Sum>ev\<leftarrow>triggered ab ls c. rx_amount ev ci) = received ls c ci"
proof -
  have none: "(\<Sum>p\<leftarrow>ls. f p) = 0" if "\<And>p. p \<in> set ls \<Longrightarrow> f p = 0" for f :: "program \<Rightarrow> u64"
    using that by (induction ls) auto
  have "distinct ls" using assms(1) by (simp add: one_counter_def)
  show "(\<Sum>ev\<leftarrow>triggered ab ls c. tx_amount ev ci) = sent ls c ci"
  proof (cases c)
    case (Do_tcp_sendmsg args regs)
    from assms(1) show ?thesis
    proof (cases rule: one_counter_cases)
      case 1
      then show ?thesis
        by (subst sum_triggered, subst sum_once [where q = P_tcp_sendmsg_fentry]) (auto simp: Do_tcp_sendmsg)
    next
      case 2
      then show ?thesis
        using assms(2) by (subst sum_triggered, subst sum_once [where q = P_tcp_sendmsg])
          (auto simp: Do_tcp_sendmsg Let_def c_int_size)
    qed
  next
    case (Do_udp_sendmsg args)
    with \<open>distinct ls\<close> show ?thesis
      by (subst sum_triggered, subst sum_once [where q = P_udp_sendmsg]) (auto simp: udp_sendmsg_attached_def)
  qed (auto simp: sum_triggered intro!: none)
  show "(\<Sum>ev\<leftarrow>triggered ab ls c. rx_amount ev ci) = received ls c ci"
  proof (cases c)
    case (Do_tcp_cleanup_rbuf args regs)
    from assms(1) show ?thesis
    proof (cases rule: one_counter_cases)
      case 1
      then show ?thesis
        by (subst sum_triggered, subst sum_once [where q = P_tcp_cleanup_rbuf_fentry]) (auto simp: Do_tcp_cleanup_rbuf)
    next
      case 2
      then show ?thesis
        using assms(2) by (subst sum_triggered, subst sum_once [where q = P_tcp_cleanup_rbuf])
          (auto simp: Do_tcp_cleanup_rbuf Let_def)
    qed
  next
    case (Leave_udp_recvmsg args)
    with \<open>distinct ls\<close> show ?thesis
      by (subst sum_triggered, subst sum_once [where q = P_udp_recvmsg_exit]) auto
  qed (auto simp: sum_triggered intro!: none)
qed

definition calls_on :: "u64 \<Rightarrow> (kenv \<times> kcall) list \<Rightarrow> kcall list" where
  "calls_on k calls = map snd (filter (\<lambda>c. bpf_get_socket_cookie (fst c) = k) calls)"

lemma on_socket_calls:
  "on_socket k (concat (map (call_events ab ls) calls)) = concat (map (triggered ab ls) (calls_on k calls))"
proof (induction calls)
  case (Cons c calls)
  have "on_socket k (xs @ ys) = on_socket k xs @ on_socket k ys" for xs ys by (simp add: on_socket_def)
  moreover have "on_socket k (call_events ab ls c) = (if bpf_get_socket_cookie (fst c) = k then triggered ab ls (snd c) else [])"
    by (simp add: on_socket_def call_events_def filter_map o_def)
  ultimately show ?case using Cons by (simp add: calls_on_def)
qed (simp add: on_socket_def calls_on_def)

lemma sum_concat: "(\<Sum>x\<leftarrow>concat (map h cs). g x) = (\<Sum>c\<leftarrow>cs. \<Sum>x\<leftarrow>h c. g x :: u64)"
  by (induction cs) simp_all

text \<open>The calls that only count leave every connection in the table.\<close>

lemma counting_calls_keep [simp]:
  "i \<in> set (call_events ab ls (e, Do_tcp_sendmsg args regs)) \<Longrightarrow> keeps k i"
  "i \<in> set (call_events ab ls (e, Do_tcp_cleanup_rbuf args regs)) \<Longrightarrow> keeps k i"
  "i \<in> set (call_events ab ls (e, Do_udp_sendmsg args)) \<Longrightarrow> keeps k i"
  "i \<in> set (call_events ab ls (e, Leave_udp_recvmsg args)) \<Longrightarrow> keeps k i"
  by (auto simp: call_events_def triggered_def split: if_splits)

lemma kernel_run_counts:
  assumes "one_counter ls" and "\<forall>c \<in> set calls. passed ab (snd c)"
    and "\<forall>c \<in> set calls. \<forall>i \<in> set (call_events ab ls c). keeps k i"
    and "lookup_connection a k = Some ci" and "get_config a \<noteq> None"
  shows "\<exists>ci'. lookup_connection (kernel_run ab ls calls a) k = Some ci' \<and>
    ci_tx_bytes ci' = ci_tx_bytes ci + (\<Sum>c\<leftarrow>calls_on k calls. sent ls c ci) \<and>
    ci_rx_bytes ci' = ci_rx_bytes ci + (\<Sum>c\<leftarrow>calls_on k calls. received ls c ci)"
proof -
  let ?evs = "concat (map (triggered ab ls) (calls_on k calls))"
  have "lookup_connection (kernel_run ab ls calls a) k = Some (tallied ?evs ci)"
    using run_connection [of "concat (map (call_events ab ls) calls)" k a ci] assms(3,4,5)
    by (auto simp: kernel_run_def on_socket_calls)
  moreover have "\<forall>c \<in> set (calls_on k calls). passed ab c" using assms(2) by (auto simp: calls_on_def)
  then have "map (\<lambda>c. \<Sum>ev\<leftarrow>triggered ab ls c. tx_amount ev ci) (calls_on k calls) = map (\<lambda>c. sent ls c ci) (calls_on k calls)"
    and "map (\<lambda>c. \<Sum>ev\<leftarrow>triggered ab ls c. rx_amount ev ci) (calls_on k calls) = map (\<lambda>c. received ls c ci) (calls_on k calls)"
    using call_amounts [OF assms(1)] by (auto intro: map_cong)
  ultimately show ?thesis by (simp add: tallied_fields sum_concat cong: map_cong)
qed

text \<open>The two byte-counting mechanisms count the same calls for the same amounts.\<close>

lemma started_one_counter:
  "loader_start k early l = (l', None) \<Longrightarrow> ld_links l = [] \<Longrightarrow> one_counter (ld_links l')"
  using start_links by (simp add: one_counter_def)

section \<open>One owner of UDP's bytes in a started system\<close>

lemma started_one_owner:
  assumes "loader_start k early (new_loader c) = (l, None)" and "ld_agent l = Some a"
  shows "one_owner (lc_track_udp c) (udp_sendmsg_attached (ld_links l)) a"
proof -
  obtain coll ls where l: "l = started k early ls (new_loader c)" using assms(1) by (rule successful_start)
  let ?b = "fold step early (boot_agent (lc_map_sizes (ld_config (new_loader c))) zero_agent_config)"
  have "a = push_config (lc_enabled c) (lc_track_udp c) (lc_sample_rate (ld_config (new_loader c)))
      (udp_sendmsg_attached ls) (lc_aggregation_ns (ld_config (new_loader c))) ?b" and "ld_links l = ls"
    using assms(2) by (auto simp: l started_def Let_def new_loader_def set_loader_defaults_def)
  moreover have "unrecorded ?b" by (rule early_unrecorded)
  ultimately show ?thesis
    by (auto simp: one_owner_def push_config_def unrecorded_def lookup_connection_def bpf_map_lookup_elem_def)
qed

lemma kernel_run_one_owner: "one_owner udp att a \<Longrightarrow> one_owner udp att (kernel_run ab ls calls a)"
proof -
  have "one_owner udp att a \<Longrightarrow> one_owner udp att (fold step is a)" for "is" a
    by (induction "is" arbitrary: a) (auto simp: step_one_owner simp del: step_simps)
  then show "one_owner udp att a \<Longrightarrow> one_owner udp att (kernel_run ab ls calls a)"
    by (simp add: kernel_run_def)
qed

lemma started_udp:
  assumes "loader_start k early (new_loader c) = (l, None)" and "ld_agent l = Some a"
  shows "(\<forall>e pkt. quic_credit (e, Quic_egress pkt) (kernel_run ab (ld_links l) calls a) = 0) \<or>
    (\<forall>e args. \<forall>ev \<in> set (triggered ab (ld_links l) (Do_udp_sendmsg args)).
      tx_credit (e, ev) (kernel_run ab (ld_links l) calls a) = 0)"
proof (cases "udp_sendmsg_attached (ld_links l)")
  case True
  have "ev = Udp_sendmsg args" if "ev \<in> set (triggered ab (ld_links l) (Do_udp_sendmsg args))" for ev args
    using that by (auto simp: triggered_def split: if_splits)
  then show ?thesis
    using True one_owner_credits [OF kernel_run_one_owner [OF started_one_owner [OF assms], of ab "ld_links l" calls]]
    by blast
next
  case False
  then have "triggered ab (ld_links l) (Do_udp_sendmsg args) = []" for args
    by (auto simp: triggered_def udp_sendmsg_attached_def)
  then show ?thesis by simp
qed

section \<open>A second start of the same loader\<close>

text \<open>
  \<open>Close\<close> keeps the flag that \<open>udp_sendmsg\<close> was attached, and \<open>Start\<close> only ever sets it. So a
  second start that does not get the attachment still tells the packet program to record nothing.
\<close>

lemma restart_unattached:
  assumes "loader_start k early l = (l', None)" and "ld_links l = []" and "\<not> ka_accepts k P_udp_sendmsg"
  shows "P_udp_sendmsg \<notin> set (ld_links l')"
proof -
  obtain coll ls where load: "load_collection_with_fallback (ka_new_collection k) (ka_order k)
      (prune_optional_programs (ka_fentry k) (ka_tcx k) all_programs) = Inr coll"
    and start: "start_attach (ka_fentry k) (ka_tcx k) (ka_interface k) (ka_accepts k) coll = Some ls"
    and l': "l' = started k early ls l"
    using assms(1) by (rule successful_start)
  have "set coll \<subseteq> set (prune_optional_programs (ka_fentry k) (ka_tcx k) all_programs)"
    using load load_subset unfolding load_collection_with_fallback_def by blast
  from start_udp_sendmsg [OF this start] show ?thesis
    using assms(2,3) by (simp add: l' started_def Let_def udp_sendmsg_attached_def)
qed

lemma restart_one_owner:
  assumes "loader_start k early l = (l', None)" and "ld_udp_sendmsg_attached l" and "ld_agent l' = Some a"
  shows "one_owner (lc_track_udp (ld_config l)) True a"
proof -
  obtain coll ls where l': "l' = started k early ls l" using assms(1) by (rule successful_start)
  let ?b = "fold step early (boot_agent (lc_map_sizes (ld_config l)) zero_agent_config)"
  have "unrecorded ?b" by (rule early_unrecorded)
  then show ?thesis
    using assms(2,3) by (auto simp: l' started_def Let_def one_owner_def push_config_def unrecorded_def
        lookup_connection_def bpf_map_lookup_elem_def)
qed

lemma restart_counts_nothing:
  assumes "loader_start k early l = (l', None)" and "ld_udp_sendmsg_attached l" and "lc_track_udp (ld_config l)"
    and "ld_agent l' = Some a"
  shows "quic_credit (e, Quic_egress pkt) (kernel_run ab ls calls a) = 0"
  using kernel_run_one_owner [OF restart_one_owner [OF assms(1,2,4)], of ab ls calls] assms(3)
  by (auto simp: one_owner_def udp_socket_tx_def get_config_def split: option.split)

end
