(* ===== verification/Update_Halves.thy ===== *)
theory Update_Halves
  imports Run_Facts
begin

text \<open>
  A counting program reaches its flow in two actions: it looks the key up and gets a pointer, and
  later it adds through the pointer, or, when there was no entry, inserts one or gives up. This
  theory takes all counting programs and the packet program apart at that point, and states what
  the second half books whatever happened since the first.

  One addition to this CPU's slot is one action: a per-CPU value is reached from its own CPU
  only, the kernel does not enter a tracing program again on a CPU that is inside it, and the
  packet program adds atomically.
\<close>

section \<open>The two halves of a flow update\<close>

datatype flow_ptr = Null | Live | Stale

record pending =
  pn_env :: kenv
  pn_key :: flow_key
  pn_new :: "flow_metrics option"
  pn_add :: "flow_metrics \<Rightarrow> flow_metrics"
  pn_ptr :: flow_ptr

text \<open>
  The programs that count on TCP and on sent UDP insert a flow that is not there; the other
  three, as \<open>bump_flow\<close> says, do not.
\<close>

fun inserts_flow :: "kevent \<Rightarrow> bool" where
  "inserts_flow (Tcp_sendmsg _ _) = True"
| "inserts_flow (Tcp_cleanup_rbuf _ _) = True"
| "inserts_flow (Tcp_sendmsg_fentry _) = True"
| "inserts_flow (Tcp_cleanup_rbuf_fentry _) = True"
| "inserts_flow (Udp_sendmsg _) = True"
| "inserts_flow _ = False"

fun bumps_flow :: "kevent \<Rightarrow> bool" where
  "bumps_flow (Udp_recvmsg_exit _) = True"
| "bumps_flow (Tcp_retransmit _) = True"
| "bumps_flow (Tcp_loss_probe _) = True"
| "bumps_flow _ = False"

definition flow_add :: "kevent \<Rightarrow> conn_info \<Rightarrow> flow_metrics \<Rightarrow> flow_metrics" where
  "flow_add ev conn val = val
     \<lparr>fm_tx_bytes := fm_tx_bytes val + tx_amount ev conn,
      fm_rx_bytes := fm_rx_bytes val + rx_amount ev conn,
      fm_retransmit_bytes := fm_retransmit_bytes val + ucast (retransmit_amount ev),
      fm_retransmit_count := fm_retransmit_count val + (if retransmit_amount ev = 0 then 0 else 1)\<rparr>"

definition flow_new :: "kenv \<Rightarrow> kevent \<Rightarrow> conn_info \<Rightarrow> flow_metrics option" where
  "flow_new e ev conn =
     (if inserts_flow ev
      then Some (zero_flow_metrics\<lparr>fm_tx_bytes := tx_amount ev conn, fm_rx_bytes := rx_amount ev conn,
             fm_conn_count := 1, fm_last_updated_ns := bpf_ktime_get_ns e 0\<rparr>)
      else None)"

definition lookup_half :: "kenv \<Rightarrow> kevent \<Rightarrow> conn_info \<Rightarrow> agent \<Rightarrow> pending" where
  "lookup_half e ev conn a = \<lparr>pn_env = e, pn_key = flow_key_of conn,
     pn_new = flow_new e ev conn, pn_add = flow_add ev conn,
     pn_ptr = (if lookup_flow a (flow_key_of conn) = None then Null else Live)\<rparr>"

text \<open>
  The elements of the maps are preallocated (no \<open>BPF_F_NO_PREALLOC\<close> in \<open>maps.h\<close>): a stale pointer
  points to memory that is free or that another key's entry has taken over since. Which one is
  the kernel's choice, \<open>reuse\<close>: \<open>Some k\<close> when the element now holds key \<open>k\<close>.
\<close>

definition ptr_target :: "'k option \<Rightarrow> 'k \<Rightarrow> flow_ptr \<Rightarrow> 'k option" where
  "ptr_target reuse key ptr = (case ptr of Null \<Rightarrow> None | Live \<Rightarrow> Some key | Stale \<Rightarrow> reuse)"

definition finish_half :: "flow_key option \<Rightarrow> pending \<Rightarrow> agent \<Rightarrow> agent" where
  "finish_half reuse p a =
     (if pn_ptr p = Null
      then (case pn_new p of
              None \<Rightarrow> a
            | Some new_val \<Rightarrow> insert_flow (pn_env p) (pn_key p) new_val a)
      else case ptr_target reuse (pn_key p) (pn_ptr p) of
             None \<Rightarrow> a
           | Some key \<Rightarrow> bump_flow (pn_env p) key (pn_add p) a)"

text \<open>Without an action in between, the two halves are the whole update.\<close>

lemma retransmit_only: "inserts_flow ev \<Longrightarrow> retransmit_amount ev = 0"
  by (cases ev) auto

lemma insert_halves:
  assumes "inserts_flow ev"
  shows "finish_half reuse (lookup_half e ev conn a) a =
    update_flow_aggregate e conn (tx_amount ev conn) (rx_amount ev conn) a"
  using assms
  by (simp add: finish_half_def lookup_half_def update_flow_aggregate_def Let_def ptr_target_def bump_flow_def
      flow_add_def flow_new_def retransmit_only split: option.split)

lemma bump_halves:
  assumes "bumps_flow ev"
  shows "finish_half reuse (lookup_half e ev conn a) a = bump_flow e (flow_key_of conn) (flow_add ev conn) a"
  using assms
  by (cases ev) (simp_all add: finish_half_def lookup_half_def ptr_target_def bump_flow_def flow_new_def
      split: option.split)

section \<open>The programs that update a flow this way\<close>

text \<open>What the program does before its flow lookup: the connection as it leaves it.\<close>

definition counted_call :: "kenv \<Rightarrow> kevent \<Rightarrow> agent \<Rightarrow> conn_info option" where
  "counted_call e ev a =
     (case lookup_connection a (bpf_get_socket_cookie e) of
        None \<Rightarrow> None
      | Some ci \<Rightarrow>
          if get_config a = None \<or> (tx_amount ev ci = 0 \<and> rx_amount ev ci = 0 \<and> retransmit_amount ev = 0)
          then None else Some (tally ev ci))"

lemma counted_amount_nonzero:
  assumes "0 < c_int x"
  shows "x \<noteq> 0" and "int_to_u64 (c_int x) \<noteq> 0"
proof -
  show "x \<noteq> 0" using assms by auto
  show "int_to_u64 (c_int x) \<noteq> 0"
  proof
    assume "int_to_u64 (c_int x) = 0"
    then have "(ucast (ucast x :: u32) :: u64) = 0" using c_int_positive [OF assms] by simp
    moreover have "(ucast (ucast (ucast x :: u32) :: u64) :: u32) = ucast x"
      by (rule bit_word_eqI) (auto simp: bit_simps)
    ultimately have "(ucast x :: u32) = 0" by simp
    with assms show False by (simp add: c_int_def)
  qed
qed

lemma tally_tx: "rx_amount ev ci = 0 \<Longrightarrow> retransmit_amount ev = 0 \<Longrightarrow> tally ev ci = add_tx (tx_amount ev ci) ci"
  by (simp add: tally_def add_tx_def)

lemma tally_rx: "tx_amount ev ci = 0 \<Longrightarrow> retransmit_amount ev = 0 \<Longrightarrow> tally ev ci = add_rx (rx_amount ev ci) ci"
  by (simp add: tally_def add_rx_def)

lemma tally_retransmit:
  "tx_amount ev ci = 0 \<Longrightarrow> rx_amount ev ci = 0 \<Longrightarrow> retransmit_amount ev \<noteq> 0 \<Longrightarrow>
    tally ev ci = add_retransmit (ucast (retransmit_amount ev)) ci"
  by (simp add: tally_def add_retransmit_def)

lemma flow_add_rx:
  "tx_amount ev ci = 0 \<Longrightarrow> retransmit_amount ev = 0 \<Longrightarrow>
    flow_add ev ci = (\<lambda>val. val\<lparr>fm_rx_bytes := fm_rx_bytes val + rx_amount ev ci\<rparr>)"
  by (simp add: flow_add_def fun_eq_iff)

lemma flow_add_retransmit:
  "tx_amount ev ci = 0 \<Longrightarrow> rx_amount ev ci = 0 \<Longrightarrow> retransmit_amount ev \<noteq> 0 \<Longrightarrow>
    flow_add ev ci = bump_retransmit (ucast (retransmit_amount ev))"
  by (simp add: flow_add_def bump_retransmit_def fun_eq_iff)

lemma step_inserts_flow:
  assumes "inserts_flow ev"
  shows "step (e, ev) a =
    (case counted_call e ev a of
       None \<Rightarrow> a
     | Some conn \<Rightarrow>
         update_flow_aggregate e conn (tx_amount ev conn) (rx_amount ev conn)
           (write_connection (bpf_get_socket_cookie e) conn a))"
proof (cases "lookup_connection a (bpf_get_socket_cookie e)")
  case None
  with assms show ?thesis by (cases ev) (simp_all add: counted_call_def byte_hook_simps split: option.split)
next
  case (Some ci)
  with assms show ?thesis
    by (cases ev; cases "get_config a") (simp_all add: counted_call_def byte_hook_simps nth_bpf_ctx_cast Let_def
        tally_tx tally_rx counted_amount_nonzero not_le)
qed


lemma step_bumps_flow:
  assumes "bumps_flow ev"
  shows "step (e, ev) a =
    (case counted_call e ev a of
       None \<Rightarrow> a
     | Some conn \<Rightarrow> bump_flow e (flow_key_of conn) (flow_add ev conn) (write_connection (bpf_get_socket_cookie e) conn a))"
proof (cases ev)
  case (Udp_recvmsg_exit ctx)
  then show ?thesis
    using flow_add_rx [of ev]
    by (auto simp: counted_call_def byte_hook_simps nth_bpf_ctx_cast Let_def tally_rx get_config_def
        counted_amount_nonzero not_le split: option.split)
next
  case (Tcp_retransmit len)
  then show ?thesis
    using flow_add_retransmit [of ev]
    by (auto simp: counted_call_def byte_hook_simps Let_def tally_retransmit split: option.split)
next
  case (Tcp_loss_probe mss)
  then show ?thesis
    using flow_add_retransmit [of ev]
    by (auto simp: counted_call_def byte_hook_simps Let_def tally_retransmit split: option.split)
qed (use assms in auto)

lemma step_in_halves:
  assumes "inserts_flow ev \<or> bumps_flow ev"
  shows "step (e, ev) a =
    (case counted_call e ev a of
       None \<Rightarrow> a
     | Some conn \<Rightarrow>
         let b = write_connection (bpf_get_socket_cookie e) conn a
         in finish_half reuse (lookup_half e ev conn b) b)"
  using assms step_inserts_flow [of ev e a] step_bumps_flow [of ev e a]
  by (auto simp: insert_halves bump_halves Let_def split: option.split)

section \<open>The packet program\<close>

record packet =
  pk_env :: kenv
  pk_key :: quic_flow_key
  pk_version :: u32
  pk_header_type :: int
  pk_bytes :: u64
  pk_ptr :: flow_ptr

definition counted_packet :: "kenv \<Rightarrow> u8 list \<Rightarrow> agent \<Rightarrow> packet option" where
  "counted_packet e pkt a =
     (case get_config a of
        None \<Rightarrow> None
      | Some cfg \<Rightarrow>
          if ac_udp_socket_tx cfg \<noteq> 0 then None
          else case parse_quic pkt of
                 Some (Quic_packet key version header_type) \<Rightarrow>
                   Some \<lparr>pk_env = e, pk_key = key, pk_version = version, pk_header_type = header_type,
                     pk_bytes = of_nat (length pkt),
                     pk_ptr = (if lookup_quic a key = None then Null else Live)\<rparr>
               | _ \<Rightarrow> None)"

definition is_long_header :: "packet \<Rightarrow> u8" where
  "is_long_header p = (if pk_header_type p = 1 then 1 else 0)"

definition add_packet :: "packet \<Rightarrow> quic_flow_key \<Rightarrow> agent \<Rightarrow> agent" where
  "add_packet p key a =
     (case lookup_quic a key of
        None \<Rightarrow> a
      | Some vals \<Rightarrow>
          (let e = pk_env p; val = vals (smp_processor_id e);
               val' = val\<lparr>qm_tx_bytes := qm_tx_bytes val + pk_bytes p,
                          qm_pkt_count := qm_pkt_count val + 1,
                          qm_last_seen_ns := bpf_ktime_get_ns e 0,
                          qm_quic_version := (if pk_version p \<noteq> 0 then pk_version p else qm_quic_version val),
                          qm_is_long_header := is_long_header p\<rparr>
           in a\<lparr>quic_flows := bpf_map_write key (vals(smp_processor_id e := val')) (quic_flows a)\<rparr>))"

definition insert_packet :: "packet \<Rightarrow> agent \<Rightarrow> agent" where
  "insert_packet p a =
     (let e = pk_env p;
          new_val = zero_quic_flow_metrics\<lparr>qm_tx_bytes := pk_bytes p, qm_pkt_count := 1,
            qm_last_seen_ns := bpf_ktime_get_ns e 0, qm_quic_version := pk_version p,
            qm_is_long_header := is_long_header p\<rparr>
      in case hash_update (map_grant e M_quic_flows) BPF_NOEXIST (pk_key p)
                ((other_cpus_quic e)(smp_processor_id e := new_val)) (quic_flows a) of
           (None, m) \<Rightarrow> a\<lparr>quic_flows := m\<rparr>
         | (Some _, m) \<Rightarrow> count_drop e (slot_index DROP_SLOT_QUIC_FLOWS) (a\<lparr>quic_flows := m\<rparr>))"

definition finish_packet :: "quic_flow_key option \<Rightarrow> packet \<Rightarrow> agent \<Rightarrow> agent" where
  "finish_packet reuse p a =
     (if pk_ptr p = Null then insert_packet p a
      else case ptr_target reuse (pk_key p) (pk_ptr p) of None \<Rightarrow> a | Some key \<Rightarrow> add_packet p key a)"

lemma add_packet_record:
  "lookup_quic a key \<noteq> None \<Longrightarrow>
    add_packet p key a = record_quic (pk_env p) key (pk_version p) (pk_header_type p) (pk_bytes p) a"
  by (auto simp: add_packet_def record_quic_def Let_def is_long_header_def)

lemma insert_packet_record:
  "lookup_quic a (pk_key p) = None \<Longrightarrow>
    insert_packet p a = record_quic (pk_env p) (pk_key p) (pk_version p) (pk_header_type p) (pk_bytes p) a"
  by (simp add: insert_packet_def record_quic_def Let_def is_long_header_def)

text \<open>An insert that comes too late is refused and counted.\<close>

lemma insert_packet_late:
  "lookup_quic a (pk_key p) \<noteq> None \<Longrightarrow>
    insert_packet p a = count_drop (pk_env p) (slot_index DROP_SLOT_QUIC_FLOWS) a"
  by (auto simp: insert_packet_def hash_update_def check_flags_def Let_def lookup_quic_def bpf_map_lookup_elem_def)

lemma step_in_packet_halves:
  "step (e, Quic_egress pkt) a =
    (case counted_packet e pkt a of None \<Rightarrow> a | Some p \<Rightarrow> finish_packet reuse p a)"
proof (cases "get_config a")
  case (Some cfg)
  obtain r where "parse_quic pkt = Some r" using parse_quic_safe by blast
  with Some show ?thesis
    by (cases r) (auto simp: step_def tollwing_quic_egress_def counted_packet_def finish_packet_def ptr_target_def
        insert_packet_record add_packet_record)
qed (simp add: step_def tollwing_quic_egress_def counted_packet_def)

section \<open>Only the drain removes flows\<close>

definition has_flow :: "agent \<Rightarrow> flow_key \<Rightarrow> bool" where
  "has_flow a k \<longleftrightarrow> lookup_flow a k \<noteq> None"

definition has_quic :: "agent \<Rightarrow> quic_flow_key \<Rightarrow> bool" where
  "has_quic a k \<longleftrightarrow> lookup_quic a k \<noteq> None"

lemma has_flow_cong: "flow_aggregates b = flow_aggregates a \<Longrightarrow> has_flow b k = has_flow a k"
  by (simp add: has_flow_def lookup_flow_def)

lemma has_quic_cong: "quic_flows b = quic_flows a \<Longrightarrow> has_quic b k = has_quic a k"
  by (simp add: has_quic_def lookup_quic_def)

lemma insert_flow_grows: "has_flow a k \<Longrightarrow> has_flow (insert_flow e key fm a) k"
  by (cases rule: hash_update_cases [of "map_grant e M_flow_aggregates" BPF_NOEXIST key
        "(other_cpus_flow e)(smp_processor_id e := fm)" "flow_aggregates a"])
    (auto simp: insert_flow_def has_flow_def lookup_flow_def)

lemma write_flow_grows: "has_flow a k \<Longrightarrow> has_flow (write_flow e key vals fm a) k"
  by (simp add: has_flow_def write_flow_def lookup_flow_def)

lemma write_connection_grows: "has_flow a k \<Longrightarrow> has_flow (write_connection c ci a) k"
  by (simp add: has_flow_def lookup_flow_def)

lemmas grows = insert_flow_grows write_flow_grows write_connection_grows

lemma update_flow_grows: "has_flow a k \<Longrightarrow> has_flow (update_flow_aggregate e conn tx rx a) k"
  by (auto simp: update_flow_aggregate_def Let_def intro: grows split: option.split)

lemma bump_flow_grows: "has_flow a k \<Longrightarrow> has_flow (bump_flow e key f a) k"
  by (auto simp: bump_flow_def intro: grows split: option.split)

lemma finish_half_grows: "has_flow a k \<Longrightarrow> has_flow (finish_half r p a) k"
  by (auto simp: finish_half_def intro: grows bump_flow_grows split: option.split)

lemma seed_flow_grows: "has_flow a k \<Longrightarrow> has_flow (seed_flow e s d conn a) k"
  by (auto simp: seed_flow_def Let_def intro: grows split: option.split)

lemma handle_established_grows:
  assumes "has_flow a k"
  shows "has_flow (handle_established e s d a) k"
proof -
  define b where "b = snd (detect_sidecar e s (bpf_sock_ops_cb_flags_set e s
    (so_bpf_sock_ops_cb_flags s OR BPF_SOCK_OPS_STATE_CB_FLAG)
    (update_connections e BPF_ANY (bpf_get_socket_cookie e)
      (established_conn e s d (fst (correlate e d a))) (snd (correlate e d a)))))"
  have "flow_aggregates b = flow_aggregates a" by (simp add: b_def update_connections_def)
  with assms have "has_flow b k" using has_flow_cong by blast
  moreover have "flow_aggregates (handle_established e s d a) =
      flow_aggregates (seed_flow e s d (established_conn e s d (fst (correlate e d a))) b)"
    by (simp add: handle_established_def Let_def split_beta b_def)
  ultimately show ?thesis using seed_flow_grows has_flow_cong by blast
qed

lemma step_grows:
  assumes "has_flow a k"
  shows "has_flow (step (e, ev) a) k"
proof (cases ev)
  case (Quic_egress pkt)
  show ?thesis
    by (rule step_quic [of e pkt a])
      (use assms in \<open>auto simp: Quic_egress record_quic_frame intro: has_flow_cong [THEN iffD2]\<close>)
next
  case (Sockops s)
  then show ?thesis
    using assms handle_established_grows
    by (auto simp: tollwing_sockops_def intro: has_flow_cong [THEN iffD2] split: option.split)
qed (use assms in \<open>auto simp: byte_hook_simps dns_frame intro: grows update_flow_grows bump_flow_grows
    has_flow_cong [THEN iffD2] split: option.split\<close>)

lemma sys_step_grows:
  assumes "has_flow (fst s) k" and "ev \<noteq> Poll_flow k"
  shows "has_flow (fst (sys_step n ev s)) k"
proof (cases ev)
  case (Kernel e kev)
  then show ?thesis using assms step_grows by (cases s) simp
next
  case (Poll_flow key)
  then show ?thesis using assms by (cases s) (simp add: has_flow_def poll_flow_lookup)
next
  case (Poll_quic_flow key)
  then show ?thesis using assms has_flow_cong [of "fst (poll_quic_flow n key s)" "fst s" k] by simp
qed (use assms in \<open>cases s; auto intro: has_flow_cong [THEN iffD2]\<close>)+

lemma record_quic_grows: "has_quic a k \<Longrightarrow> has_quic (record_quic e key v h m a) k"
  by (cases rule: hash_update_cases [of "map_grant e M_quic_flows" BPF_NOEXIST key
        "(other_cpus_quic e)(smp_processor_id e := zero_quic_flow_metrics\<lparr>qm_tx_bytes := m, qm_pkt_count := 1,
           qm_last_seen_ns := bpf_ktime_get_ns e 0, qm_quic_version := v,
           qm_is_long_header := if h = 1 then 1 else 0\<rparr>)" "quic_flows a"])
    (auto simp: record_quic_def has_quic_def lookup_quic_def Let_def split: option.split)

lemma finish_packet_cases:
  assumes "pk_ptr p = Live \<longrightarrow> has_quic a (pk_key p)"
  obtains (recorded) k where "pk_ptr p = Stale \<Longrightarrow> reuse = Some k \<and> has_quic a k"
      "finish_packet reuse p a = record_quic (pk_env p) k (pk_version p) (pk_header_type p) (pk_bytes p) a"
  | (late) "pk_ptr p = Null" "finish_packet reuse p a = count_drop (pk_env p) (slot_index DROP_SLOT_QUIC_FLOWS) a"
  | (lost) "pk_ptr p = Stale" "case reuse of None \<Rightarrow> True | Some k \<Rightarrow> \<not> has_quic a k" "finish_packet reuse p a = a"
proof (cases "pk_ptr p")
  case Null
  then show thesis
    using that(1) [of "pk_key p"] that(2) insert_packet_record [of a p] insert_packet_late [of a p]
    by (cases "lookup_quic a (pk_key p)") (auto simp: finish_packet_def)
next
  case Live
  then show thesis
    using that(1) [of "pk_key p"] assms add_packet_record [of a "pk_key p" p]
    by (simp add: finish_packet_def ptr_target_def has_quic_def)
next
  case Stale
  then show thesis
    using that(1,3) add_packet_record [of a _ p]
    by (cases reuse) (auto simp: finish_packet_def ptr_target_def has_quic_def add_packet_def split: option.splits)
qed

lemma sys_step_quic_grows:
  assumes "has_quic (fst s) k" and "ev \<noteq> Poll_quic_flow k" and "possible n ev"
  shows "has_quic (fst (sys_step n ev s)) k"
proof (cases ev)
  case (Kernel e kev)
  have "has_quic (step (e, kev) (fst s)) k"
  proof (cases "\<exists>pkt. kev = Quic_egress pkt")
    case True
    then obtain pkt where "kev = Quic_egress pkt" by blast
    then show ?thesis using assms(1) by (cases rule: quic_credit_cases [of e pkt "fst s"]) (auto intro: record_quic_grows)
  next
    case False
    then have "quic_flows (step (e, kev) (fst s)) = quic_flows (fst s)"
      using step_quic_slot(2) [of e n kev "fst s"] assms(3) Kernel by auto
    then show ?thesis using assms(1) has_quic_cong by blast
  qed
  then show ?thesis by (cases s) (simp add: Kernel)
next
  case (Poll_flow key)
  then show ?thesis using assms(1) has_quic_cong [of "fst (poll_flow n key s)" "fst s" k]
    by (cases s) (simp add: poll_flow_def split: option.splits)
next
  case (Poll_quic_flow key)
  then show ?thesis
    using assms(1,2) by (cases s) (auto simp: has_quic_def poll_quic_flow_def lookup_quic_def split: option.split)
qed (use assms in \<open>cases s; auto intro: has_quic_cong [THEN iffD2]\<close>)+

section \<open>What the second half books\<close>

text \<open>
  \<open>worth\<close> is what an update in flight adds to a counter of its flow: nothing when there was no
  flow and the program inserts none.
\<close>

definition worth :: "(flow_metrics \<Rightarrow> u64) \<Rightarrow> pending \<Rightarrow> u64" where
  "worth g p =
     (if pn_ptr p = Null then (case pn_new p of None \<Rightarrow> 0 | Some v \<Rightarrow> g v)
      else g (pn_add p zero_flow_metrics))"

text \<open>The increment of a stale pointer is gone when its memory is free; else another flow gets it.\<close>

definition raced :: "(flow_metrics \<Rightarrow> u64) \<Rightarrow> flow_key option \<Rightarrow> pending \<Rightarrow> agent \<Rightarrow> u64" where
  "raced g reuse p a =
     (if pn_ptr p = Stale \<and> (case reuse of None \<Rightarrow> True | Some key \<Rightarrow> \<not> has_flow a key) then worth g p else 0)"

definition raced_packet :: "quic_flow_key option \<Rightarrow> packet \<Rightarrow> agent \<Rightarrow> u64" where
  "raced_packet reuse p a =
     (if pk_ptr p = Stale \<and> (case reuse of None \<Rightarrow> True | Some key \<Rightarrow> \<not> has_quic a key) then pk_bytes p else 0)"

text \<open>The counters with a ledger: adding to them does not depend on what is there.\<close>

definition ledgered :: "(flow_metrics \<Rightarrow> u64) set" where
  "ledgered = {fm_tx_bytes, fm_rx_bytes}"

definition adds :: "(flow_metrics \<Rightarrow> flow_metrics) \<Rightarrow> bool" where
  "adds f \<longleftrightarrow> (\<forall>g \<in> ledgered. \<forall>m. g (f m) = g m + g (f zero_flow_metrics))"

lemma ledgered_facts:
  assumes "g \<in> ledgered"
  shows "g zero_flow_metrics = 0" "g (m\<lparr>fm_last_updated_ns := t\<rparr>) = g m"
  using assms by (auto simp: ledgered_def zero_flow_metrics_def)

lemma flow_add_adds: "adds (flow_add ev conn)"
  by (auto simp: adds_def ledgered_def flow_add_def zero_flow_metrics_def)

lemma finish_half_wf: "agent_wf a \<Longrightarrow> agent_wf (finish_half r p a)"
  by (auto simp: finish_half_def intro: wf_intros split: option.split)

lemma finish_half_booked:
  assumes wf: "agent_wf a" and cpu: "smp_processor_id (pn_env p) < n" and zero: "other_cpus_zero (pn_env p)"
    and g: "g \<in> ledgered" and adds: "adds (pn_add p)" and live: "pn_ptr p = Live \<Longrightarrow> has_flow a (pn_key p)"
  shows "flow_booked n g (worth g p - raced g r p a) a (finish_half r p a)"
proof -
  have bump: "flow_booked n g (if has_flow a k then g (pn_add p zero_flow_metrics) else 0) a
      (bump_flow (pn_env p) k (pn_add p) a)" for k
  proof -
    have "g (pn_add p m) = g m + g (pn_add p zero_flow_metrics)" for m using adds g by (simp add: adds_def)
    from bump_flow_booked [OF wf cpu ledgered_facts(2) [OF g] this, of k] show ?thesis
      by (cases "lookup_flow a k") (simp_all add: has_flow_def)
  qed
  show ?thesis
  proof (cases "pn_ptr p")
    case Null
    then show ?thesis
    proof (cases "pn_new p")
      case None
      with Null have "worth g p - raced g r p a = 0" "finish_half r p a = a"
        by (simp_all add: finish_half_def worth_def raced_def)
      then show ?thesis by (simp add: flow_booked_def)
    next
      case (Some v)
      with Null have "worth g p - raced g r p a = g v" "finish_half r p a = insert_flow (pn_env p) (pn_key p) v a"
        by (simp_all add: finish_half_def worth_def raced_def)
      then show ?thesis
        using insert_flow_booked [OF wf cpu zero, of g] ledgered_facts(1) [OF g] by simp
    qed
  next
    case Live
    then show ?thesis
      using bump [of "pn_key p"] live by (simp add: finish_half_def ptr_target_def worth_def raced_def)
  next
    case Stale
    show ?thesis
    proof (cases "case r of None \<Rightarrow> True | Some k \<Rightarrow> \<not> has_flow a k")
      case True
      with Stale have "worth g p - raced g r p a = 0" by (simp add: raced_def)
      moreover have "finish_half r p a = a"
        using Stale True
        by (cases r) (simp_all add: finish_half_def ptr_target_def bump_flow_def has_flow_def)
      ultimately show ?thesis by (simp add: flow_booked_def)
    next
      case False
      then obtain k where k: "r = Some k" "has_flow a k" by (cases r) auto
      with Stale have "worth g p - raced g r p a = g (pn_add p zero_flow_metrics)"
        "finish_half r p a = bump_flow (pn_env p) k (pn_add p) a"
        by (simp_all add: raced_def worth_def finish_half_def ptr_target_def)
      then show ?thesis using bump [of k] k(2) by (simp only: if_True)
    qed
  qed
qed

lemma finish_half_frame:
  assumes "smp_processor_id (pn_env p) < n"
  shows "quic_flows (finish_half r p a) = quic_flows a"
    and "drops n DROP_SLOT_QUIC_FLOWS (finish_half r p a) = drops n DROP_SLOT_QUIC_FLOWS a"
  using insert_flow_drops [OF assms, of DROP_SLOT_QUIC_FLOWS] flow_drops(3) [OF assms, of DROP_SLOT_QUIC_FLOWS]
  by (auto simp: finish_half_def insert_flow_def split: option.split prod.split)

lemma finish_packet_wf: "agent_wf a \<Longrightarrow> agent_wf (finish_packet r p a)"
  by (auto simp: finish_packet_def insert_packet_def add_packet_def Let_def agent_wf_def lookup_quic_def
      intro: wf_write hash.upd_wf split: option.split prod.split)

lemma finish_packet_booked:
  assumes wf: "agent_wf a" and cpu: "smp_processor_id (pk_env p) < n"
    and zero: "\<And>c. qm_tx_bytes (other_cpus_quic (pk_env p) c) = 0"
    and live: "pk_ptr p = Live \<longrightarrow> has_quic a (pk_key p)"
  shows "accounts (pk_bytes p - raced_packet r p a)
    (quic_total n qm_tx_bytes a, drops n DROP_SLOT_QUIC_FLOWS a)
    (quic_total n qm_tx_bytes (finish_packet r p a), drops n DROP_SLOT_QUIC_FLOWS (finish_packet r p a))"
proof (cases rule: finish_packet_cases [OF live, of r])
  case (1 k)
  then have "raced_packet r p a = 0" by (auto simp: raced_packet_def)
  then show ?thesis
    using record_quic_accounts [OF wf cpu zero, of k "pk_version p" "pk_header_type p" "pk_bytes p"] 1(2)
    by (auto simp: accounts_def)
next
  case 2
  then show ?thesis
    using drops_count_drop [OF cpu, of DROP_SLOT_QUIC_FLOWS DROP_SLOT_QUIC_FLOWS a]
    by (simp add: accounts_def quic_total_def)
next
  case 3
  then show ?thesis by (simp add: accounts_def raced_packet_def)
qed

lemma finish_packet_frame:
  assumes "smp_processor_id (pk_env p) < n"
  shows "flow_aggregates (finish_packet r p a) = flow_aggregates a"
    and "drops n DROP_SLOT_FLOW_AGGREGATES (finish_packet r p a) = drops n DROP_SLOT_FLOW_AGGREGATES a"
proof -
  have upd: "drops n DROP_SLOT_FLOW_AGGREGATES (a\<lparr>quic_flows := x\<rparr>) = drops n DROP_SLOT_FLOW_AGGREGATES a" for x
    by (simp add: drops_def)
  have "drops n DROP_SLOT_FLOW_AGGREGATES (count_drop (pk_env p) (slot_index DROP_SLOT_QUIC_FLOWS) b) =
      drops n DROP_SLOT_FLOW_AGGREGATES b" for b
    using drops_count_drop [OF assms, of DROP_SLOT_FLOW_AGGREGATES DROP_SLOT_QUIC_FLOWS b] by simp
  with upd show "drops n DROP_SLOT_FLOW_AGGREGATES (finish_packet r p a) = drops n DROP_SLOT_FLOW_AGGREGATES a"
    by (simp add: finish_packet_def insert_packet_def add_packet_def Let_def split: option.split prod.split)
  show "flow_aggregates (finish_packet r p a) = flow_aggregates a"
    by (auto simp: finish_packet_def insert_packet_def add_packet_def Let_def split: option.split prod.split)
qed

end
