(* ===== verification/Update_Races.thy ===== *)
theory Update_Races
  imports Update_Halves
begin

text \<open>
  Programs on several CPUs at once, each taken apart at its flow lookup. Between the lookup and
  the update another CPU may insert the key and the poller may take it away. Invocations in
  flight are numbered; an invocation holds what its lookup returned. The ledgers of whole
  invocations hold at this grain, with one more entry: the increments through a pointer to an
  entry that the poller has taken.
\<close>

section \<open>The concurrent system\<close>

text \<open>
  \<open>Whole\<close> events are those of the sequential system. \<open>Begin i\<close> runs a counting program up to its
  flow lookup, as invocation \<open>i\<close>; \<open>Finish i\<close> is the rest; \<open>Begin_packet\<close> and \<open>Finish_packet\<close> are
  the same for the packet program. A drain turns the pointers to its key stale.
\<close>

record concurrent =
  cc_agent :: agent
  cc_flows :: "flow_snapshot list"
  cc_pending :: "nat \<rightharpoonup> pending"
  cc_packets :: "nat \<rightharpoonup> packet"

datatype conc_event =
    Whole sys_event
  | Begin nat kenv kevent
  | Finish nat "flow_key option"
  | Begin_packet nat kenv "u8 list"
  | Finish_packet nat "quic_flow_key option"

definition stale_if :: "flow_key \<Rightarrow> pending \<Rightarrow> pending" where
  "stale_if key p = (if pn_ptr p = Live \<and> pn_key p = key then p\<lparr>pn_ptr := Stale\<rparr> else p)"

definition stale_packet_if :: "quic_flow_key \<Rightarrow> packet \<Rightarrow> packet" where
  "stale_packet_if key p = (if pk_ptr p = Live \<and> pk_key p = key then p\<lparr>pk_ptr := Stale\<rparr> else p)"

fun drained :: "sys_event \<Rightarrow> (nat \<rightharpoonup> pending) \<Rightarrow> (nat \<rightharpoonup> pending)" where
  "drained (Poll_flow key) pend = map_option (stale_if key) \<circ> pend"
| "drained _ pend = pend"

fun drained_packets :: "sys_event \<Rightarrow> (nat \<rightharpoonup> packet) \<Rightarrow> (nat \<rightharpoonup> packet)" where
  "drained_packets (Poll_quic_flow key) pend = map_option (stale_packet_if key) \<circ> pend"
| "drained_packets _ pend = pend"

fun conc_step :: "nat \<Rightarrow> conc_event \<Rightarrow> concurrent \<Rightarrow> concurrent" where
  "conc_step n (Whole ev) s =
     (let (a, fl) = sys_step n ev (cc_agent s, cc_flows s)
      in \<lparr>cc_agent = a, cc_flows = fl, cc_pending = drained ev (cc_pending s),
          cc_packets = drained_packets ev (cc_packets s)\<rparr>)"
| "conc_step n (Begin i e ev) s =
     (if cc_pending s i \<noteq> None then s
      else case counted_call e ev (cc_agent s) of
        None \<Rightarrow> s
      | Some conn \<Rightarrow>
          let a = write_connection (bpf_get_socket_cookie e) conn (cc_agent s)
          in s\<lparr>cc_agent := a, cc_pending := (cc_pending s)(i \<mapsto> lookup_half e ev conn a)\<rparr>)"
| "conc_step n (Finish i r) s =
     (case cc_pending s i of
        None \<Rightarrow> s
      | Some p \<Rightarrow> s\<lparr>cc_agent := finish_half r p (cc_agent s), cc_pending := (cc_pending s)(i := None)\<rparr>)"
| "conc_step n (Begin_packet i e pkt) s =
     (if cc_packets s i \<noteq> None then s
      else case counted_packet e pkt (cc_agent s) of
        None \<Rightarrow> s
      | Some p \<Rightarrow> s\<lparr>cc_packets := (cc_packets s)(i \<mapsto> p)\<rparr>)"
| "conc_step n (Finish_packet i r) s =
     (case cc_packets s i of
        None \<Rightarrow> s
      | Some p \<Rightarrow> s\<lparr>cc_agent := finish_packet r p (cc_agent s), cc_packets := (cc_packets s)(i := None)\<rparr>)"

definition conc_initial :: "map_sizes \<Rightarrow> agent_config \<Rightarrow> concurrent" where
  "conc_initial sizes cfg = \<lparr>cc_agent = boot_agent sizes cfg, cc_flows = [],
     cc_pending = Map.empty, cc_packets = Map.empty\<rparr>"

fun conc_possible :: "nat \<Rightarrow> conc_event \<Rightarrow> bool" where
  "conc_possible n (Whole ev) \<longleftrightarrow> possible n ev \<and> quic_zero ev"
| "conc_possible n (Begin i e ev) \<longleftrightarrow>
     (inserts_flow ev \<or> bumps_flow ev) \<and> smp_processor_id e < n \<and> other_cpus_zero e"
| "conc_possible n (Begin_packet i e pkt) \<longleftrightarrow>
     smp_processor_id e < n \<and> (\<forall>c. qm_tx_bytes (other_cpus_quic e c) = 0)"
| "conc_possible n _ \<longleftrightarrow> True"

text \<open>Begin and finish in a row are the whole program.\<close>

lemma begin_finish_is_step:
  assumes "inserts_flow ev \<or> bumps_flow ev" and "cc_pending s i = None"
  shows "conc_step n (Finish i r) (conc_step n (Begin i e ev) s) = conc_step n (Whole (Kernel e ev)) s"
proof (cases "counted_call e ev (cc_agent s)")
  case None
  then show ?thesis
    using assms step_in_halves [OF assms(1), of e "cc_agent s"] by (simp del: step_simps)
next
  case (Some conn)
  then show ?thesis
    using assms(2) step_in_halves [OF assms(1), of e "cc_agent s" r]
    by (simp add: Let_def fun_upd_idem del: step_simps)
qed

lemma begin_finish_is_packet:
  assumes "cc_packets s i = None"
  shows "conc_step n (Finish_packet i r) (conc_step n (Begin_packet i e pkt) s) =
    conc_step n (Whole (Kernel e (Quic_egress pkt))) s"
  using assms step_in_packet_halves [of e pkt "cc_agent s" r]
  by (auto simp: Let_def fun_upd_idem simp del: step_simps split: option.split)

section \<open>The invariant\<close>

text \<open>A live pointer belongs to an entry of the map.\<close>

definition pending_ok :: "nat \<Rightarrow> concurrent \<Rightarrow> bool" where
  "pending_ok n s \<longleftrightarrow> agent_wf (cc_agent s) \<and>
     (\<forall>i p. cc_pending s i = Some p \<longrightarrow> smp_processor_id (pn_env p) < n \<and> other_cpus_zero (pn_env p) \<and>
        adds (pn_add p) \<and> (pn_ptr p = Live \<longrightarrow> has_flow (cc_agent s) (pn_key p))) \<and>
     (\<forall>i p. cc_packets s i = Some p \<longrightarrow> smp_processor_id (pk_env p) < n \<and>
        (\<forall>c. qm_tx_bytes (other_cpus_quic (pk_env p) c) = 0) \<and>
        (pk_ptr p = Live \<longrightarrow> has_quic (cc_agent s) (pk_key p)))"

lemma pending_okD:
  assumes "pending_ok n s"
  shows "agent_wf (cc_agent s)"
    and "cc_pending s i = Some p \<Longrightarrow> smp_processor_id (pn_env p) < n"
    and "cc_pending s i = Some p \<Longrightarrow> other_cpus_zero (pn_env p)"
    and "cc_pending s i = Some p \<Longrightarrow> adds (pn_add p)"
    and "cc_pending s i = Some p \<Longrightarrow> pn_ptr p = Live \<Longrightarrow> has_flow (cc_agent s) (pn_key p)"
    and "cc_packets s i = Some q \<Longrightarrow> smp_processor_id (pk_env q) < n"
    and "cc_packets s i = Some q \<Longrightarrow> qm_tx_bytes (other_cpus_quic (pk_env q) c) = 0"
    and "cc_packets s i = Some q \<Longrightarrow> pk_ptr q = Live \<longrightarrow> has_quic (cc_agent s) (pk_key q)"
  using assms unfolding pending_ok_def by blast+

lemma drained_pending:
  assumes "drained ev pend i = Some p"
  obtains q where "pend i = Some q" "pn_env p = pn_env q" "pn_key p = pn_key q" "pn_add p = pn_add q"
    "pn_ptr p = Live \<Longrightarrow> pn_ptr q = Live \<and> ev \<noteq> Poll_flow (pn_key q)"
proof (cases ev)
  case (Poll_flow key)
  with assms obtain q where q: "pend i = Some q" "p = stale_if key q" by auto
  then have "pn_env p = pn_env q" "pn_key p = pn_key q" "pn_add p = pn_add q"
    "pn_ptr p = Live \<Longrightarrow> pn_ptr q = Live \<and> key \<noteq> pn_key q"
    by (auto simp: stale_if_def split: if_splits)
  with q Poll_flow show thesis by (intro that [of q]) auto
qed (use assms that in auto)

lemma drained_packet:
  assumes "drained_packets ev pend i = Some p"
  obtains q where "pend i = Some q" "pk_env p = pk_env q" "pk_key p = pk_key q"
    "pk_ptr p = Live \<Longrightarrow> pk_ptr q = Live \<and> ev \<noteq> Poll_quic_flow (pk_key q)"
proof (cases ev)
  case (Poll_quic_flow key)
  with assms obtain q where q: "pend i = Some q" "p = stale_packet_if key q" by auto
  then have "pk_env p = pk_env q" "pk_key p = pk_key q"
    "pk_ptr p = Live \<Longrightarrow> pk_ptr q = Live \<and> key \<noteq> pk_key q"
    by (auto simp: stale_packet_if_def split: if_splits)
  with q Poll_quic_flow show thesis by (intro that [of q]) auto
qed (use assms that in auto)

lemma whole_ok:
  assumes ok: "pending_ok n s" and ev: "possible n ev"
  shows "pending_ok n (conc_step n (Whole ev) s)"
proof -
  let ?t = "sys_step n ev (cc_agent s, cc_flows s)"
  have "agent_wf (fst ?t)" using pending_okD(1) [OF ok] sys_step_wf by simp
  moreover have "smp_processor_id (pn_env p) < n \<and> other_cpus_zero (pn_env p) \<and> adds (pn_add p) \<and>
      (pn_ptr p = Live \<longrightarrow> has_flow (fst ?t) (pn_key p))"
    if "drained ev (cc_pending s) i = Some p" for i p
  proof -
    from that obtain q where q: "cc_pending s i = Some q" "pn_env p = pn_env q" "pn_key p = pn_key q"
      "pn_add p = pn_add q" "pn_ptr p = Live \<Longrightarrow> pn_ptr q = Live \<and> ev \<noteq> Poll_flow (pn_key q)"
      by (rule drained_pending) blast
    then show ?thesis
      using pending_okD(2-5) [OF ok q(1)] sys_step_grows [of "(cc_agent s, cc_flows s)" "pn_key q" ev n]
      by simp
  qed
  moreover have "smp_processor_id (pk_env p) < n \<and> (\<forall>c. qm_tx_bytes (other_cpus_quic (pk_env p) c) = 0) \<and>
      (pk_ptr p = Live \<longrightarrow> has_quic (fst ?t) (pk_key p))"
    if "drained_packets ev (cc_packets s) i = Some p" for i p
  proof -
    from that obtain q where q: "cc_packets s i = Some q" "pk_env p = pk_env q" "pk_key p = pk_key q"
      "pk_ptr p = Live \<Longrightarrow> pk_ptr q = Live \<and> ev \<noteq> Poll_quic_flow (pk_key q)"
      by (rule drained_packet) blast
    then show ?thesis
      using pending_okD(6-8) [OF ok q(1)] sys_step_quic_grows [of "(cc_agent s, cc_flows s)" "pk_key q" ev n] ev
      by simp
  qed
  ultimately show ?thesis by (simp add: pending_ok_def Let_def split_beta)
qed

lemma write_connection_same: "has_quic (write_connection c ci a) k = has_quic a k"
  by (rule has_quic_cong) simp

lemma begin_ok:
  assumes ok: "pending_ok n s" and ev: "smp_processor_id e < n" "other_cpus_zero e"
  shows "pending_ok n (conc_step n (Begin i e ev) s)"
proof (cases "cc_pending s i = None \<and> counted_call e ev (cc_agent s) \<noteq> None")
  case True
  then obtain conn where c: "counted_call e ev (cc_agent s) = Some conn" by auto
  then have "agent_wf (write_connection (bpf_get_socket_cookie e) conn (cc_agent s))"
    using pending_okD(1) [OF ok] by (auto simp: counted_call_def intro: write_connection_wf split: option.splits if_splits)
  then show ?thesis
    using True c ev pending_okD(2-8) [OF ok] write_connection_grows
    by (auto simp: pending_ok_def Let_def lookup_half_def flow_add_adds write_connection_same has_flow_def)
qed (use ok in auto)

lemma finish_quic_same: "has_quic (finish_half r p a) k = has_quic a k"
  by (rule has_quic_cong) (auto simp: finish_half_def insert_flow_def bump_flow_def split: option.split prod.split)

lemma finish_ok: "pending_ok n s \<Longrightarrow> pending_ok n (conc_step n (Finish i r) s)"
  using finish_half_wf finish_half_grows finish_quic_same
  by (auto simp: pending_ok_def split: option.split)

lemma counted_packetD:
  assumes "counted_packet e pkt a = Some p"
  shows "pk_env p = e" "pk_ptr p = Live \<longrightarrow> has_quic a (pk_key p)"
  using assms by (auto simp: counted_packet_def has_quic_def split: option.splits if_splits quic_parse.split_asm)

lemma begin_packet_ok:
  assumes ok: "pending_ok n s" and ev: "smp_processor_id e < n" "\<forall>c. qm_tx_bytes (other_cpus_quic e c) = 0"
  shows "pending_ok n (conc_step n (Begin_packet i e pkt) s)"
proof (cases "counted_packet e pkt (cc_agent s)")
  case (Some p)
  then have "pk_env p = e" "pk_ptr p = Live \<longrightarrow> has_quic (cc_agent s) (pk_key p)"
    using counted_packetD by blast+
  then show ?thesis using assms by (simp add: Some pending_ok_def)
qed (use ok in simp)

lemma finish_packet_ok:
  assumes ok: "pending_ok n s"
  shows "pending_ok n (conc_step n (Finish_packet i r) s)"
proof (cases "cc_packets s i")
  case (Some p)
  note p = pending_okD(6-8) [OF ok Some]
  have flow: "has_flow (finish_packet r p (cc_agent s)) k = has_flow (cc_agent s) k" for k
    by (rule has_flow_cong [OF finish_packet_frame(1) [OF p(1)]])
  have quic: "has_quic (finish_packet r p (cc_agent s)) k" if "has_quic (cc_agent s) k" for k
    using that by (cases rule: finish_packet_cases [OF p(3), of r])
      (auto intro: record_quic_grows has_quic_cong [THEN iffD2])
  show ?thesis
    using ok finish_packet_wf flow quic by (auto simp: Some pending_ok_def)
qed (use ok in simp)

lemma conc_step_ok:
  assumes "pending_ok n s" and "conc_possible n ev"
  shows "pending_ok n (conc_step n ev s)"
  using assms whole_ok begin_ok finish_ok begin_packet_ok finish_packet_ok
  by (cases ev) (simp_all del: conc_step.simps)

section \<open>The ledgers of a concurrent run\<close>

text \<open>What an event books when nothing goes wrong, and the part of it that a drain has raced away.\<close>

fun conc_credit :: "conc_event \<Rightarrow> concurrent \<Rightarrow> u64" where
  "conc_credit (Whole ev) s = sys_credit ev (cc_agent s, cc_flows s)"
| "conc_credit (Finish i r) s = (case cc_pending s i of None \<Rightarrow> 0 | Some p \<Rightarrow> worth fm_tx_bytes p)"
| "conc_credit (Finish_packet i r) s = (case cc_packets s i of None \<Rightarrow> 0 | Some p \<Rightarrow> pk_bytes p)"
| "conc_credit _ s = 0"

fun conc_raced :: "conc_event \<Rightarrow> concurrent \<Rightarrow> u64" where
  "conc_raced (Finish i r) s =
     (case cc_pending s i of None \<Rightarrow> 0 | Some p \<Rightarrow> raced fm_tx_bytes r p (cc_agent s))"
| "conc_raced (Finish_packet i r) s =
     (case cc_packets s i of None \<Rightarrow> 0 | Some p \<Rightarrow> raced_packet r p (cc_agent s))"
| "conc_raced _ s = 0"

definition conc_accounted :: "nat \<Rightarrow> concurrent \<Rightarrow> u64" where
  "conc_accounted n s = accounted_tx n (cc_agent s, cc_flows s)"

definition conc_drops :: "nat \<Rightarrow> concurrent \<Rightarrow> u64" where
  "conc_drops n s = map_update_drops n (cc_agent s, cc_flows s)"

text \<open>The same for the received bytes, which only the flow aggregates hold.\<close>

fun conc_rx_credit :: "conc_event \<Rightarrow> concurrent \<Rightarrow> u64" where
  "conc_rx_credit (Whole ev) s = sys_rx_credit ev (cc_agent s, cc_flows s)"
| "conc_rx_credit (Finish i r) s = (case cc_pending s i of None \<Rightarrow> 0 | Some p \<Rightarrow> worth fm_rx_bytes p)"
| "conc_rx_credit _ s = 0"

fun conc_rx_raced :: "conc_event \<Rightarrow> concurrent \<Rightarrow> u64" where
  "conc_rx_raced (Finish i r) s =
     (case cc_pending s i of None \<Rightarrow> 0 | Some p \<Rightarrow> raced fm_rx_bytes r p (cc_agent s))"
| "conc_rx_raced _ s = 0"

definition conc_rx_accounted :: "nat \<Rightarrow> concurrent \<Rightarrow> u64" where
  "conc_rx_accounted n s = accounted_rx n (cc_agent s, cc_flows s)"

definition conc_rx_drops :: "nat \<Rightarrow> concurrent \<Rightarrow> u64" where
  "conc_rx_drops n s = flow_drops n (cc_agent s, cc_flows s)"

lemmas conc_totals = conc_accounted_def conc_drops_def conc_rx_accounted_def conc_rx_drops_def
  accounted_tx_def accounted_rx_def map_update_drops_def flow_drops_def

text \<open>The first halves touch neither the flow maps nor the drop counters.\<close>

fun begins :: "conc_event \<Rightarrow> bool" where
  "begins (Begin _ _ _) = True"
| "begins (Begin_packet _ _ _) = True"
| "begins _ = False"

lemma begin_frame:
  assumes "begins ev"
  shows "cc_flows (conc_step n ev s) = cc_flows s"
    and "flow_aggregates (cc_agent (conc_step n ev s)) = flow_aggregates (cc_agent s)"
    and "quic_flows (cc_agent (conc_step n ev s)) = quic_flows (cc_agent s)"
    and "drop_counters (cc_agent (conc_step n ev s)) = drop_counters (cc_agent s)"
  using assms by (cases ev; simp add: Let_def split: option.split)+

lemma conc_begin_totals:
  assumes "begins ev"
  shows "conc_accounted n (conc_step n ev s) = conc_accounted n s"
    and "conc_drops n (conc_step n ev s) = conc_drops n s"
    and "conc_rx_accounted n (conc_step n ev s) = conc_rx_accounted n s"
    and "conc_rx_drops n (conc_step n ev s) = conc_rx_drops n s"
  by (simp_all add: conc_totals flow_total_def quic_total_def drops_def begin_frame [OF assms])

lemma conc_finish_books:
  fixes r :: "flow_key option"
  assumes ok: "pending_ok n s" and p: "cc_pending s i = Some p"
  defines "t \<equiv> conc_step n (Finish i r) s"
  shows "accounts (worth fm_tx_bytes p - raced fm_tx_bytes r p (cc_agent s))
      (conc_accounted n s, conc_drops n s) (conc_accounted n t, conc_drops n t)"
    and "accounts (worth fm_rx_bytes p - raced fm_rx_bytes r p (cc_agent s))
      (conc_rx_accounted n s, conc_rx_drops n s) (conc_rx_accounted n t, conc_rx_drops n t)"
proof -
  note facts = pending_okD(1-5) [OF ok] 
  have booked: "flow_booked n g (worth g p - raced g r p (cc_agent s)) (cc_agent s) (finish_half r p (cc_agent s))"
    if "g \<in> ledgered" for g
    using finish_half_booked [OF facts(1) facts(2) [OF p] facts(3) [OF p] that facts(4) [OF p] facts(5) [OF p]] .
  note frame = finish_half_frame [OF facts(2) [OF p], of r "cc_agent s"]
  have t: "cc_agent t = finish_half r p (cc_agent s)" "cc_flows t = cc_flows s"
    using p by (simp_all add: t_def)
  show "accounts (worth fm_tx_bytes p - raced fm_tx_bytes r p (cc_agent s))
      (conc_accounted n s, conc_drops n s) (conc_accounted n t, conc_drops n t)"
    using booked [of fm_tx_bytes] frame
    by (auto simp: t ledgered_def accounts_def conc_totals flow_booked_def quic_total_def algebra_simps)
  show "accounts (worth fm_rx_bytes p - raced fm_rx_bytes r p (cc_agent s))
      (conc_rx_accounted n s, conc_rx_drops n s) (conc_rx_accounted n t, conc_rx_drops n t)"
    using booked [of fm_rx_bytes]
    by (auto simp: t ledgered_def accounts_def conc_totals flow_booked_def algebra_simps)
qed

lemma conc_finish_packet_books:
  fixes r :: "quic_flow_key option"
  assumes ok: "pending_ok n s" and p: "cc_packets s i = Some p"
  defines "t \<equiv> conc_step n (Finish_packet i r) s"
  shows "accounts (pk_bytes p - raced_packet r p (cc_agent s))
      (conc_accounted n s, conc_drops n s) (conc_accounted n t, conc_drops n t)"
    and "conc_rx_accounted n t = conc_rx_accounted n s" "conc_rx_drops n t = conc_rx_drops n s"
proof -
  note facts = pending_okD(1) [OF ok] pending_okD(6-8) [OF ok p]
  note frame = finish_packet_frame [OF facts(2), of r "cc_agent s"]
  have t: "cc_agent t = finish_packet r p (cc_agent s)" "cc_flows t = cc_flows s"
    using p by (simp_all add: t_def)
  have same: "flow_total n g (cc_agent t) = flow_total n g (cc_agent s)" for g
    using frame(1) by (simp add: t flow_total_def)
  show "accounts (pk_bytes p - raced_packet r p (cc_agent s))
      (conc_accounted n s, conc_drops n s) (conc_accounted n t, conc_drops n t)"
    using finish_packet_booked [OF facts, of r] frame(2) same
    by (auto simp: t accounts_def conc_totals)
  show "conc_rx_accounted n t = conc_rx_accounted n s" "conc_rx_drops n t = conc_rx_drops n s"
    using frame(2) same by (simp_all add: t conc_totals)
qed

lemma conc_step_accounts:
  assumes ok: "pending_ok n s" and ev: "conc_possible n ev"
  shows "accounts (conc_credit ev s - conc_raced ev s) (conc_accounted n s, conc_drops n s)
      (conc_accounted n (conc_step n ev s), conc_drops n (conc_step n ev s))"
    and "accounts (conc_rx_credit ev s - conc_rx_raced ev s) (conc_rx_accounted n s, conc_rx_drops n s)
      (conc_rx_accounted n (conc_step n ev s), conc_rx_drops n (conc_step n ev s))"
proof -
  have none: "accounts 0 x x" for x by (cases x) (simp add: accounts_def)
  have idle: "cc_pending s i = None \<Longrightarrow> conc_step n (Finish i r) s = s"
    "cc_packets s i = None \<Longrightarrow> conc_step n (Finish_packet i q) s = s" for i r q by simp_all
  let ?tx = "accounts (conc_credit ev s - conc_raced ev s) (conc_accounted n s, conc_drops n s)
      (conc_accounted n (conc_step n ev s), conc_drops n (conc_step n ev s))"
  let ?rx = "accounts (conc_rx_credit ev s - conc_rx_raced ev s) (conc_rx_accounted n s, conc_rx_drops n s)
      (conc_rx_accounted n (conc_step n ev s), conc_rx_drops n (conc_step n ev s))"
  have "?tx \<and> ?rx"
  proof (cases ev)
    case (Whole sev)
    then show ?thesis
      using sys_step_accounts [of "(cc_agent s, cc_flows s)" n sev]
        sys_step_accounts_rx [of "(cc_agent s, cc_flows s)" n sev] pending_okD(1) [OF ok] ev
      by (simp add: Let_def split_beta conc_accounted_def conc_drops_def conc_rx_accounted_def conc_rx_drops_def)
  next
    case (Begin i e kev)
    then show ?thesis using conc_begin_totals [of ev] none by (simp del: conc_step.simps)
  next
    case (Finish i r)
    then show ?thesis
      using conc_finish_books [OF ok, of i _ r] none idle(1) [of i r]
      by (cases "cc_pending s i") (simp_all del: conc_step.simps(3))
  next
    case (Begin_packet i e pkt)
    then show ?thesis using conc_begin_totals [of ev] none by (simp del: conc_step.simps)
  next
    case (Finish_packet i r)
    then show ?thesis
      using conc_finish_packet_books [OF ok, of i _ r] none idle(2) [of i r]
      by (cases "cc_packets s i") (simp_all del: conc_step.simps(5))
  qed
  then show ?tx ?rx by blast+
qed

interpretation conc: ledger "conc_step n" "pending_ok n" "conc_possible n"
    "\<lambda>ev s. conc_credit ev s - conc_raced ev s" "conc_accounted n" "conc_drops n"
  by unfold_locales (use conc_step_ok conc_step_accounts in auto)

interpretation conc_rx: ledger "conc_step n" "pending_ok n" "conc_possible n"
    "\<lambda>ev s. conc_rx_credit ev s - conc_rx_raced ev s" "conc_rx_accounted n" "conc_rx_drops n"
  by unfold_locales (use conc_step_ok conc_step_accounts in auto)

lemma conc_initial_ok: "pending_ok n (conc_initial sizes cfg)"
  by (simp add: pending_ok_def conc_initial_def)

lemma run_log_diff:
  "sum_list (run_log (\<lambda>ev s. f ev s - g ev s) st evs s) = sum_list (run_log f st evs s) - sum_list (run_log g st evs s)"
  for f g :: "'e \<Rightarrow> 's \<Rightarrow> u64"
  by (induction evs arbitrary: s) (simp_all add: algebra_simps)

lemma books_with_races:
  fixes acc :: u64
  assumes "acc + l = c - r"
  shows "acc + l + r = c"
  using assms by (simp add: algebra_simps)

lemma conc_initial_totals:
  "conc_accounted n (conc_initial sizes cfg) = 0" "conc_drops n (conc_initial sizes cfg) = 0"
  "conc_rx_accounted n (conc_initial sizes cfg) = 0" "conc_rx_drops n (conc_initial sizes cfg) = 0"
  by (simp_all add: conc_totals conc_initial_def flow_total_def quic_total_def delivered_def drops_def cpu_total_def)

section \<open>Where a race comes from\<close>

text \<open>Without a drain between lookup and update no increment is raced away.\<close>

definition no_stale :: "concurrent \<Rightarrow> bool" where
  "no_stale s \<longleftrightarrow> (\<forall>i p. cc_pending s i = Some p \<longrightarrow> pn_ptr p \<noteq> Stale) \<and>
     (\<forall>i p. cc_packets s i = Some p \<longrightarrow> pk_ptr p \<noteq> Stale)"

definition quiet_drain :: "conc_event \<Rightarrow> concurrent \<Rightarrow> bool" where
  "quiet_drain ev s \<longleftrightarrow>
     (\<forall>key i p. ev = Whole (Poll_flow key) \<longrightarrow> cc_pending s i = Some p \<longrightarrow> pn_ptr p = Live \<longrightarrow> pn_key p \<noteq> key) \<and>
     (\<forall>key i p. ev = Whole (Poll_quic_flow key) \<longrightarrow> cc_packets s i = Some p \<longrightarrow> pk_ptr p = Live \<longrightarrow> pk_key p \<noteq> key)"

lemma drained_quiet:
  assumes "no_stale s" and "quiet_drain (Whole ev) s"
  shows "drained ev (cc_pending s) i = Some p \<Longrightarrow> pn_ptr p \<noteq> Stale"
    and "drained_packets ev (cc_packets s) i = Some q \<Longrightarrow> pk_ptr q \<noteq> Stale"
proof -
  assume p: "drained ev (cc_pending s) i = Some p"
  show "pn_ptr p \<noteq> Stale"
  proof (cases ev)
    case (Poll_flow key)
    then obtain q where "cc_pending s i = Some q" "p = stale_if key q" using p by auto
    then show ?thesis using assms Poll_flow unfolding no_stale_def quiet_drain_def stale_if_def by auto
  qed (use p assms(1) in \<open>auto simp: no_stale_def\<close>)
next
  assume q: "drained_packets ev (cc_packets s) i = Some q"
  show "pk_ptr q \<noteq> Stale"
  proof (cases ev)
    case (Poll_quic_flow key)
    then obtain p where "cc_packets s i = Some p" "q = stale_packet_if key p" using q by auto
    then show ?thesis using assms Poll_quic_flow unfolding no_stale_def quiet_drain_def stale_packet_if_def by auto
  qed (use q assms(1) in \<open>auto simp: no_stale_def\<close>)
qed

lemma counted_packet_fresh: "counted_packet e pkt a = Some p \<Longrightarrow> pk_ptr p \<noteq> Stale"
  by (auto simp: counted_packet_def split: option.splits if_splits quic_parse.split_asm)

lemma conc_step_no_stale:
  assumes "no_stale s" and "quiet_drain ev s"
  shows "no_stale (conc_step n ev s)"
proof (cases ev)
  case (Whole sev)
  note quiet = drained_quiet [OF assms(1) assms(2) [unfolded Whole]]
  have "no_stale (conc_step n ev s) \<longleftrightarrow>
      (\<forall>i p. drained sev (cc_pending s) i = Some p \<longrightarrow> pn_ptr p \<noteq> Stale) \<and>
      (\<forall>i p. drained_packets sev (cc_packets s) i = Some p \<longrightarrow> pk_ptr p \<noteq> Stale)"
    by (simp only: Whole conc_step.simps no_stale_def Let_def split_beta concurrent.simps)
  then show ?thesis using quiet by blast
next
  case (Begin i e kev)
  then show ?thesis
    using assms by (auto simp: no_stale_def Let_def lookup_half_def split: option.split)
next
  case (Begin_packet i e pkt)
  show ?thesis
  proof (cases "counted_packet e pkt (cc_agent s)")
    case (Some p)
    then show ?thesis
      using assms(1) counted_packet_fresh [OF Some] by (simp add: Begin_packet no_stale_def)
  qed (use assms(1) in \<open>simp add: Begin_packet\<close>)
qed (use assms in \<open>auto simp: no_stale_def split: option.split\<close>)

lemma no_stale_no_race: "no_stale s \<Longrightarrow> conc_raced ev s = 0 \<and> conc_rx_raced ev s = 0"
  by (cases ev) (simp_all add: no_stale_def raced_def raced_packet_def split: option.split)

lemma run_no_race:
  assumes "no_stale s" and "list_all (\<lambda>b. b) (run_log quiet_drain (conc_step n) evs s)"
  shows "sum_list (run_log conc_raced (conc_step n) evs s) = 0 \<and>
    sum_list (run_log conc_rx_raced (conc_step n) evs s) = 0"
  using assms
proof (induction evs arbitrary: s)
  case (Cons ev evs)
  then show ?case using no_stale_no_race [of s ev] conc_step_no_stale [of s ev n] by simp
qed simp

text \<open>A drain that comes between takes the entry, and the increment with it: no counter shows it.\<close>

lemma drain_between:
  fixes n :: nat
  assumes "inserts_flow ev \<or> bumps_flow ev" and "cc_pending s i = None"
    and "counted_call e ev (cc_agent s) = Some conn" and "has_flow (cc_agent s) (flow_key_of conn)"
  defines "t \<equiv> fold (conc_step n) [Begin i e ev, Whole (Poll_flow (flow_key_of conn)), Finish i None] s"
  shows "lookup_connection (cc_agent t) (bpf_get_socket_cookie e) = Some conn"
    and "cc_flows t = snd (poll_flow n (flow_key_of conn) (cc_agent s, cc_flows s))"
    and "flow_aggregates (cc_agent t) = flow_aggregates (fst (poll_flow n (flow_key_of conn) (cc_agent s, cc_flows s)))"
    and "drop_counters (cc_agent t) = drop_counters (cc_agent s)"
    and "quic_flows (cc_agent t) = quic_flows (cc_agent s)"
    and "cc_pending t i = None"
proof -
  obtain vals where vals: "lookup_flow (cc_agent s) (flow_key_of conn) = Some vals"
    using assms(4) by (auto simp: has_flow_def)
  have t: "t = s\<lparr>cc_agent := (write_connection (bpf_get_socket_cookie e) conn (cc_agent s))
      \<lparr>flow_aggregates := bpf_map_delete_elem (flow_key_of conn) (flow_aggregates (cc_agent s))\<rparr>,
      cc_flows := cc_flows s @ [sum_per_cpu (flow_key_of conn) (map vals [0..<n])],
      cc_pending := (map_option (stale_if (flow_key_of conn)) \<circ> cc_pending s)(i := None)\<rparr>"
    using vals assms(2,3)
    by (simp add: t_def Let_def poll_flow_def lookup_half_def stale_if_def finish_half_def ptr_target_def
        lookup_flow_def)
  show "lookup_connection (cc_agent t) (bpf_get_socket_cookie e) = Some conn"
    by (simp add: t lookup_connection_def write_connection_def)
  show "cc_flows t = snd (poll_flow n (flow_key_of conn) (cc_agent s, cc_flows s))"
    "flow_aggregates (cc_agent t) = flow_aggregates (fst (poll_flow n (flow_key_of conn) (cc_agent s, cc_flows s)))"
    "drop_counters (cc_agent t) = drop_counters (cc_agent s)"
    "quic_flows (cc_agent t) = quic_flows (cc_agent s)" "cc_pending t i = None"
    using vals by (simp_all add: t poll_flow_def write_connection_def)
qed

text \<open>In the ledgers: the three actions are worth the increment, and nothing of it is accounted for.\<close>

lemma drain_between_books:
  fixes n :: nat
  assumes "inserts_flow ev \<or> bumps_flow ev" and "cc_pending s i = None"
    and "counted_call e ev (cc_agent s) = Some conn" and "has_flow (cc_agent s) (flow_key_of conn)"
    and wf: "agent_wf (cc_agent s)"
  defines "run \<equiv> [Begin i e ev, Whole (Poll_flow (flow_key_of conn)), Finish i None]"
  defines "t \<equiv> fold (conc_step n) run s"
  shows "sum_list (run_log conc_credit (conc_step n) run s) = tx_amount ev conn"
    and "sum_list (run_log conc_rx_credit (conc_step n) run s) = rx_amount ev conn"
    and "conc_accounted n t = conc_accounted n s" and "conc_drops n t = conc_drops n s"
    and "conc_rx_accounted n t = conc_rx_accounted n s"
proof -
  note race = drain_between [OF assms(1-4), of n, folded run_def t_def]
  obtain vals where key: "lookup_flow (write_connection c conn (cc_agent s)) (flow_key_of conn) = Some vals" for c
    using assms(4) by (auto simp: has_flow_def lookup_flow_def)
  show "sum_list (run_log conc_credit (conc_step n) run s) = tx_amount ev conn"
    "sum_list (run_log conc_rx_credit (conc_step n) run s) = rx_amount ev conn"
    using assms(2,3) key
    by (simp_all add: run_def Let_def split_beta lookup_half_def stale_if_def worth_def flow_add_def zero_flow_metrics_def)
  have "conc_accounted n t = accounted_tx n (poll_flow n (flow_key_of conn) (cc_agent s, cc_flows s))"
    "conc_rx_accounted n t = accounted_rx n (poll_flow n (flow_key_of conn) (cc_agent s, cc_flows s))"
    using race(2,3,5) by (simp_all add: conc_totals flow_total_def quic_total_def)
  then show "conc_accounted n t = conc_accounted n s" "conc_rx_accounted n t = conc_rx_accounted n s"
    using poll_flow_accounts [of "(cc_agent s, cc_flows s)"] wf
    by (simp_all add: conc_accounted_def conc_rx_accounted_def)
  show "conc_drops n t = conc_drops n s"
    using race(4) by (simp add: conc_drops_def map_update_drops_def drops_def)
qed

text \<open>Without actions in between, any number of programs taken apart are the sequential system.\<close>

fun in_halves :: "nat \<Rightarrow> kenv \<times> kevent \<Rightarrow> conc_event list" where
  "in_halves i (e, Quic_egress pkt) = [Begin_packet i e pkt, Finish_packet i None]"
| "in_halves i (e, ev) = [Begin i e ev, Finish i None]"

fun counting :: "kevent \<Rightarrow> bool" where
  "counting (Quic_egress _) = True"
| "counting ev = (inserts_flow ev \<or> bumps_flow ev)"

definition apart :: "nat \<Rightarrow> (kenv \<times> kevent) list \<Rightarrow> conc_event list" where
  "apart i is = concat (map (in_halves i) is)"

lemma in_halves_step:
  assumes "counting ev" and "cc_pending s i = None" and "cc_packets s i = None"
  shows "fold (conc_step n) (in_halves i (e, ev)) s = s\<lparr>cc_agent := step (e, ev) (cc_agent s)\<rparr>"
proof -
  have whole: "conc_step n (Whole (Kernel e ev)) s = s\<lparr>cc_agent := step (e, ev) (cc_agent s)\<rparr>"
    by (cases s) (simp del: step_simps)
  have "fold (conc_step n) (in_halves i (e, ev)) s = conc_step n (Whole (Kernel e ev)) s"
  proof (cases "\<exists>pkt. ev = Quic_egress pkt")
    case True
    then show ?thesis using begin_finish_is_packet [OF assms(3)] by (auto simp del: conc_step.simps)
  next
    case False
    then have "in_halves i (e, ev) = [Begin i e ev, Finish i None]" "inserts_flow ev \<or> bumps_flow ev"
      using assms(1) by (cases ev; simp)+
    then show ?thesis using begin_finish_is_step [OF _ assms(2)] by (simp del: conc_step.simps)
  qed
  then show ?thesis by (simp only: whole)
qed

lemma apart_is_sequential:
  assumes "\<forall>(e, ev) \<in> set is. counting ev" and "cc_pending s i = None" and "cc_packets s i = None"
  shows "fold (conc_step n) (apart i is) s =
    (let (a, fl) = fold (sys_step n) (map (\<lambda>(e, ev). Kernel e ev) is) (cc_agent s, cc_flows s)
     in s\<lparr>cc_agent := a, cc_flows := fl\<rparr>)"
  using assms
proof (induction "is" arbitrary: s)
  case (Cons j js)
  obtain e ev where j: "j = (e, ev)" by fastforce
  let ?s = "s\<lparr>cc_agent := step (e, ev) (cc_agent s)\<rparr>"
  have "fold (conc_step n) (in_halves i j) s = ?s"
    using in_halves_step [of ev s i n e] Cons.prems by (simp add: j del: conc_step.simps step_simps)
  then have "fold (conc_step n) (apart i (j # js)) s = fold (conc_step n) (apart i js) ?s"
    by (simp add: apart_def del: conc_step.simps step_simps)
  then show ?case using Cons.IH [of ?s] Cons.prems by (simp add: j del: step_simps)
qed (simp add: apart_def)

text \<open>Two CPUs that miss the same new flow: the second insert is refused and counted.\<close>

lemma insert_race:
  assumes "pn_ptr p = Null" "pn_ptr q = Null" "pn_key q = pn_key p" "pn_new p = Some v" "pn_new q = Some w"
    and "map_grant (pn_env p) M_flow_aggregates" "\<not> has_flow a (pn_key p)"
    and "card (dom (entries (flow_aggregates a))) < max_entries (flow_aggregates a)"
    and "smp_processor_id (pn_env q) < n"
  shows "drops n DROP_SLOT_FLOW_AGGREGATES (finish_half r' q (finish_half r p a)) = drops n DROP_SLOT_FLOW_AGGREGATES a + 1 \<and>
    flow_aggregates (finish_half r' q (finish_half r p a)) = flow_aggregates (finish_half r p a) \<and>
    has_flow (finish_half r p a) (pn_key p)"
proof -
  let ?b = "finish_half r p a"
  have none: "entries (flow_aggregates a) (pn_key p) = None"
    using assms(7) by (simp add: has_flow_def lookup_flow_def bpf_map_lookup_elem_def)
  then have has: "has_flow ?b (pn_key p)" and same: "drop_counters ?b = drop_counters a"
    using assms(1,4,6,8)
    by (simp_all add: finish_half_def Let_def insert_flow_def hash_update_def check_flags_def has_flow_def
        lookup_flow_def)
  then obtain v where "entries (flow_aggregates ?b) (pn_key q) = Some v"
    by (auto simp: assms(3) has_flow_def lookup_flow_def bpf_map_lookup_elem_def)
  then have "finish_half r' q ?b = count_drop (pn_env q) (slot_index DROP_SLOT_FLOW_AGGREGATES) ?b"
    using assms(2,5) by (simp add: finish_half_def [of r' q] Let_def insert_flow_def hash_update_def check_flags_def)
  then show ?thesis
    using has drops_cong [OF same, of n DROP_SLOT_FLOW_AGGREGATES]
      drops_count_drop [OF assms(9), of DROP_SLOT_FLOW_AGGREGATES DROP_SLOT_FLOW_AGGREGATES ?b]
    by simp
qed

end
