(* ===== verification/Drop_Reader.thy ===== *)
theory Drop_Reader
  imports Run_Ledger
begin

text \<open>
  \<open>pkg/ebpf/drops.go\<close>: userspace reads the four slots of the drop counters in their order, sums
  each over the CPUs, and gives up with an error at the first slot that it cannot look up.
\<close>

record drop_totals =
  dt_events_ringbuf :: u64
  dt_flow_aggregates :: u64
  dt_dns_ringbuf :: u64
  dt_quic_flows :: u64

definition zero_drop_totals :: drop_totals where
  "zero_drop_totals = \<lparr>dt_events_ringbuf = 0, dt_flow_aggregates = 0, dt_dns_ringbuf = 0, dt_quic_flows = 0\<rparr>"

definition ringbuf_drops :: "drop_totals \<Rightarrow> u64" where
  "ringbuf_drops d = dt_events_ringbuf d + dt_dns_ringbuf d"

definition map_full_drops :: "drop_totals \<Rightarrow> u64" where
  "map_full_drops d = dt_flow_aggregates d + dt_quic_flows d"

text \<open>The slots, with the field that each is read into.\<close>

definition drop_slots :: "(u32 \<times> (u64 \<Rightarrow> drop_totals \<Rightarrow> drop_totals)) list" where
  "drop_slots = [(0, \<lambda>v d. d\<lparr>dt_events_ringbuf := v\<rparr>), (1, \<lambda>v d. d\<lparr>dt_flow_aggregates := v\<rparr>),
     (2, \<lambda>v d. d\<lparr>dt_dns_ringbuf := v\<rparr>), (3, \<lambda>v d. d\<lparr>dt_quic_flows := v\<rparr>)]"

text \<open>The result is the slot that failed, or the totals; \<open>lookup\<close> is the kernel's answer.\<close>

fun read_slots ::
  "(u32 \<Rightarrow> u64 list option) \<Rightarrow> (u32 \<times> (u64 \<Rightarrow> drop_totals \<Rightarrow> drop_totals)) list \<Rightarrow> drop_totals \<Rightarrow> u32 + drop_totals" where
  "read_slots lookup [] dc = Inr dc"
| "read_slots lookup ((slot, dst) # slots) dc =
     (case lookup slot of
        None \<Rightarrow> Inl slot
      | Some per_cpu \<Rightarrow> read_slots lookup slots (dst (fold (\<lambda>v sum. sum + v) per_cpu 0) dc))"

definition read_drop_counters :: "(u32 \<Rightarrow> u64 list option) \<Rightarrow> u32 + drop_totals" where
  "read_drop_counters lookup = read_slots lookup drop_slots zero_drop_totals"

text \<open>The lookup in the per-CPU array of the object, which has \<open>DROP_SLOT_MAX\<close> entries.\<close>

definition lookup_drops :: "nat \<Rightarrow> agent \<Rightarrow> u32 \<Rightarrow> u64 list option" where
  "lookup_drops n a slot = (if slot < DROP_SLOT_MAX then Some (map (drop_counters a slot) [0..<n]) else None)"

lemma fold_sum: "fold (\<lambda>v sum. sum + v) vs s = s + sum_list vs" for s :: u64
  by (induction vs arbitrary: s) (simp_all add: algebra_simps)

lemma drops_fold: "fold (\<lambda>v sum. sum + v) (map (drop_counters a (slot_index sl)) [0..<n]) 0 = drops n sl a"
  by (simp add: fold_sum drops_def cpu_total_def sum_list_sum_nth atLeast0LessThan)

lemma slot_ids:
  "slot_index DROP_SLOT_EVENTS_RINGBUF = 0" "slot_index DROP_SLOT_FLOW_AGGREGATES = 1"
  "slot_index DROP_SLOT_DNS_RINGBUF = 2" "slot_index DROP_SLOT_QUIC_FLOWS = 3"
  by simp_all

text \<open>On the object's map the read succeeds, and each total is the sum of its own slot.\<close>

lemma read_object_drops:
  "read_drop_counters (lookup_drops n a) = Inr
     \<lparr>dt_events_ringbuf = drops n DROP_SLOT_EVENTS_RINGBUF a, dt_flow_aggregates = drops n DROP_SLOT_FLOW_AGGREGATES a,
      dt_dns_ringbuf = drops n DROP_SLOT_DNS_RINGBUF a, dt_quic_flows = drops n DROP_SLOT_QUIC_FLOWS a\<rparr>"
  using drops_fold [of a DROP_SLOT_EVENTS_RINGBUF n] drops_fold [of a DROP_SLOT_FLOW_AGGREGATES n]
    drops_fold [of a DROP_SLOT_DNS_RINGBUF n] drops_fold [of a DROP_SLOT_QUIC_FLOWS n]
  by (simp add: read_drop_counters_def drop_slots_def lookup_drops_def DROP_SLOT_MAX_def zero_drop_totals_def)

text \<open>The refused updates of the ledgers are the value that the exporter shows.\<close>

lemma map_update_drops_read:
  "read_drop_counters (lookup_drops n (fst s)) = Inr d \<Longrightarrow> map_full_drops d = map_update_drops n s"
  by (auto simp: read_object_drops map_full_drops_def map_update_drops_def)

text \<open>
  A failed lookup delivers nothing, and the error names the first slot that failed: the slots
  before it could be read.
\<close>

lemma read_slots_error:
  assumes "read_slots lookup slots dc = Inl slot"
  obtains pre dst post where "slots = pre @ (slot, dst) # post" "lookup slot = None"
    "\<forall>s \<in> set pre. lookup (fst s) \<noteq> None"
  using assms
proof (induction slots arbitrary: dc thesis)
  case (Cons s slots)
  obtain i dst where s: "s = (i, dst)" by fastforce
  show ?case
  proof (cases "lookup i")
    case None
    then show ?thesis using Cons.prems(1) [of "[]" dst slots] Cons.prems(2) by (simp add: s)
  next
    case (Some vs)
    then have "read_slots lookup slots (dst (fold (\<lambda>v sum. sum + v) vs 0) dc) = Inl slot"
      using Cons.prems(2) by (simp add: s)
    then obtain pre d post where "slots = pre @ (slot, d) # post" "lookup slot = None"
      "\<forall>s \<in> set pre. lookup (fst s) \<noteq> None"
      by (rule Cons.IH [rotated])
    then show ?thesis using Cons.prems(1) [of "s # pre" d post] Some by (simp add: s)
  qed
qed simp

lemma read_drops_total:
  "(\<exists>d. read_drop_counters lookup = Inr d) \<longleftrightarrow> (\<forall>sl. lookup (slot_index sl) \<noteq> None)"
proof -
  have "(\<forall>sl. P (slot_index sl)) \<longleftrightarrow> P 0 \<and> P 1 \<and> P 2 \<and> P 3" for P
  proof -
    have "P 0 \<and> P 1 \<and> P 2 \<and> P 3 \<longrightarrow> P (slot_index sl)" for sl by (cases sl) simp_all
    then show ?thesis using slot_ids by metis
  qed
  from this [of "\<lambda>i. lookup i \<noteq> None"] show ?thesis
    by (auto simp: read_drop_counters_def drop_slots_def split: option.split)
qed

end
