(* ===== verification/Poll_Drain.thy ===== *)
theory Poll_Drain
  imports Update_Races Drop_Reader
begin

text \<open>
  A tick of the poller in full: the batch loop of \<open>pollBatch\<close>, which takes many entries per
  system call and goes on until the kernel says there are no more, with the programs running
  between the calls; the per-key drain of \<open>pollIterate\<close> with its two ways of reading; and the
  final flush of \<open>Stop\<close>. What the batch call of the kernel returns is an argument, \<open>ask\<close>.
\<close>

section \<open>One batch\<close>

datatype batch_err = Batch_ok | Key_not_exist | Batch_failed

record batch_reply =
  br_keys :: "flow_key list"
  br_cursor :: nat
  br_err :: batch_err

type_synonym batch_call = "nat \<Rightarrow> nat \<Rightarrow> agent \<Rightarrow> batch_reply"

text \<open>The call removes the entries and fills one flat buffer with their values, CPU by CPU.\<close>

definition entry_values :: "nat \<Rightarrow> agent \<Rightarrow> flow_key \<Rightarrow> flow_metrics list" where
  "entry_values n a key = (case lookup_flow a key of None \<Rightarrow> [] | Some vals \<Rightarrow> map vals [0..<n])"

definition batch_values :: "nat \<Rightarrow> flow_key list \<Rightarrow> agent \<Rightarrow> flow_metrics list" where
  "batch_values n keys a = concat (map (entry_values n a) keys)"

definition batch_delete :: "flow_key list \<Rightarrow> agent \<Rightarrow> agent" where
  "batch_delete keys a = a\<lparr>flow_aggregates := fold bpf_map_delete_elem keys (flow_aggregates a)\<rparr>"

text \<open>Entry \<open>i\<close> of the batch is the slice from \<open>i * numCPU\<close> to \<open>(i + 1) * numCPU\<close> of the buffer.\<close>

definition batch_snapshots :: "nat \<Rightarrow> flow_key list \<Rightarrow> flow_metrics list \<Rightarrow> flow_snapshot list" where
  "batch_snapshots n keys values =
     map (\<lambda>i. sum_per_cpu (keys ! i) (take n (drop (i * n) values))) [0..<length keys]"

definition take_batch :: "nat \<Rightarrow> flow_key list \<Rightarrow> system \<Rightarrow> system" where
  "take_batch n keys s =
     (batch_delete keys (fst s), snd s @ batch_snapshots n keys (batch_values n keys (fst s)))"

lemma batch_snapshots_slices:
  assumes "\<forall>k \<in> set keys. has_flow a k"
  shows "batch_snapshots n keys (batch_values n keys a) =
    map (\<lambda>k. sum_per_cpu k (entry_values n a k)) keys"
  using assms
proof (induction keys)
  case (Cons k keys)
  then have len: "length (entry_values n a k) = n" by (auto simp: entry_values_def has_flow_def)
  have "[0..<length (k # keys)] = 0 # map Suc [0..<length keys]" by (simp add: map_Suc_upt upt_conv_Cons del: upt_Suc)
  then have "batch_snapshots n (k # keys) (batch_values n (k # keys) a) =
      sum_per_cpu k (entry_values n a k) # batch_snapshots n keys (batch_values n keys a)"
    using len by (simp add: batch_snapshots_def batch_values_def o_def)
  with Cons show ?case by simp
qed (simp add: batch_snapshots_def)

lemma fold_poll_flow:
  assumes "distinct keys" and "\<forall>k \<in> set keys. has_flow a k"
  shows "fold (poll_flow n) keys (a, fl) =
    (batch_delete keys a, fl @ map (\<lambda>k. sum_per_cpu k (entry_values n a k)) keys)"
  using assms
proof (induction keys arbitrary: a fl)
  case (Cons k keys)
  let ?b = "a\<lparr>flow_aggregates := bpf_map_delete_elem k (flow_aggregates a)\<rparr>"
  from Cons.prems(2) obtain vals where vals: "lookup_flow a k = Some vals" by (auto simp: has_flow_def)
  have other: "lookup_flow ?b j = lookup_flow a j" if "j \<in> set keys" for j
    using that Cons.prems(1) by (auto simp: lookup_flow_def)
  have "\<forall>j \<in> set keys. has_flow ?b j" using Cons.prems(2) other by (simp add: has_flow_def)
  moreover have "map (\<lambda>j. sum_per_cpu j (entry_values n ?b j)) keys = map (\<lambda>j. sum_per_cpu j (entry_values n a j)) keys"
    using other by (simp add: entry_values_def)
  ultimately show ?case
    using Cons.IH [of ?b "fl @ [sum_per_cpu k (map vals [0..<n])]"] Cons.prems(1) vals
    by (simp add: poll_flow_def batch_delete_def entry_values_def)
qed (simp add: batch_delete_def)

text \<open>A batch is the atomic drain of its keys, one after the other.\<close>

lemma take_batch_poll:
  assumes "distinct keys" and "\<forall>k \<in> set keys. has_flow (fst s) k"
  shows "take_batch n keys s = fold (poll_flow n) keys s"
  using fold_poll_flow [OF assms, of n "snd s"] batch_snapshots_slices [OF assms(2), of n]
  by (simp add: take_batch_def)

lemma fold_sys_poll: "fold (sys_step n) (map Poll_flow keys) s = fold (poll_flow n) keys s"
  by (induction keys arbitrary: s) auto

section \<open>The loop\<close>

text \<open>\<open>busy i\<close> is what happens in the system between the calls \<open>i - 1\<close> and \<open>i\<close>.\<close>

partial_function (option) poll_batch ::
  "nat \<Rightarrow> batch_call \<Rightarrow> (nat \<Rightarrow> sys_event list) \<Rightarrow> nat \<Rightarrow> nat \<Rightarrow> system \<Rightarrow> system option" where
  "poll_batch n ask busy i cursor s =
     (let s1 = fold (sys_step n) (busy i) s;
          r = ask i cursor (fst s1);
          s2 = take_batch n (br_keys r) s1
      in if br_err r = Key_not_exist \<or> br_keys r = [] then Some s2
         else if br_err r \<noteq> Batch_ok then Some s2
         else poll_batch n ask busy (Suc i) (br_cursor r) s2)"

text \<open>
  What the kernel documents of the call. The cursor is a position among the buckets of the map:
  a call returns entries, each once, and when it succeeds it returns at least one and moves the
  cursor forward, past every bucket it has emptied; \<open>ErrKeyNotExist\<close> comes with the last ones.
\<close>

definition batch_contract :: "(flow_key \<Rightarrow> nat) \<Rightarrow> nat \<Rightarrow> batch_call \<Rightarrow> bool" where
  "batch_contract bucket buckets ask \<longleftrightarrow> (\<forall>i c a. agent_wf a \<longrightarrow> (let r = ask i c a in
     distinct (br_keys r) \<and> (\<forall>k \<in> set (br_keys r). has_flow a k) \<and>
     (br_err r = Batch_ok \<longrightarrow> br_keys r \<noteq> [] \<and> c < br_cursor r \<and> br_cursor r \<le> buckets) \<and>
     (\<forall>k. has_flow a k \<longrightarrow> c \<le> bucket k \<longrightarrow> br_err r = Key_not_exist \<or> br_err r = Batch_ok \<and> bucket k < br_cursor r
        \<longrightarrow> k \<in> set (br_keys r))))"

text \<open>The events of a tick: in each round what happened before the call, then its drains.\<close>

fun rounds :: "(nat \<Rightarrow> sys_event list) \<Rightarrow> nat \<Rightarrow> flow_key list list \<Rightarrow> sys_event list" where
  "rounds busy i [] = []"
| "rounds busy i (ks # kss) = busy i @ map Poll_flow ks @ rounds busy (Suc i) kss"

lemma contractD:
  assumes "batch_contract bucket buckets ask" and "agent_wf a"
  shows "distinct (br_keys (ask i c a))" "\<forall>k \<in> set (br_keys (ask i c a)). has_flow a k"
    and "br_err (ask i c a) = Batch_ok \<Longrightarrow> br_keys (ask i c a) \<noteq> []"
    and "br_err (ask i c a) = Batch_ok \<Longrightarrow> c < br_cursor (ask i c a)"
    and "br_err (ask i c a) = Batch_ok \<Longrightarrow> br_cursor (ask i c a) \<le> buckets"
    and "br_err (ask i c a) \<noteq> Batch_failed \<Longrightarrow> has_flow a k \<Longrightarrow> c \<le> bucket k \<Longrightarrow>
      br_err (ask i c a) = Key_not_exist \<or> bucket k < br_cursor (ask i c a) \<Longrightarrow> k \<in> set (br_keys (ask i c a))"
  using assms(1) [unfolded batch_contract_def Let_def, rule_format, OF assms(2), of i c]
  by (cases "br_err (ask i c a)"; simp)+

text \<open>
  The loop ends after at most one call per bucket and one more, and is a run of atomic drains.
  When no call fails, it drains every flow that was there when it began.
\<close>

lemma busy_grows:
  assumes "has_flow (fst s) k" and "Poll_flow k \<notin> set evs"
  shows "has_flow (fst (fold (sys_step n) evs s)) k"
  using assms
proof (induction evs arbitrary: s)
  case (Cons ev evs)
  then have "has_flow (fst (sys_step n ev s)) k" by (intro sys_step_grows) auto
  from Cons.IH [OF this] Cons.prems(2) show ?case by simp
qed simp

lemma poll_batch_returns:
  assumes "batch_contract bucket buckets ask" and "agent_wf (fst s)"
  shows "\<exists>kss. length kss \<le> Suc (buckets - c) \<and>
    poll_batch n ask busy i c s = Some (fold (sys_step n) (rounds busy i kss) s) \<and>
    ((\<forall>i c a. br_err (ask i c a) \<noteq> Batch_failed) \<longrightarrow>
       (\<forall>k. has_flow (fst s) k \<longrightarrow> c \<le> bucket k \<longrightarrow> (\<forall>j. Poll_flow k \<notin> set (busy j)) \<longrightarrow> k \<in> set (concat kss)))"
  using assms(2)
proof (induction "buckets - c" arbitrary: i c s rule: less_induct)
  case less
  define s1 where "s1 = fold (sys_step n) (busy i) s"
  define r where "r = ask i c (fst s1)"
  define s2 where "s2 = take_batch n (br_keys r) s1"
  have wf: "agent_wf (fst s1)" unfolding s1_def using less.prems system.run_keeps by simp
  note call = contractD [OF assms(1) wf, of i c]
  have s2: "s2 = fold (sys_step n) (rounds busy i [br_keys r]) s"
    using call(1,2) by (simp add: s2_def r_def take_batch_poll fold_sys_poll s1_def)
  have kept: "has_flow (fst s1) k" if "has_flow (fst s) k" "\<forall>j. Poll_flow k \<notin> set (busy j)" for k
    using that busy_grows by (simp add: s1_def)
  show ?case
  proof (cases "br_err r = Batch_ok \<and> br_keys r \<noteq> []")
    case False
    then have "poll_batch n ask busy i c s = Some s2"
      by (subst poll_batch.simps) (auto simp: Let_def s1_def [symmetric] r_def [symmetric] s2_def [symmetric])
    moreover have "k \<in> set (br_keys r)" if "br_err r \<noteq> Batch_failed" "has_flow (fst s1) k" "c \<le> bucket k" for k
      using False that call(3,6) by (cases "br_err r") (auto simp: r_def)
    ultimately show ?thesis using s2 kept by (intro exI [of _ "[br_keys r]"]) (auto simp: r_def)
  next
    case True
    then have fewer: "buckets - br_cursor r < buckets - c"
      using call(4,5) by (simp add: r_def)
    have "agent_wf (fst s2)" unfolding s2 using less.prems system.run_keeps by simp
    from less.hyps [OF fewer this, of "Suc i"] obtain kss where
      kss: "length kss \<le> Suc (buckets - br_cursor r)"
        "poll_batch n ask busy (Suc i) (br_cursor r) s2 = Some (fold (sys_step n) (rounds busy (Suc i) kss) s2)"
        "(\<forall>i c a. br_err (ask i c a) \<noteq> Batch_failed) \<longrightarrow> (\<forall>k. has_flow (fst s2) k \<longrightarrow> br_cursor r \<le> bucket k \<longrightarrow>
          (\<forall>j. Poll_flow k \<notin> set (busy j)) \<longrightarrow> k \<in> set (concat kss))"
      by blast
    have "poll_batch n ask busy i c s = poll_batch n ask busy (Suc i) (br_cursor r) s2"
      using True by (subst poll_batch.simps)
        (simp add: Let_def s1_def [symmetric] r_def [symmetric] s2_def [symmetric])
    moreover have reach: "k \<in> set (br_keys r) \<or> has_flow (fst s2) k \<and> br_cursor r \<le> bucket k"
      if "has_flow (fst s1) k" "c \<le> bucket k" for k
    proof (cases "k \<in> set (br_keys r)")
      case False
      have "Poll_flow k \<notin> set (map Poll_flow (br_keys r))" using False by auto
      then have "has_flow (fst s2) k"
        using busy_grows [OF that(1)] call(1,2)
        by (simp add: s2_def r_def take_batch_poll fold_sys_poll [symmetric])
      moreover have "br_cursor r \<le> bucket k"
        using False True that call(6) [of k]
        by (cases "bucket k < br_cursor r") (auto simp: r_def)
      ultimately show ?thesis by simp
    qed simp
    moreover have "k \<in> set (concat (br_keys r # kss))"
      if "\<forall>i c a. br_err (ask i c a) \<noteq> Batch_failed" "has_flow (fst s) k" "c \<le> bucket k"
        "\<forall>j. Poll_flow k \<notin> set (busy j)" for k
      using kss(3) reach [of k] kept [of k] that by (cases "k \<in> set (br_keys r)") simp_all
    ultimately show ?thesis
      using kss(1,2) s2 fewer by (intro exI [of _ "br_keys r # kss"]) simp
  qed
qed

section \<open>The per-key drain\<close>

text \<open>
  Without \<open>LookupAndDelete\<close> in the kernel the key is read and then deleted; \<open>busy\<close> is what happens
  in between.
\<close>

definition read_flow :: "nat \<Rightarrow> flow_key \<Rightarrow> system \<Rightarrow> system" where
  "read_flow n key s = (fst s, snd s @ (case lookup_flow (fst s) key of
     None \<Rightarrow> [] | Some vals \<Rightarrow> [sum_per_cpu key (map vals [0..<n])]))"

definition delete_flow :: "flow_key \<Rightarrow> system \<Rightarrow> system" where
  "delete_flow key s =
     ((fst s)\<lparr>flow_aggregates := bpf_map_delete_elem key (flow_aggregates (fst s))\<rparr>, snd s)"

definition poll_key :: "nat \<Rightarrow> bool \<Rightarrow> sys_event list \<Rightarrow> flow_key \<Rightarrow> system \<Rightarrow> system" where
  "poll_key n lookup_and_delete busy key s =
     (if lookup_and_delete then poll_flow n key s
      else delete_flow key (fold (sys_step n) busy (read_flow n key s)))"

definition flow_tx :: "nat \<Rightarrow> flow_key \<Rightarrow> agent \<Rightarrow> u64" where
  "flow_tx n key a = (case lookup_flow a key of None \<Rightarrow> 0 | Some vals \<Rightarrow> cpu_total n fm_tx_bytes vals)"

text \<open>What the poller has delivered plays no part in what happens next.\<close>

lemma sys_step_delivered:
  "fst (sys_step n ev (a, fl)) = fst (sys_step n ev (a, []))"
  "delivered f (snd (sys_step n ev (a, fl))) = delivered f fl + delivered f (snd (sys_step n ev (a, [])))"
  by (cases ev; simp add: poll_flow_def poll_quic_flow_def delivered_def split: option.split)+

lemma run_delivered:
  "fst (fold (sys_step n) evs (a, fl)) = fst (fold (sys_step n) evs (a, [])) \<and>
    delivered f (snd (fold (sys_step n) evs (a, fl))) = delivered f fl + delivered f (snd (fold (sys_step n) evs (a, [])))"
proof (induction evs arbitrary: a fl)
  case (Cons ev evs)
  obtain b xs where x: "sys_step n ev (a, fl) = (b, xs)" by fastforce
  obtain c ys where y: "sys_step n ev (a, []) = (c, ys)" by fastforce
  have "c = b" "delivered f xs = delivered f fl + delivered f ys"
    using sys_step_delivered(1) [of n ev a fl] sys_step_delivered(2) [of f n ev a fl] by (simp_all add: x y)
  then show ?case using Cons [of b xs] Cons [of b ys] by (simp add: x y add.assoc)
qed (simp add: delivered_def)

lemma delete_flow_accounts:
  assumes "agent_wf (fst s)"
  shows "accounted_tx n (delete_flow key s) + flow_tx n key (fst s) = accounted_tx n s"
proof (cases "lookup_flow (fst s) key")
  case None
  then have "(entries (flow_aggregates (fst s)))(key := None) = entries (flow_aggregates (fst s))"
    by (simp add: lookup_flow_def bpf_map_lookup_elem_def fun_upd_idem)
  then show ?thesis
    using None by (simp add: accounted_tx_def delete_flow_def flow_tx_def flow_total_def quic_total_def
        bpf_map_delete_elem_def)
next
  case (Some vals)
  then show ?thesis
    using assms map_total_delete [of "entries (flow_aggregates (fst s))" key vals "cpu_total n fm_tx_bytes"]
    by (simp add: accounted_tx_def delete_flow_def flow_tx_def flow_total_def quic_total_def
        bpf_map_delete_elem_def lookup_flow_def bpf_map_lookup_elem_def agent_wf_def bmap_wf_def)
qed

lemma delivered_append: "delivered f (xs @ ys) = delivered f xs + delivered f ys"
  by (simp add: delivered_def)

lemma read_flow_delivered:
  "delivered fs_tx_bytes (snd (read_flow n key s)) = delivered fs_tx_bytes (snd s) + flow_tx n key (fst s)"
  using sum_per_cpu_total [OF summed_into_fields(1)]
  by (simp add: read_flow_def flow_tx_def delivered_def split: option.split)

text \<open>Reading and then deleting loses what the entry has gained in between, and no counter moves.\<close>

lemma read_then_delete:
  fixes n :: nat and busy :: "sys_event list"
  assumes "agent_wf (fst s)"
  defines "t \<equiv> fold (sys_step n) busy s"
  shows "accounted_tx n (poll_key n False busy key s) + (flow_tx n key (fst t) - flow_tx n key (fst s)) =
      accounted_tx n t"
    and "map_update_drops n (poll_key n False busy key s) = map_update_drops n t"
proof -
  obtain a fl where s: "s = (a, fl)" by fastforce
  let ?r = "fold (sys_step n) busy (read_flow n key s)"
  obtain ys where r: "read_flow n key (a, fl) = (a, ys)" by (simp add: read_flow_def)
  have fst: "fst ?r = fst t"
    using run_delivered [of n busy a ys] run_delivered [of n busy a fl] unfolding r t_def s by simp
  have "delivered fs_tx_bytes (snd ?r) = delivered fs_tx_bytes (snd t) + flow_tx n key a"
    using run_delivered [of n busy a ys fs_tx_bytes] run_delivered [of n busy a fl fs_tx_bytes]
      read_flow_delivered [of n key s] unfolding r t_def s by simp
  then have "accounted_tx n ?r = accounted_tx n t + flow_tx n key a"
    by (simp add: accounted_tx_def fst)
  moreover have "agent_wf (fst t)" unfolding t_def using assms(1) system.run_keeps by simp
  ultimately show "accounted_tx n (poll_key n False busy key s) + (flow_tx n key (fst t) - flow_tx n key (fst s)) =
      accounted_tx n t"
    using delete_flow_accounts [of ?r n key] fst by (simp add: poll_key_def s algebra_simps)
  show "map_update_drops n (poll_key n False busy key s) = map_update_drops n t"
    by (simp add: poll_key_def map_update_drops_def delete_flow_def drops_def fst)
qed

section \<open>The final flush\<close>

text \<open>
  \<open>Stop\<close> polls once more after the loop has ended: the flow map first, by batches or key by key,
  then the QUIC map.
\<close>

definition poll_quic :: "nat \<Rightarrow> quic_flow_key list \<Rightarrow> system \<Rightarrow> system" where
  "poll_quic n keys s = fold (poll_quic_flow n) keys s"

definition poll_tick :: "nat \<Rightarrow> batch_call option \<Rightarrow> flow_key list \<Rightarrow> quic_flow_key list \<Rightarrow> system \<Rightarrow> system option" where
  "poll_tick n batch keys quic_keys s =
     map_option (poll_quic n quic_keys)
       (case batch of
          Some ask \<Rightarrow> poll_batch n ask (\<lambda>_. []) 0 0 s
        | None \<Rightarrow> Some (fold (poll_key n True []) keys s))"

lemma quiet_rounds: "fold (sys_step n) (rounds (\<lambda>_. []) i kss) s = poll_iterate n (concat kss) s"
  by (induction kss arbitrary: i s) (simp_all add: poll_iterate_def fold_sys_poll)

lemma fold_poll_key: "fold (poll_key n True []) keys s = poll_iterate n keys s"
proof -
  have "poll_key n True [] = poll_flow n" by (simp add: poll_key_def fun_eq_iff)
  then show ?thesis by (simp add: poll_iterate_def)
qed

lemma poll_quic_lookup:
  "lookup_quic (fst (poll_quic n keys s)) k = (if k \<in> set keys then None else lookup_quic (fst s) k)"
proof (induction keys arbitrary: s)
  case (Cons key keys)
  obtain a fl where s: "s = (a, fl)" by fastforce
  have "lookup_quic (fst (poll_quic_flow n key s)) k = (if k = key then None else lookup_quic a k)"
    by (auto simp: s poll_quic_flow_def lookup_quic_def split: option.split)
  then show ?case using Cons [of "poll_quic_flow n key s"] by (auto simp: poll_quic_def s)
qed (simp add: poll_quic_def)

lemma poll_quic_frame [simp]: "flow_aggregates (fst (poll_quic n keys s)) = flow_aggregates (fst s)"
proof (induction keys arbitrary: s)
  case (Cons key keys)
  have "flow_aggregates (fst (poll_quic_flow n key s)) = flow_aggregates (fst s)"
    by (cases s) (simp add: poll_quic_flow_def split: option.split)
  then show ?case using Cons [of "poll_quic_flow n key s"] by (simp add: poll_quic_def)
qed (simp add: poll_quic_def)

lemma fold_sys_poll_quic: "fold (sys_step n) (map Poll_quic_flow keys) s = poll_quic n keys s"
  by (induction keys arbitrary: s) (auto simp: poll_quic_def)

text \<open>Polls move bytes, they account for what was accounted for.\<close>

lemma polls_account:
  assumes "agent_wf (fst s)" and "\<forall>ev \<in> set evs. \<exists>k q. ev = Poll_flow k \<or> ev = Poll_quic_flow q"
  shows "accounted_tx n (fold (sys_step n) evs s) = accounted_tx n s \<and>
    map_update_drops n (fold (sys_step n) evs s) = map_update_drops n s"
  using assms
proof (induction evs arbitrary: s)
  case (Cons ev evs)
  have "accounted_tx n (sys_step n ev s) = accounted_tx n s \<and> map_update_drops n (sys_step n ev s) = map_update_drops n s"
    using Cons.prems poll_flow_accounts(1) [OF Cons.prems(1)] poll_quic_accounts [OF Cons.prems(1)]
    by (cases ev) (auto simp: map_update_drops_def)
  moreover have "agent_wf (fst (sys_step n ev s))" by (rule sys_step_wf [OF Cons.prems(1)])
  ultimately show ?case using Cons.IH [of "sys_step n ev s"] Cons.prems(2) by simp
qed simp

text \<open>What the poll reaches: every flow, by the contract of the call or by the listed keys.\<close>

definition poll_complete :: "batch_call option \<Rightarrow> flow_key list \<Rightarrow> quic_flow_key list \<Rightarrow> agent \<Rightarrow> bool" where
  "poll_complete batch keys quic_keys a \<longleftrightarrow>
     (case batch of
        Some ask \<Rightarrow> (\<exists>bucket buckets. batch_contract bucket buckets ask) \<and> (\<forall>i c a. br_err (ask i c a) \<noteq> Batch_failed)
      | None \<Rightarrow> dom (entries (flow_aggregates a)) \<subseteq> set keys) \<and>
     dom (entries (quic_flows a)) \<subseteq> set quic_keys"

lemma poll_tick_empties:
  assumes "poll_complete batch keys quic_keys (fst s)" and "agent_wf (fst s)"
  obtains evs where "poll_tick n batch keys quic_keys s = Some (fold (sys_step n) evs s)"
    "\<forall>ev \<in> set evs. \<exists>k q. ev = Poll_flow k \<or> ev = Poll_quic_flow q"
    "entries (flow_aggregates (fst (fold (sys_step n) evs s))) = Map.empty"
    "entries (quic_flows (fst (fold (sys_step n) evs s))) = Map.empty"
proof -
  obtain ks where ks: "(case batch of Some ask \<Rightarrow> poll_batch n ask (\<lambda>_. []) 0 0 s
        | None \<Rightarrow> Some (fold (poll_key n True []) keys s)) = Some (poll_iterate n ks s)"
    "\<forall>k. has_flow (fst s) k \<longrightarrow> k \<in> set ks"
  proof (cases batch)
    case None
    then show ?thesis
      using that [of keys] assms
      by (auto simp: fold_poll_key poll_complete_def has_flow_def lookup_flow_def bpf_map_lookup_elem_def)
  next
    case (Some ask)
    with assms obtain bucket buckets where "batch_contract bucket buckets ask"
      "\<forall>i c a. br_err (ask i c a) \<noteq> Batch_failed" by (auto simp: poll_complete_def)
    with poll_batch_returns [of bucket buckets ask s 0 n "\<lambda>_. []" 0] assms(2) Some show ?thesis
      using that by (auto simp: quiet_rounds)
  qed
  let ?evs = "map Poll_flow ks @ map Poll_quic_flow quic_keys"
  have run: "fold (sys_step n) ?evs s = poll_quic n quic_keys (poll_iterate n ks s)"
    by (simp add: fold_sys_poll fold_sys_poll_quic poll_iterate_def)
  have frame: "quic_flows (fst (poll_iterate n ks s)) = quic_flows (fst s)"
  proof (induction ks arbitrary: s)
    case (Cons k ks)
    have "quic_flows (fst (poll_flow n k s)) = quic_flows (fst s)"
      by (cases s) (simp add: poll_flow_def split: option.split)
    then show ?case using Cons [of "poll_flow n k s"] by (simp add: poll_iterate_def)
  qed (simp add: poll_iterate_def)
  show thesis
  proof (rule that [of ?evs])
    show "poll_tick n batch keys quic_keys s = Some (fold (sys_step n) ?evs s)"
      using ks(1) by (simp add: poll_tick_def run del: fold_append)
    have "lookup_flow (fst (poll_iterate n ks s)) k = None" for k
      using ks(2) poll_iterate_lookup [of n ks s k] by (auto simp: has_flow_def)
    then show "entries (flow_aggregates (fst (fold (sys_step n) ?evs s))) = Map.empty"
      unfolding run by (auto simp: lookup_flow_def bpf_map_lookup_elem_def)
    have "lookup_quic (fst (fold (sys_step n) ?evs s)) q = None" for q
      using assms frame unfolding run poll_quic_lookup
      by (auto simp: poll_complete_def lookup_quic_def bpf_map_lookup_elem_def)
    then show "entries (quic_flows (fst (fold (sys_step n) ?evs s))) = Map.empty"
      by (auto simp: lookup_quic_def bpf_map_lookup_elem_def)
  qed auto
qed

end
