(* ===== verification/Layout.thy ===== *)
theory Layout
  imports Agent_State
begin

text \<open>
  The byte layout of the structs that the programs and userspace share. \<open>maps.h\<close> asks that
  the Go structs of \<open>pkg/ebpf/maps.go\<close> agree with the C structs byte for byte: both are laid
  out here by the natural-alignment rule that C and Go use on the 64-bit targets. The second
  half is the ring buffer's traffic: the bytes of the three event structs at their C offsets,
  and \<open>readEvents\<close> of \<open>pkg/ebpf/loader.go\<close>, which casts them back.
\<close>

section \<open>Natural alignment\<close>

datatype ctype = U8 | U16 | U32 | U64 | Bytes nat

fun csize :: "ctype \<Rightarrow> nat" where
  "csize U8 = 1" | "csize U16 = 2" | "csize U32 = 4" | "csize U64 = 8" | "csize (Bytes n) = n"

fun calign :: "ctype \<Rightarrow> nat" where
  "calign U8 = 1" | "calign U16 = 2" | "calign U32 = 4" | "calign U64 = 8" | "calign (Bytes n) = 1"

type_synonym struct_decl = "(string \<times> ctype) list"

definition align_up :: "nat \<Rightarrow> nat \<Rightarrow> nat" where
  "align_up off a = (off + (a - 1)) div a * a"

text \<open>Offset and size of every field, from an offset on; the end; and the size of the whole.\<close>

fun place_types :: "nat \<Rightarrow> ctype list \<Rightarrow> (nat \<times> nat) list" where
  "place_types off [] = []"
| "place_types off (t # ts) =
     (align_up off (calign t), csize t) # place_types (align_up off (calign t) + csize t) ts"

fun types_end :: "nat \<Rightarrow> ctype list \<Rightarrow> nat" where
  "types_end off [] = off"
| "types_end off (t # ts) = types_end (align_up off (calign t) + csize t) ts"

definition field_types :: "struct_decl \<Rightarrow> ctype list" where
  "field_types fs = map snd fs"

definition place :: "struct_decl \<Rightarrow> (nat \<times> nat) list" where
  "place fs = place_types 0 (field_types fs)"

definition types_align :: "ctype list \<Rightarrow> nat" where
  "types_align ts = foldr (\<lambda>t a. max (calign t) a) ts 1"

definition struct_size :: "struct_decl \<Rightarrow> nat" where
  "struct_size fs = align_up (types_end 0 (field_types fs)) (types_align (field_types fs))"

section \<open>The declarations\<close>

definition c_agent_config :: struct_decl where
  "c_agent_config =
    [(''enabled'', U8), (''track_udp'', U8), (''sample_rate'', U8), (''udp_socket_tx'', U8),
     (''reserved'', Bytes 4), (''aggregation_ns'', U64)]"

definition go_agent_config :: struct_decl where
  "go_agent_config =
    [(''Enabled'', U8), (''TrackUDP'', U8), (''SampleRate'', U8), (''UDPSocketTX'', U8),
     (''Reserved'', Bytes 4), (''AggregationNs'', U64)]"

definition c_original_dst :: struct_decl where
  "c_original_dst =
    [(''ip'', U32), (''port'', U16), (''family'', U8), (''pad'', U8), (''pid'', U32),
     (''cgroupid'', U64), (''comm'', Bytes 16), (''ip6'', Bytes 16)]"

definition go_original_dst :: struct_decl where
  "go_original_dst =
    [(''IP'', U32), (''Port'', U16), (''Family'', U8), (''Pad'', U8), (''PID'', U32),
     (''CgroupID'', U64), (''Comm'', Bytes 16), (''IP6'', Bytes 16)]"

definition c_conn_info :: struct_decl where
  "c_conn_info =
    [(''src_ip'', U32), (''dst_ip'', U32), (''original_dst_ip'', U32), (''src_port'', U16),
     (''dst_port'', U16), (''original_dst_port'', U16), (''family'', U8),
     (''protocol'', U8), (''pid'', U32), (''cgroupid'', U64), (''start_ns'', U64),
     (''tx_bytes'', U64), (''rx_bytes'', U64), (''retransmit_bytes'', U64),
     (''retransmit_count'', U32), (''direction'', U8), (''state'', U8), (''pad'', Bytes 2),
     (''src_ip6'', Bytes 16), (''dst_ip6'', Bytes 16), (''original_dst_ip6'', Bytes 16)]"

definition go_conn_info :: struct_decl where
  "go_conn_info =
    [(''SrcIP'', U32), (''DstIP'', U32), (''OriginalDstIP'', U32), (''SrcPort'', U16),
     (''DstPort'', U16), (''OriginalDstPort'', U16), (''Family'', U8), (''Protocol'', U8),
     (''PID'', U32), (''CgroupID'', U64), (''StartNs'', U64), (''TxBytes'', U64),
     (''RxBytes'', U64), (''RetransmitBytes'', U64), (''RetransmitCount'', U32),
     (''Direction'', U8), (''State'', U8), (''Pad'', Bytes 2), (''SrcIP6'', Bytes 16),
     (''DstIP6'', Bytes 16), (''OriginalDstIP6'', Bytes 16)]"

definition c_flow_key :: struct_decl where
  "c_flow_key =
    [(''src_ip'', U32), (''dst_ip'', U32), (''src_port'', U16), (''dst_port'', U16),
     (''pid'', U32), (''protocol'', U8), (''direction'', U8), (''pad'', U16)]"

definition go_flow_key :: struct_decl where
  "go_flow_key =
    [(''SrcIP'', U32), (''DstIP'', U32), (''SrcPort'', U16), (''DstPort'', U16),
     (''PID'', U32), (''Protocol'', U8), (''Direction'', U8), (''Pad'', U16)]"

definition c_flow_metrics :: struct_decl where
  "c_flow_metrics =
    [(''tx_bytes'', U64), (''rx_bytes'', U64), (''conn_count'', U64),
     (''last_updated_ns'', U64), (''retransmit_bytes'', U64), (''retransmit_count'', U64)]"

definition go_flow_metrics :: struct_decl where
  "go_flow_metrics =
    [(''TxBytes'', U64), (''RxBytes'', U64), (''ConnCount'', U64), (''LastUpdatedNs'', U64),
     (''RetransmitBytes'', U64), (''RetransmitCount'', U64)]"

definition c_quic_flow_key :: struct_decl where
  "c_quic_flow_key =
    [(''src_ip'', U32), (''dst_ip'', U32), (''src_port'', U16), (''dst_port'', U16)]"

definition go_quic_flow_key :: struct_decl where
  "go_quic_flow_key =
    [(''SrcIP'', U32), (''DstIP'', U32), (''SrcPort'', U16), (''DstPort'', U16)]"

definition c_quic_flow_metrics :: struct_decl where
  "c_quic_flow_metrics =
    [(''tx_bytes'', U64), (''rx_bytes'', U64), (''pkt_count'', U64),
     (''last_seen_ns'', U64), (''quic_version'', U32), (''is_long_header'', U8),
     (''pad'', Bytes 3)]"

definition go_quic_flow_metrics :: struct_decl where
  "go_quic_flow_metrics =
    [(''TxBytes'', U64), (''RxBytes'', U64), (''PktCount'', U64), (''LastSeenNs'', U64),
     (''QuicVersion'', U32), (''IsLongHeader'', U8), (''Pad'', Bytes 3)]"

definition c_sidecar_info :: struct_decl where
  "c_sidecar_info =
    [(''is_sidecar_internal'', U8), (''pad'', Bytes 3), (''app_pid'', U32),
     (''app_cgroupid'', U64)]"

definition go_sidecar_info :: struct_decl where
  "go_sidecar_info =
    [(''IsSidecarInternal'', U8), (''Pad'', Bytes 3), (''AppPID'', U32),
     (''AppCgroupID'', U64)]"

definition c_connect_event :: struct_decl where
  "c_connect_event =
    [(''type'', U8), (''protocol'', U8), (''pad'', U16), (''pid'', U32), (''cookie'', U64),
     (''cgroupid'', U64), (''original_dst_ip'', U32), (''original_dst_port'', U16),
     (''pad2'', U16), (''timestamp_ns'', U64), (''comm'', Bytes 16)]"

definition go_connect_event :: struct_decl where
  "go_connect_event =
    [(''Type'', U8), (''Protocol'', U8), (''Pad'', U16), (''PID'', U32), (''Cookie'', U64),
     (''CgroupID'', U64), (''OriginalDstIP'', U32), (''OriginalDstPort'', U16),
     (''Pad2'', U16), (''TimestampNs'', U64), (''Comm'', Bytes 16)]"

definition c_establish_event :: struct_decl where
  "c_establish_event =
    [(''type'', U8), (''direction'', U8), (''protocol'', U8), (''pad'', U8), (''pid'', U32),
     (''cookie'', U64), (''cgroupid'', U64), (''src_ip'', U32), (''dst_ip'', U32),
     (''src_port'', U16), (''dst_port'', U16), (''original_dst_ip'', U32),
     (''original_dst_port'', U16), (''pad2'', U16), (''timestamp_ns'', U64),
     (''comm'', Bytes 16)]"

definition go_establish_event :: struct_decl where
  "go_establish_event =
    [(''Type'', U8), (''Direction'', U8), (''Protocol'', U8), (''Pad'', U8), (''PID'', U32),
     (''Cookie'', U64), (''CgroupID'', U64), (''SrcIP'', U32), (''DstIP'', U32),
     (''SrcPort'', U16), (''DstPort'', U16), (''OriginalDstIP'', U32),
     (''OriginalDstPort'', U16), (''Pad2'', U16), (''TimestampNs'', U64),
     (''Comm'', Bytes 16)]"

definition c_close_event :: struct_decl where
  "c_close_event =
    [(''type'', U8), (''direction'', U8), (''protocol'', U8), (''pad'', U8), (''pid'', U32),
     (''cookie'', U64), (''src_ip'', U32), (''dst_ip'', U32), (''src_port'', U16),
     (''dst_port'', U16), (''original_dst_ip'', U32), (''original_dst_port'', U16),
     (''pad2'', U16), (''tx_bytes'', U64), (''rx_bytes'', U64), (''retransmit_bytes'', U64),
     (''retransmit_count'', U32), (''pad3'', U32), (''duration_ns'', U64),
     (''timestamp_ns'', U64)]"

definition go_close_event :: struct_decl where
  "go_close_event =
    [(''Type'', U8), (''Direction'', U8), (''Protocol'', U8), (''Pad'', U8), (''PID'', U32),
     (''Cookie'', U64), (''SrcIP'', U32), (''DstIP'', U32), (''SrcPort'', U16),
     (''DstPort'', U16), (''OriginalDstIP'', U32), (''OriginalDstPort'', U16),
     (''Pad2'', U16), (''TxBytes'', U64), (''RxBytes'', U64), (''RetransmitBytes'', U64),
     (''RetransmitCount'', U32), (''Pad3'', U32), (''DurationNs'', U64),
     (''TimestampNs'', U64)]"

text \<open>C and Go agree: every field at the same place, and the same size of the whole.\<close>

definition layouts_agree :: "struct_decl \<Rightarrow> struct_decl \<Rightarrow> bool" where
  "layouts_agree c go \<longleftrightarrow> place c = place go \<and> struct_size c = struct_size go"

text \<open>No byte of the struct lies outside its fields.\<close>

definition no_padding :: "struct_decl \<Rightarrow> bool" where
  "no_padding c \<longleftrightarrow> sum_list (map snd (place c)) = struct_size c"

lemmas layout_simps = layouts_agree_def no_padding_def place_def struct_size_def types_align_def align_up_def

text \<open>The two declarations of a struct have the same types in the same order; its size follows.\<close>

lemma same_types: "field_types c = field_types go \<Longrightarrow> layouts_agree c go"
  by (simp add: layouts_agree_def place_def struct_size_def)

lemmas c_structs =
    c_agent_config_def c_original_dst_def c_conn_info_def c_flow_key_def c_flow_metrics_def
    c_quic_flow_key_def c_quic_flow_metrics_def c_sidecar_info_def c_connect_event_def
    c_establish_event_def c_close_event_def

lemmas go_structs =
    go_agent_config_def go_original_dst_def go_conn_info_def go_flow_key_def go_flow_metrics_def
    go_quic_flow_key_def go_quic_flow_metrics_def go_sidecar_info_def go_connect_event_def
    go_establish_event_def go_close_event_def

lemma shared_field_types:
  "field_types go_agent_config = field_types c_agent_config"
  "field_types go_original_dst = field_types c_original_dst"
  "field_types go_conn_info = field_types c_conn_info"
  "field_types go_flow_key = field_types c_flow_key"
  "field_types go_flow_metrics = field_types c_flow_metrics"
  "field_types go_quic_flow_key = field_types c_quic_flow_key"
  "field_types go_quic_flow_metrics = field_types c_quic_flow_metrics"
  "field_types go_sidecar_info = field_types c_sidecar_info"
  "field_types go_connect_event = field_types c_connect_event"
  "field_types go_establish_event = field_types c_establish_event"
  "field_types go_close_event = field_types c_close_event"
  by (simp_all add: field_types_def c_structs go_structs)

lemma shared_layouts:
  "layouts_agree c_agent_config go_agent_config"
  "layouts_agree c_original_dst go_original_dst"
  "layouts_agree c_conn_info go_conn_info"
  "layouts_agree c_flow_key go_flow_key"
  "layouts_agree c_flow_metrics go_flow_metrics"
  "layouts_agree c_quic_flow_key go_quic_flow_key"
  "layouts_agree c_quic_flow_metrics go_quic_flow_metrics"
  "layouts_agree c_sidecar_info go_sidecar_info"
  "layouts_agree c_connect_event go_connect_event"
  "layouts_agree c_establish_event go_establish_event"
  "layouts_agree c_close_event go_close_event"
  by (simp_all add: same_types shared_field_types)

lemma shared_sizes:
  "struct_size c_agent_config = 16"
  "struct_size c_original_dst = 56"
  "struct_size c_conn_info = 120"
  "struct_size c_flow_key = 20"
  "struct_size c_flow_metrics = 48"
  "struct_size c_quic_flow_key = 12"
  "struct_size c_quic_flow_metrics = 40"
  "struct_size c_sidecar_info = 16"
  "struct_size c_connect_event = 56"
  "struct_size c_establish_event = 72"
  "struct_size c_close_event = 88"
  by (simp_all add: layout_simps field_types_def c_structs)

text \<open>The keys of the per-CPU hash maps have no padding: all the bytes that are hashed are written.\<close>

lemma keys_no_padding: "no_padding c_flow_key \<and> no_padding c_quic_flow_key"
  by (simp add: layout_simps field_types_def c_structs)

section \<open>Events as bytes\<close>

text \<open>Little-endian images, and the loads of the userspace cast.\<close>

definition le_bytes64 :: "u64 \<Rightarrow> u8 list" where
  "le_bytes64 w = le_bytes32 (ucast w) @ le_bytes32 (ucast (drop_bit 32 w))"

definition at8 :: "u8 list \<Rightarrow> nat \<Rightarrow> u8" where "at8 bs i = bs ! i"

definition at16 :: "u8 list \<Rightarrow> nat \<Rightarrow> u16" where "at16 bs i = le_word16 (bs ! i) (bs ! (i + 1))"

definition at32 :: "u8 list \<Rightarrow> nat \<Rightarrow> u32" where
  "at32 bs i = le_word32 (bs ! i) (bs ! (i + 1)) (bs ! (i + 2)) (bs ! (i + 3))"

definition at64 :: "u8 list \<Rightarrow> nat \<Rightarrow> u64" where
  "at64 bs i = ucast (at32 bs i) OR push_bit 32 (ucast (at32 bs (i + 4)))"

definition bytes_at :: "u8 list \<Rightarrow> nat \<Rightarrow> nat \<Rightarrow> u8 list" where
  "bytes_at bs i n = take n (drop i bs)"

text \<open>
  The memory of an event: its fields at their C offsets. \<open>hole\<close> is the padding that the
  compiler adds before a 64-bit field; no statement of the programs writes it.
\<close>

definition connect_bytes :: "connect_event \<Rightarrow> u8 list" where
  "connect_bytes c = [cn_type c, cn_protocol c] @ le_bytes16 (cn_pad c) @ le_bytes32 (cn_pid c) @
     le_bytes64 (cn_cookie c) @ le_bytes64 (cn_cgroupid c) @ le_bytes32 (cn_original_dst_ip c) @
     le_bytes16 (cn_original_dst_port c) @ le_bytes16 (cn_pad2 c) @ le_bytes64 (cn_timestamp_ns c) @
     cn_comm c"

definition establish_bytes :: "u8 list \<Rightarrow> establish_event \<Rightarrow> u8 list" where
  "establish_bytes hole s = [es_type s, es_direction s, es_protocol s, es_pad s] @ le_bytes32 (es_pid s) @
     le_bytes64 (es_cookie s) @ le_bytes64 (es_cgroupid s) @ le_bytes32 (es_src_ip s) @
     le_bytes32 (es_dst_ip s) @ le_bytes16 (es_src_port s) @ le_bytes16 (es_dst_port s) @
     le_bytes32 (es_original_dst_ip s) @ le_bytes16 (es_original_dst_port s) @ le_bytes16 (es_pad2 s) @
     hole @ le_bytes64 (es_timestamp_ns s) @ es_comm s"

definition close_bytes :: "u8 list \<Rightarrow> close_event \<Rightarrow> u8 list" where
  "close_bytes hole c = [cl_type c, cl_direction c, cl_protocol c, cl_pad c] @ le_bytes32 (cl_pid c) @
     le_bytes64 (cl_cookie c) @ le_bytes32 (cl_src_ip c) @ le_bytes32 (cl_dst_ip c) @
     le_bytes16 (cl_src_port c) @ le_bytes16 (cl_dst_port c) @ le_bytes32 (cl_original_dst_ip c) @
     le_bytes16 (cl_original_dst_port c) @ le_bytes16 (cl_pad2 c) @ hole @ le_bytes64 (cl_tx_bytes c) @
     le_bytes64 (cl_rx_bytes c) @ le_bytes64 (cl_retransmit_bytes c) @
     le_bytes32 (cl_retransmit_count c) @ le_bytes32 (cl_pad3 c) @ le_bytes64 (cl_duration_ns c) @
     le_bytes64 (cl_timestamp_ns c)"

fun event_bytes :: "u8 list \<Rightarrow> event \<Rightarrow> u8 list" where
  "event_bytes hole (Connect c) = connect_bytes c"
| "event_bytes hole (Establish s) = establish_bytes hole s"
| "event_bytes hole (Close c) = close_bytes hole c"

text \<open>The casts of \<open>readEvents\<close>: every field at its offset in the Go struct.\<close>

definition cast_connect :: "u8 list \<Rightarrow> connect_event" where
  "cast_connect raw = \<lparr>cn_type = at8 raw 0, cn_protocol = at8 raw 1, cn_pad = at16 raw 2,
     cn_pid = at32 raw 4, cn_cookie = at64 raw 8, cn_cgroupid = at64 raw 16,
     cn_original_dst_ip = at32 raw 24, cn_original_dst_port = at16 raw 28, cn_pad2 = at16 raw 30,
     cn_timestamp_ns = at64 raw 32, cn_comm = bytes_at raw 40 16\<rparr>"

definition cast_establish :: "u8 list \<Rightarrow> establish_event" where
  "cast_establish raw = \<lparr>es_type = at8 raw 0, es_direction = at8 raw 1, es_protocol = at8 raw 2,
     es_pad = at8 raw 3, es_pid = at32 raw 4, es_cookie = at64 raw 8, es_cgroupid = at64 raw 16,
     es_src_ip = at32 raw 24, es_dst_ip = at32 raw 28, es_src_port = at16 raw 32,
     es_dst_port = at16 raw 34, es_original_dst_ip = at32 raw 36, es_original_dst_port = at16 raw 40,
     es_pad2 = at16 raw 42, es_timestamp_ns = at64 raw 48, es_comm = bytes_at raw 56 16\<rparr>"

definition cast_close :: "u8 list \<Rightarrow> close_event" where
  "cast_close raw = \<lparr>cl_type = at8 raw 0, cl_direction = at8 raw 1, cl_protocol = at8 raw 2,
     cl_pad = at8 raw 3, cl_pid = at32 raw 4, cl_cookie = at64 raw 8, cl_src_ip = at32 raw 16,
     cl_dst_ip = at32 raw 20, cl_src_port = at16 raw 24, cl_dst_port = at16 raw 26,
     cl_original_dst_ip = at32 raw 28, cl_original_dst_port = at16 raw 32, cl_pad2 = at16 raw 34,
     cl_tx_bytes = at64 raw 40, cl_rx_bytes = at64 raw 48, cl_retransmit_bytes = at64 raw 56,
     cl_retransmit_count = at32 raw 64, cl_pad3 = at32 raw 68, cl_duration_ns = at64 raw 72,
     cl_timestamp_ns = at64 raw 80\<rparr>"

text \<open>The offsets of the casts are those of the Go structs.\<close>

lemma cast_offsets:
  "map fst (place go_connect_event) = [0, 1, 2, 4, 8, 16, 24, 28, 30, 32, 40] \<and>
   map fst (place go_establish_event) = [0, 1, 2, 3, 4, 8, 16, 24, 28, 32, 34, 36, 40, 42, 48, 56] \<and>
   map fst (place go_close_event) =
     [0, 1, 2, 3, 4, 8, 16, 20, 24, 26, 28, 32, 34, 40, 48, 56, 64, 68, 72, 80]"
  by (simp add: place_def field_types_def align_up_def go_connect_event_def go_establish_event_def
      go_close_event_def)

definition read_event :: "u8 list \<Rightarrow> event option" where
  "read_event raw =
     (if length raw < 1 then None
      else if raw ! 0 = EVENT_CONNECT then
        (if length raw < 56 then None else Some (Connect (cast_connect raw)))
      else if raw ! 0 = EVENT_ESTABLISH then
        (if length raw < 72 then None else Some (Establish (cast_establish raw)))
      else if raw ! 0 = EVENT_CLOSE then
        (if length raw < 88 then None else Some (Close (cast_close raw)))
      else None)"

section \<open>What the programs submit is what userspace reads\<close>

lemma length_le_bytes64 [simp]: "length (le_bytes64 w) = 8"
  by (simp add: le_bytes64_def)

lemma word64_halves: "(ucast (ucast w :: u32) :: u64) OR push_bit 32 (ucast (ucast (drop_bit 32 w) :: u32)) = w"
  by (rule word64_half_eqI) (auto simp: bit_simps dest: bit_imp_le_length)

text \<open>
  Over the explicit bytes of an event every load of the cast finds the bytes of its field.
\<close>

lemmas explicit_bytes = le_bytes16_def le_bytes32_def le_bytes64_def append.simps

lemmas loads = at8_def at16_def at32_def at64_def bytes_at_def

lemma cast_connect_bytes:
  assumes "length (cn_comm c) = 16"
  shows "cast_connect (connect_bytes c) = c"
  using assms
  by (simp add: cast_connect_def connect_bytes_def explicit_bytes loads le_word16_bytes le_word32_bytes
      word64_halves)

lemma cast_establish_bytes:
  assumes "length (es_comm c) = 16" and "length hole = 4"
  shows "cast_establish (establish_bytes hole c) = c"
proof -
  obtain h0 h1 h2 h3 where "hole = [h0, h1, h2, h3]"
    using assms(2) by (auto simp: length_Suc_conv numeral_eq_Suc)
  then show ?thesis
    using assms(1)
    by (simp add: cast_establish_def establish_bytes_def explicit_bytes loads le_word16_bytes
        le_word32_bytes word64_halves)
qed

lemma cast_close_bytes:
  assumes "length hole = 4"
  shows "cast_close (close_bytes hole c) = c"
proof -
  obtain h0 h1 h2 h3 where "hole = [h0, h1, h2, h3]"
    using assms by (auto simp: length_Suc_conv numeral_eq_Suc)
  then show ?thesis
    by (simp add: cast_close_def close_bytes_def explicit_bytes loads le_word16_bytes
        le_word32_bytes word64_halves)
qed

lemma length_event_bytes:
  assumes "length hole = 4"
  shows "length (cn_comm c) = 16 \<Longrightarrow> length (connect_bytes c) = 56"
    and "length (es_comm s) = 16 \<Longrightarrow> length (establish_bytes hole s) = 72"
    and "length (close_bytes hole d) = 88"
  using assms by (simp_all add: connect_bytes_def establish_bytes_def close_bytes_def)

text \<open>The types of the events and the lengths of their arrays, as the programs write them.\<close>

fun typed_event :: "event \<Rightarrow> bool" where
  "typed_event (Connect c) \<longleftrightarrow> cn_type c = EVENT_CONNECT \<and> length (cn_comm c) = 16"
| "typed_event (Establish s) \<longleftrightarrow> es_type s = EVENT_ESTABLISH \<and> length (es_comm s) = 16"
| "typed_event (Close c) \<longleftrightarrow> cl_type c = EVENT_CLOSE"

lemma read_event_bytes:
  assumes "typed_event ev" and "length hole = 4"
  shows "read_event (event_bytes hole ev) = Some ev"
proof (cases ev)
  case (Connect c)
  moreover have "connect_bytes c ! 0 = cn_type c" by (simp add: connect_bytes_def)
  ultimately show ?thesis
    using assms length_event_bytes(1) [OF assms(2), of c] cast_connect_bytes [of c]
    by (simp add: read_event_def)
next
  case (Establish s)
  moreover have "establish_bytes hole s ! 0 = es_type s" by (simp add: establish_bytes_def)
  ultimately show ?thesis
    using assms length_event_bytes(2) [OF assms(2), of s] cast_establish_bytes [of s hole]
    by (simp add: read_event_def EVENT_CONNECT_def EVENT_ESTABLISH_def)
next
  case (Close c)
  moreover have "close_bytes hole c ! 0 = cl_type c" by (simp add: close_bytes_def)
  ultimately show ?thesis
    using assms length_event_bytes(3) [OF assms(2), of c] cast_close_bytes [OF assms(2), of c]
    by (simp add: read_event_def EVENT_CONNECT_def EVENT_ESTABLISH_def EVENT_CLOSE_def)
qed

section \<open>Flow keys as bytes\<close>

text \<open>
  What the kernel hashes and compares: the bytes of a key. Userspace iterates over the same
  bytes and reads them as its own key struct.
\<close>

definition flow_key_bytes :: "flow_key \<Rightarrow> u8 list" where
  "flow_key_bytes k = le_bytes32 (fk_src_ip k) @ le_bytes32 (fk_dst_ip k) @ le_bytes16 (fk_src_port k) @
     le_bytes16 (fk_dst_port k) @ le_bytes32 (fk_pid k) @ [fk_protocol k, fk_direction k] @
     le_bytes16 (fk_pad k)"

definition cast_flow_key :: "u8 list \<Rightarrow> flow_key" where
  "cast_flow_key raw = \<lparr>fk_src_ip = at32 raw 0, fk_dst_ip = at32 raw 4, fk_src_port = at16 raw 8,
     fk_dst_port = at16 raw 10, fk_pid = at32 raw 12, fk_protocol = at8 raw 16,
     fk_direction = at8 raw 17, fk_pad = at16 raw 18\<rparr>"

definition quic_key_bytes :: "quic_flow_key \<Rightarrow> u8 list" where
  "quic_key_bytes k = le_bytes32 (qk_src_ip k) @ le_bytes32 (qk_dst_ip k) @ le_bytes16 (qk_src_port k) @
     le_bytes16 (qk_dst_port k)"

definition cast_quic_key :: "u8 list \<Rightarrow> quic_flow_key" where
  "cast_quic_key raw = \<lparr>qk_src_ip = at32 raw 0, qk_dst_ip = at32 raw 4, qk_src_port = at16 raw 8,
     qk_dst_port = at16 raw 10\<rparr>"

lemma key_bytes_back:
  "cast_flow_key (flow_key_bytes k) = k" "cast_quic_key (quic_key_bytes q) = q"
  by (simp_all add: cast_flow_key_def flow_key_bytes_def cast_quic_key_def quic_key_bytes_def
      explicit_bytes loads le_word16_bytes le_word32_bytes)

lemma key_bytes_length:
  "length (flow_key_bytes k) = struct_size c_flow_key" "length (quic_key_bytes q) = struct_size c_quic_flow_key"
  by (simp_all add: flow_key_bytes_def quic_key_bytes_def shared_sizes)

text \<open>So two keys are one entry of the map exactly when their fields agree.\<close>

lemma key_bytes_inj:
  "flow_key_bytes k = flow_key_bytes k' \<longleftrightarrow> k = k'" "quic_key_bytes q = quic_key_bytes q' \<longleftrightarrow> q = q'"
  by (metis key_bytes_back(1), metis key_bytes_back(2))

end
