(* ===== verification/Agent_Types.thy ===== *)
theory Agent_Types
  imports Agent_Runs Layout
begin

text \<open>
  The types of the agent's state. HOL lists carry no length, C arrays do: in every state that
  the system reaches, every array of every entry of every map, and of every record in the
  events ring, has the length of its declaration in \<open>maps.h\<close>, and the maps have the sizes
  they were created with. One rule per operation, as in a type system; each program is then
  typed by the operations it is made of.
\<close>

section \<open>Typed values\<close>

definition typed_config :: "agent_config \<Rightarrow> bool" where
  "typed_config cfg \<longleftrightarrow> length (ac_reserved cfg) = 4"

definition typed_dst :: "original_dst \<Rightarrow> bool" where
  "typed_dst od \<longleftrightarrow> length (od_comm od) = 16 \<and> length (od_ip6 od) = 16"

definition typed_conn :: "conn_info \<Rightarrow> bool" where
  "typed_conn ci \<longleftrightarrow> length (ci_pad ci) = 2 \<and> length (ci_src_ip6 ci) = 16 \<and>
     length (ci_dst_ip6 ci) = 16 \<and> length (ci_original_dst_ip6 ci) = 16"

definition typed_quic :: "quic_flow_metrics \<Rightarrow> bool" where
  "typed_quic m \<longleftrightarrow> length (qm_pad m) = 3"

definition typed_sidecar :: "sidecar_info \<Rightarrow> bool" where
  "typed_sidecar si \<longleftrightarrow> length (si_pad si) = 3"

text \<open>What the kernel gives: a command name of 16 bytes, and memory of the types asked for.\<close>

definition typed_env :: "kenv \<Rightarrow> bool" where
  "typed_env e \<longleftrightarrow> length (bpf_get_current_comm e) = 16 \<and> length (cn_comm (ring_connect e)) = 16 \<and>
     length (es_comm (ring_establish e)) = 16 \<and> (\<forall>c. typed_quic (other_cpus_quic e c))"

definition agent_typed :: "agent \<Rightarrow> bool" where
  "agent_typed a \<longleftrightarrow>
     (\<forall>i cfg. agent_config_map a i = Some cfg \<longrightarrow> typed_config cfg) \<and>
     (\<forall>k od. lookup_original_dst a k = Some od \<longrightarrow> typed_dst od) \<and>
     (\<forall>k ci. lookup_connection a k = Some ci \<longrightarrow> typed_conn ci) \<and>
     (\<forall>k vals. lookup_quic a k = Some vals \<longrightarrow> (\<forall>c. typed_quic (vals c))) \<and>
     (\<forall>k si. sidecar_storage a k = Some si \<longrightarrow> typed_sidecar si) \<and>
     (\<forall>ev \<in> set (events a). typed_event ev)"

definition map_sizes_of :: "agent \<Rightarrow> nat \<times> nat \<times> nat \<times> nat" where
  "map_sizes_of a = (max_entries (cookie_to_original_dst a), max_entries (connections a),
     max_entries (flow_aggregates a), max_entries (quic_flows a))"

section \<open>One rule per operation\<close>

lemma typed_lookups:
  assumes "agent_typed a"
  shows "lookup_original_dst a k = Some od \<Longrightarrow> typed_dst od"
    and "lookup_connection a k = Some ci \<Longrightarrow> typed_conn ci"
    and "lookup_quic a q = Some vals \<Longrightarrow> typed_quic (vals c)"
  using assms by (auto simp: agent_typed_def)

lemma store_ip6_length: "length buf = 16 \<Longrightarrow> length (store_ip6 w buf) = 16"
  by (cases w) simp

lemma typed_values [simp]:
  "typed_env e \<Longrightarrow> typed_dst (connect4_dst e ctx)"
  "typed_env e \<Longrightarrow> typed_dst (connect6_dst e ctx)"
  "typed_conn (connect4_udp_conn e ctx)"
  "typed_conn (established_conn e s d co)"
  "typed_conn (add_tx n ci) = typed_conn ci"
  "typed_conn (add_rx n ci) = typed_conn ci"
  "typed_conn (add_retransmit m ci) = typed_conn ci"
  "typed_sidecar (zero_sidecar_info\<lparr>si_is_sidecar_internal := b\<rparr>)"
  by (simp_all add: typed_env_def typed_dst_def connect4_dst_def connect6_dst_def zero_original_dst_def
      typed_conn_def connect4_udp_conn_def established_conn_def zero_conn_info_def Let_def
      add_tx_def add_rx_def add_retransmit_def typed_sidecar_def zero_sidecar_info_def store_ip6_length)

lemma typed_events [simp]:
  "typed_env e \<Longrightarrow> typed_event (Connect (connect4_event e ctx p))"
  "typed_env e \<Longrightarrow> typed_event (Connect (connect6_event e ctx p))"
  "length (co_comm co) = 16 \<Longrightarrow> typed_event (Establish (establish_event_of e s d co))"
  "typed_event (Close (close_event_of e ci))"
  by (simp_all add: typed_env_def connect4_event_def connect6_event_def establish_event_of_def
      close_event_of_def Let_def)

named_theorems typing

lemma typed_updates [typing]:
  "agent_typed a \<Longrightarrow> typed_dst od \<Longrightarrow> agent_typed (update_cookie e fl k od a)"
  "agent_typed a \<Longrightarrow> typed_conn ci \<Longrightarrow> agent_typed (update_connections e fl k ci a)"
  "agent_typed a \<Longrightarrow> typed_conn ci \<Longrightarrow> agent_typed (write_connection k ci a)"
  "agent_typed a \<Longrightarrow> agent_typed (delete_cookie k a)"
  "agent_typed a \<Longrightarrow> agent_typed (delete_connection k a)"
  unfolding agent_typed_def update_cookie_def update_connections_def write_connection_def
    delete_cookie_def delete_connection_def lookup_original_dst_def lookup_connection_def lookup_quic_def
  by (auto dest!: lru.no_invention split: if_splits)

lemma agent_typed_cong:
  assumes "agent_config_map b = agent_config_map a" "cookie_to_original_dst b = cookie_to_original_dst a"
    "connections b = connections a" "quic_flows b = quic_flows a" "sidecar_storage b = sidecar_storage a"
    "events b = events a"
  shows "agent_typed b = agent_typed a"
  using assms by (simp add: agent_typed_def lookup_original_dst_def lookup_connection_def lookup_quic_def)

lemma sidecar_frame [simp]:
  "sidecar_storage (count_drop e i a) = sidecar_storage a"
  "sidecar_storage (write_flow e k vals fm a) = sidecar_storage a"
  "sidecar_storage (insert_flow e k fm a) = sidecar_storage a"
  "sidecar_storage (update_flow_aggregate e ci t r a) = sidecar_storage a"
  "sidecar_storage (bump_flow e k f a) = sidecar_storage a"
  "sidecar_storage (seed_flow e s d ci a) = sidecar_storage a"
  "sidecar_storage (bpf_sock_ops_cb_flags_set e s v a) = sidecar_storage a"
  by (simp_all add: write_flow_def insert_flow_def update_flow_aggregate_def bump_flow_def seed_flow_def
      bpf_sock_ops_cb_flags_set_def Let_def split: option.split prod.split)

lemma typed_flows [typing]:
  "agent_typed a \<Longrightarrow> agent_typed (count_drop e i a)"
  "agent_typed a \<Longrightarrow> agent_typed (write_flow e k vals fm a)"
  "agent_typed a \<Longrightarrow> agent_typed (insert_flow e k fm a)"
  "agent_typed a \<Longrightarrow> agent_typed (update_flow_aggregate e ci t r a)"
  "agent_typed a \<Longrightarrow> agent_typed (bump_flow e k f a)"
  "agent_typed a \<Longrightarrow> agent_typed (seed_flow e s d ci a)"
  "agent_typed a \<Longrightarrow> agent_typed (bpf_sock_ops_cb_flags_set e s v a)"
  by (subst agent_typed_cong [of _ a]; simp)+

lemma typed_emit [typing]: "agent_typed a \<Longrightarrow> typed_event ev \<Longrightarrow> agent_typed (emit_event e ev a)"
  by (auto simp: emit_event_def typing) (auto simp: agent_typed_def lookup_original_dst_def
      lookup_connection_def lookup_quic_def)

lemma typed_sidecars [typing]: "agent_typed a \<Longrightarrow> agent_typed (snd (detect_sidecar e s a))"
  by (auto simp: detect_sidecar_def sk_storage_create_def Let_def agent_typed_def lookup_original_dst_def
      lookup_connection_def lookup_quic_def split: option.split)

lemma typed_correlate [typing]:
  assumes "agent_typed a"
  shows "agent_typed (snd (correlate e d a))" and "length (co_comm (fst (correlate e d a))) = 16"
  using assms typed_lookups(1) [OF assms, of "bpf_get_socket_cookie e"]
  by (auto simp: correlate_def no_correlation_def typed_dst_def typing split: option.split)

lemma typed_handle_established [typing]:
  "agent_typed a \<Longrightarrow> typed_env e \<Longrightarrow> agent_typed (handle_established e s d a)"
  by (simp add: handle_established_def Let_def split_beta typing del: typed_event.simps)

lemma typed_record_quic [typing]:
  assumes "agent_typed a" and "typed_env e"
  shows "agent_typed (record_quic e k v h m a)"
proof -
  have quic: "agent_typed (a\<lparr>quic_flows := q\<rparr>)"
    if "\<And>j vals c. bpf_map_lookup_elem q j = Some vals \<Longrightarrow> typed_quic (vals c)" for q
    using assms(1) that
    by (auto simp: agent_typed_def lookup_original_dst_def lookup_connection_def lookup_quic_def)
  show ?thesis
  proof (cases "lookup_quic a k")
    case None
    have "agent_typed (case hash_update (map_grant e M_quic_flows) BPF_NOEXIST k
        ((other_cpus_quic e)(smp_processor_id e := x)) (quic_flows a) of
          (None, q) \<Rightarrow> a\<lparr>quic_flows := q\<rparr>
        | (Some _, q) \<Rightarrow> count_drop e (slot_index DROP_SLOT_QUIC_FLOWS) (a\<lparr>quic_flows := q\<rparr>))"
      (is "agent_typed ?b") if "typed_quic x" for x
    proof -
      let ?new = "(other_cpus_quic e)(smp_processor_id e := x)"
      obtain r q where r: "hash_update (map_grant e M_quic_flows) BPF_NOEXIST k ?new (quic_flows a) = (r, q)"
        by fastforce
      have "typed_quic (vals c)" if "bpf_map_lookup_elem q j = Some vals" for j vals c
        using hash.no_invention [of "map_grant e M_quic_flows" BPF_NOEXIST k ?new "quic_flows a" j vals] that r
          \<open>typed_quic x\<close> assms(2) typed_lookups(3) [OF assms(1)] by (auto simp: lookup_quic_def typed_env_def)
      then have "agent_typed (a\<lparr>quic_flows := q\<rparr>)" by (intro quic) blast
      then show ?thesis unfolding r by (simp add: typing split: option.split)
    qed
    then show ?thesis
      using None by (simp add: record_quic_def Let_def typed_quic_def zero_quic_flow_metrics_def)
  next
    case (Some vals)
    have "typed_quic (vals c)" for c using typed_lookups(3) [OF assms(1) Some] .
    then have "agent_typed (a\<lparr>quic_flows := bpf_map_write k (vals(smp_processor_id e := x)) (quic_flows a)\<rparr>)"
      if "typed_quic x" for x
      using that typed_lookups(3) [OF assms(1)] by (intro quic) (auto simp: lookup_quic_def split: if_splits)
    then show ?thesis using Some \<open>\<And>c. typed_quic (vals c)\<close> by (simp add: record_quic_def Let_def typed_quic_def)
  qed
qed

section \<open>The programs are typed\<close>

lemma typed_sockops:
  assumes "agent_typed a" and "typed_env e"
  shows "agent_typed (snd (tollwing_sockops e s a))"
proof -
  have "agent_typed (handle_state_change e s a)"
    using assms by (auto simp: handle_state_change_def Let_def intro!: typing
      simp del: typed_event.simps split: option.split)
  then show ?thesis using assms by (auto simp: tollwing_sockops_def intro!: typing
      simp del: typed_event.simps split: option.split)
qed

lemma typed_step:
  assumes "agent_typed a" and "typed_env e"
  shows "agent_typed (step (e, ev) a)"
proof (cases ev)
  case (Quic_egress pkt)
  show ?thesis
    by (rule step_quic [of e pkt a]) (use assms in \<open>simp_all add: Quic_egress typing\<close>)
next
  case (Sockops s)
  then show ?thesis using assms typed_sockops by simp
next
  case (Connect4 ctx)
  then show ?thesis
    using assms by (auto simp: tollwing_connect4_def Let_def intro!: typing
      simp del: typed_event.simps split: option.split)
next
  case (Connect6 ctx)
  then show ?thesis
    using assms by (auto simp: tollwing_connect6_def Let_def intro!: typing
      simp del: typed_event.simps split: option.split)
next
  case (Sock_release p)
  then show ?thesis using assms by (simp add: tollwing_sock_release_def Let_def typing)
next
  case (Dns_recvmsg d)
  have "sidecar_storage (snd (tollwing_dns_recvmsg e d a)) = sidecar_storage a"
    by (simp add: tollwing_dns_recvmsg_def Let_def)
  then show ?thesis using assms Dns_recvmsg agent_typed_cong [of "snd (tollwing_dns_recvmsg e d a)" a] by (simp add: dns_frame)
qed (use assms in \<open>auto simp: byte_hook_simps typed_lookups(2) intro!: typing split: option.split\<close>)

section \<open>The system is typed\<close>

text \<open>No operation changes the size of a map.\<close>

lemma map_sizes_cong:
  assumes "cookie_to_original_dst b = cookie_to_original_dst a" "connections b = connections a"
    "flow_aggregates b = flow_aggregates a" "quic_flows b = quic_flows a"
  shows "map_sizes_of b = map_sizes_of a"
  using assms by (simp add: map_sizes_of_def)

named_theorems sizes

lemma map_op_sizes [sizes]:
  "map_sizes_of (update_cookie e fl k od a) = map_sizes_of a"
  "map_sizes_of (update_connections e fl k ci a) = map_sizes_of a"
  "map_sizes_of (write_connection k ci a) = map_sizes_of a"
  "map_sizes_of (delete_cookie k a) = map_sizes_of a"
  "map_sizes_of (delete_connection k a) = map_sizes_of a"
  "map_sizes_of (write_flow e key vals fm a) = map_sizes_of a"
  by (simp_all add: map_sizes_of_def update_cookie_def update_connections_def write_connection_def
      delete_cookie_def delete_connection_def write_flow_def lru.snd_size)

lemma frame_sizes [sizes]:
  "map_sizes_of (count_drop e i a) = map_sizes_of a"
  "map_sizes_of (emit_event e ev a) = map_sizes_of a"
  "map_sizes_of (snd (detect_sidecar e s a)) = map_sizes_of a"
  "map_sizes_of (bpf_sock_ops_cb_flags_set e s v a) = map_sizes_of a"
  "map_sizes_of (snd (tollwing_dns_recvmsg e d a)) = map_sizes_of a"
  by (rule map_sizes_cong; simp add: dns_frame)+

lemma insert_sizes [sizes]:
  "map_sizes_of (insert_flow e key fm a) = map_sizes_of a"
  "map_sizes_of (record_quic e k v h m a) = map_sizes_of a"
proof -
  have "max_entries m' = max_entries m" if "hash_update g fl k v m = (r, m')"
    for g fl r and k :: 'x and v :: 'y and m m'
    using hash.snd_size [of g fl k v m] that by simp
  note size_kept = this
  show "map_sizes_of (insert_flow e key fm a) = map_sizes_of a"
    "map_sizes_of (record_quic e k v h m a) = map_sizes_of a"
    by (auto simp: insert_flow_def record_quic_def Let_def map_sizes_of_def dest!: size_kept
        split: option.split prod.split)
qed

lemma flow_sizes [sizes]:
  "map_sizes_of (update_flow_aggregate e ci t r a) = map_sizes_of a"
  "map_sizes_of (bump_flow e key f a) = map_sizes_of a"
  "map_sizes_of (seed_flow e s d ci a) = map_sizes_of a"
  by (simp_all add: update_flow_aggregate_def bump_flow_def seed_flow_def Let_def sizes split: option.split)

lemma conn_sizes [sizes]:
  "map_sizes_of (snd (correlate e d a)) = map_sizes_of a"
  "map_sizes_of (handle_established e s d a) = map_sizes_of a"
  "map_sizes_of (handle_state_change e s a) = map_sizes_of a"
  by (simp_all add: correlate_def handle_established_def handle_state_change_def Let_def split_beta sizes
      split: option.split)

lemma step_map_sizes: "map_sizes_of (step (e, ev) a) = map_sizes_of a"
proof (cases ev)
  case (Quic_egress pkt)
  show ?thesis by (rule step_quic [of e pkt a]) (simp_all add: Quic_egress sizes)
qed (simp_all add: byte_hook_simps tollwing_connect4_def tollwing_connect6_def tollwing_sockops_def
    tollwing_sock_release_def sizes split: option.split)

lemma poll_sizes:
  "map_sizes_of (fst (poll_flow n key (a, fl))) = map_sizes_of a"
  "map_sizes_of (fst (poll_quic_flow n qk (a, fl))) = map_sizes_of a"
  by (simp_all add: poll_flow_def poll_quic_flow_def map_sizes_of_def split: option.split)

lemma config_sizes:
  "map_sizes_of (push_config en udp rate att agg a) = map_sizes_of a"
  "map_sizes_of (set_enabled en a) = map_sizes_of a"
  by (simp_all add: push_config_def set_enabled_def map_sizes_of_def split: option.split)

lemma sys_step_map_sizes: "map_sizes_of (fst (sys_step n ev s)) = map_sizes_of (fst s)"
  by (cases s; cases ev) (simp_all add: step_map_sizes poll_sizes config_sizes)

lemma run_map_sizes: "map_sizes_of (fst (fold (sys_step n) evs s)) = map_sizes_of (fst s)"
  by (induction evs arbitrary: s) (simp_all add: sys_step_map_sizes)

text \<open>The system's own steps, and every reachable state of a run on a typed kernel.\<close>

fun typed_sys_event :: "sys_event \<Rightarrow> bool" where
  "typed_sys_event (Kernel e ev) \<longleftrightarrow> typed_env e"
| "typed_sys_event _ \<longleftrightarrow> True"

lemma typed_sys_step:
  assumes "agent_typed (fst s)" and "typed_sys_event ev"
  shows "agent_typed (fst (sys_step n ev s))"
proof -
  obtain a fl where s: "s = (a, fl)" by fastforce
  show ?thesis
  proof (cases ev)
    case (Kernel e kev)
    then show ?thesis using assms typed_step by (simp add: s)
  next
    case (Poll_flow key)
    then show ?thesis
      using assms agent_typed_cong [of "fst (poll_flow n key s)" a]
      by (simp add: s poll_flow_def split: option.splits)
  next
    case (Poll_quic_flow key)
    then show ?thesis
      using assms
      by (auto simp: s poll_quic_flow_def agent_typed_def lookup_quic_def lookup_connection_def
          lookup_original_dst_def split: option.split if_splits)
  next
    case (Push_config en udp rate att agg)
    then show ?thesis
      using assms
      by (auto simp: s push_config_def agent_typed_def lookup_quic_def lookup_connection_def
          lookup_original_dst_def typed_config_def split: if_splits)
  next
    case (Set_enabled en)
    then show ?thesis
      using assms
      by (auto simp: s set_enabled_def agent_typed_def lookup_quic_def lookup_connection_def
          lookup_original_dst_def typed_config_def split: option.split if_splits)
  qed
qed

interpretation typed: kept_by_steps "sys_step n" "\<lambda>s. agent_typed (fst s)" typed_sys_event
  by unfold_locales (rule typed_sys_step)

lemma boot_typed: "typed_config cfg \<Longrightarrow> agent_typed (boot_agent c cfg)"
  by (simp add: agent_typed_def lookup_original_dst_def lookup_connection_def lookup_quic_def
      bpf_map_lookup_elem_def)

lemma run_typed:
  assumes "typed_config cfg" and "\<forall>ev \<in> set evs. typed_sys_event ev"
  shows "agent_typed (fst (fold (sys_step n) evs (boot_agent c cfg, [])))"
  using typed.run_keeps [of "(boot_agent c cfg, [])" evs n] boot_typed [OF assms(1)] assms(2) by simp

text \<open>So userspace reads back every event of the ring, in every reachable state.\<close>

lemma typed_ring_read:
  assumes "agent_typed a" and "ev \<in> set (events a)" and "length hole = 4"
  shows "read_event (event_bytes hole ev) = Some ev"
  using assms by (intro read_event_bytes) (auto simp: agent_typed_def)

text \<open>The sizes are those of the configuration, or the loader's defaults, for the life of the maps.\<close>

lemma run_sizes:
  "map_sizes_of (fst (fold (sys_step n) evs (boot_agent c cfg, []))) =
    (65536, unat (size_default 65536 (sz_connections c)), unat (size_default 131072 (sz_flow_aggregates c)),
     unat (size_default 8192 (sz_quic_flows c)))"
  by (simp add: run_map_sizes) (simp add: map_sizes_of_def boot_agent_sizes)

lemma run_bounded:
  fixes n :: nat and evs :: "sys_event list" and c :: map_sizes and cfg :: agent_config
  defines "s \<equiv> fold (sys_step n) evs (boot_agent c cfg, [])"
  shows "card (dom (entries (cookie_to_original_dst (fst s)))) \<le> 65536"
    and "card (dom (entries (connections (fst s)))) \<le> unat (size_default 65536 (sz_connections c))"
    and "card (dom (entries (flow_aggregates (fst s)))) \<le> unat (size_default 131072 (sz_flow_aggregates c))"
    and "card (dom (entries (quic_flows (fst s)))) \<le> unat (size_default 8192 (sz_quic_flows c))"
proof -
  have "agent_wf (fst s)" unfolding s_def by (rule system.run_keeps) simp_all
  with run_sizes [of n evs c cfg]
  show "card (dom (entries (cookie_to_original_dst (fst s)))) \<le> 65536"
    "card (dom (entries (connections (fst s)))) \<le> unat (size_default 65536 (sz_connections c))"
    "card (dom (entries (flow_aggregates (fst s)))) \<le> unat (size_default 131072 (sz_flow_aggregates c))"
    "card (dom (entries (quic_flows (fst s)))) \<le> unat (size_default 8192 (sz_quic_flows c))"
    unfolding s_def by (auto simp: agent_wf_def bmap_wf_def map_sizes_of_def)
qed

end
