(* ===== verification/Arg_Macros.thy ===== *)
theory Arg_Macros
  imports Pt_Regs Layout
begin

unbundle bit_operations_syntax

text \<open>
  The argument macros of \<open>bpf_tracing.h\<close> and \<open>bpf_helpers.h\<close>: how the preprocessor counts the
  arguments of a variadic macro, how \<open>BPF_PROG2\<close> finds struct arguments of one or two words in a
  tracing context, how the syscall macros reach the registers of the caller, and the small
  helpers for formatted output, version numbers and bounded loops.
\<close>

section \<open>Counting arguments\<close>

text \<open>
  A token is an argument of the caller, the placeholder \<open>_\<close>, or a number of the tail that the
  macro appends. The counting macros return the token at a fixed position.
\<close>

datatype 't token = Blank | Arg 't | Count nat

definition bpf_nth :: "'t list \<Rightarrow> 't" where "bpf_nth tokens = tokens ! 13"

definition bpf_nth2 :: "'t list \<Rightarrow> 't" where "bpf_nth2 tokens = tokens ! 25"

text \<open>\<open>___bpf_apply(fn, n)\<close> glues the number to the name; anything else names no macro.\<close>

fun apply_count :: "'t token \<Rightarrow> nat option" where
  "apply_count (Count n) = Some n"
| "apply_count _ = None"

definition bpf_narg :: "'t list \<Rightarrow> nat option" where
  "bpf_narg args = apply_count (bpf_nth (Blank # map Arg args @
     map Count [12, 11, 10, 9, 8, 7, 6, 5, 4, 3, 2, 1, 0]))"

definition bpf_narg2 :: "'t list \<Rightarrow> nat option" where
  "bpf_narg2 args = apply_count (bpf_nth2 (Blank # map Arg args @
     map Count [12, 12, 11, 11, 10, 10, 9, 9, 8, 8, 7, 7, 6, 6, 5, 5, 4, 4, 3, 3, 2, 2, 1, 1, 0]))"

lemma upto_12: "n \<le> 12 \<Longrightarrow> n \<in> {0, 1, 2, 3, 4, 5, 6, 7, 8, 9, 10, 11, 12 :: nat}"
  by (simp, arith)

lemma bpf_narg_counts: "bpf_narg args = (if length args \<le> 12 then Some (length args) else None)"
proof (cases "length args \<le> 12")
  case True
  then show ?thesis using upto_12 [OF True] by (auto simp: bpf_narg_def bpf_nth_def nth_append nth_Cons')
qed (simp add: bpf_narg_def bpf_nth_def nth_append)

text \<open>Of pairs \<open>type, name\<close> it is the number of pairs.\<close>

lemma bpf_narg2_counts:
  assumes "length args = 2 * k"
  shows "bpf_narg2 args = (if k \<le> 12 then Some k else None)"
proof (cases "k \<le> 12")
  case True
  then show ?thesis using upto_12 [OF True] assms by (auto simp: bpf_narg2_def bpf_nth2_def nth_append nth_Cons')
qed (simp add: bpf_narg2_def bpf_nth2_def nth_append assms)

section \<open>BPF_PROG2\<close>

text \<open>The words that a type takes, by its size; the macro has no case for other sizes.\<close>

definition bpf_treg_cnt :: "nat \<Rightarrow> nat option" where
  "bpf_treg_cnt sz =
     (if sz = 1 then Some 1 else if sz = 2 then Some 1 else if sz = 4 then Some 1
      else if sz = 8 then Some 1 else if sz = 16 then Some 2 else None)"

fun bpf_reg_cnt :: "nat list \<Rightarrow> nat option" where
  "bpf_reg_cnt [] = Some 0"
| "bpf_reg_cnt (t # args) =
     (case bpf_reg_cnt args of
        None \<Rightarrow> None
      | Some m \<Rightarrow> (case bpf_treg_cnt t of None \<Rightarrow> None | Some k \<Rightarrow> Some (m + k)))"

text \<open>The memory of the union after the initialiser, on a little-endian target: the value's bytes.\<close>

definition bpf_union_arg :: "(nat \<Rightarrow> u64) \<Rightarrow> nat \<Rightarrow> nat \<Rightarrow> u8 list option" where
  "bpf_union_arg ctx sz n =
     (if sz = 1 then Some [ucast (ctx n)]
      else if sz = 2 then Some (le_bytes16 (ucast (ctx n)))
      else if sz = 4 then Some (le_bytes32 (ucast (ctx n)))
      else if sz = 8 then Some (le_bytes64 (ctx n))
      else if sz = 16 then Some (le_bytes64 (ctx n) @ le_bytes64 (ctx (n + 1)))
      else None)"

fun bpf_ctx_arg :: "(nat \<Rightarrow> u64) \<Rightarrow> nat \<Rightarrow> nat list \<Rightarrow> u8 list list option" where
  "bpf_ctx_arg ctx n [] = Some []"
| "bpf_ctx_arg ctx n (t # args) =
     (case bpf_reg_cnt (t # args) of
        None \<Rightarrow> None
      | Some m \<Rightarrow>
          (case (bpf_union_arg ctx t (n - m), bpf_ctx_arg ctx n args) of
             (Some x, Some xs) \<Rightarrow> Some (x # xs)
           | _ \<Rightarrow> None))"

text \<open>The arguments that the program's body gets, for the sizes of their types.\<close>

definition BPF_PROG2 :: "nat list \<Rightarrow> (nat \<Rightarrow> u64) \<Rightarrow> u8 list list option" where
  "BPF_PROG2 sizes ctx =
     (if 12 < length sizes then None
      else case bpf_reg_cnt sizes of None \<Rightarrow> None | Some n \<Rightarrow> bpf_ctx_arg ctx n sizes)"

text \<open>
  How the trampoline places arguments: one after the other from word 0, a struct of 16 bytes in
  two words, anything smaller in the low bytes of one; the rest of that word is anything.
\<close>

fun placed :: "(nat \<Rightarrow> u64) \<Rightarrow> nat \<Rightarrow> u8 list list \<Rightarrow> bool" where
  "placed ctx n [] \<longleftrightarrow> True"
| "placed ctx n (v # vs) \<longleftrightarrow>
     (if length v = 16 then v = le_bytes64 (ctx n) @ le_bytes64 (ctx (n + 1)) \<and> placed ctx (n + 2) vs
      else v = take (length v) (le_bytes64 (ctx n)) \<and> placed ctx (n + 1) vs)"

lemma reg_cnt_defined:
  "\<forall>t \<in> set ss. t \<in> {1, 2, 4, 8, 16} \<Longrightarrow> \<exists>m. bpf_reg_cnt ss = Some m"
  by (induction ss) (auto simp: bpf_treg_cnt_def)

lemma narrow_casts:
  "(ucast (ucast (w :: u64) :: u32) :: u8) = ucast w"
  "(ucast (ucast (w :: u64) :: u16) :: u8) = ucast w"
  "(ucast (drop_bit 8 (ucast w :: u32)) :: u8) = ucast (drop_bit 8 (ucast w :: u16))"
  by (rule bit_word_eqI; auto simp: bit_simps)+

lemma union_arg_takes:
  "sz \<in> {1, 2, 4, 8} \<Longrightarrow> bpf_union_arg ctx sz n = Some (take sz (le_bytes64 (ctx n)))"
  by (auto simp: bpf_union_arg_def le_bytes64_def le_bytes32_def le_bytes16_def narrow_casts)

lemma ctx_arg_placed:
  assumes "\<forall>v \<in> set vs. length v \<in> {1, 2, 4, 8, 16}" and "placed ctx i vs"
    and "bpf_reg_cnt (map length vs) = Some m" and "n = i + m"
  shows "bpf_ctx_arg ctx n (map length vs) = Some vs"
  using assms
proof (induction vs arbitrary: i m)
  case (Cons v vs)
  from Cons.prems(1) reg_cnt_defined [of "map length vs"] obtain r where r: "bpf_reg_cnt (map length vs) = Some r"
    by auto
  define k where "k = (if length v = 16 then 2 else 1 :: nat)"
  have k: "bpf_treg_cnt (length v) = Some k" using Cons.prems(1) by (auto simp: bpf_treg_cnt_def k_def)
  then have m: "m = r + k" using Cons.prems(3) r by simp
  have "placed ctx (i + k) vs" using Cons.prems(2) by (simp add: k_def split: if_splits)
  from Cons.IH [OF _ this r] have rest: "bpf_ctx_arg ctx n (map length vs) = Some vs"
    using Cons.prems(1,4) m by simp
  have "bpf_union_arg ctx (length v) i = Some v"
  proof (cases "length v = 16")
    case True
    then show ?thesis using Cons.prems(2) by (simp add: bpf_union_arg_def)
  next
    case False
    then have "length v \<in> {1, 2, 4, 8}" using Cons.prems(1) by auto
    from union_arg_takes [OF this] show ?thesis using Cons.prems(2) False by simp
  qed
  moreover have "n - m = i" using Cons.prems(4) by simp
  ultimately show ?case using Cons.prems(3) rest by simp
qed simp

text \<open>So the body gets the arguments that the traced function was called with.\<close>

lemma prog2_arguments:
  assumes "length vs \<le> 12" and "\<forall>v \<in> set vs. length v \<in> {1, 2, 4, 8, 16}" and "placed ctx 0 vs"
  shows "BPF_PROG2 (map length vs) ctx = Some vs"
proof -
  obtain m where "bpf_reg_cnt (map length vs) = Some m"
    using reg_cnt_defined [of "map length vs"] assms(2) by auto
  then show ?thesis using ctx_arg_placed [OF assms(2,3)] assms(1) by (simp add: BPF_PROG2_def)
qed

text \<open>With no argument over 8 bytes argument \<open>i\<close> is word \<open>i\<close>, as \<open>BPF_PROG\<close> has it.\<close>

lemma reg_cnt_scalars: "\<forall>t \<in> set ss. t \<in> {1, 2, 4, 8} \<Longrightarrow> bpf_reg_cnt ss = Some (length ss)"
  by (induction ss) (auto simp: bpf_treg_cnt_def)

lemma ctx_arg_scalars:
  assumes "\<forall>t \<in> set ss. t \<in> {1, 2, 4, 8}" and "length ss \<le> n"
  shows "bpf_ctx_arg ctx n ss =
    Some (map (\<lambda>i. take (ss ! i) (le_bytes64 (ctx (n - length ss + i)))) [0..<length ss])"
  using assms
proof (induction ss)
  case (Cons t ss)
  have "[0..<length (t # ss)] = 0 # map Suc [0..<length ss]" by (simp add: map_Suc_upt upt_conv_Cons del: upt_Suc)
  moreover have "n - length (t # ss) + Suc i = n - length ss + i" for i using Cons.prems(2) by simp
  ultimately show ?case
    using Cons reg_cnt_scalars [of "t # ss"] union_arg_takes [of t ctx "n - length (t # ss)"]
    by (simp add: o_def del: upt_Suc bpf_reg_cnt.simps)
qed simp

lemma prog2_scalars:
  assumes "length ss \<le> 12" and "\<forall>t \<in> set ss. t \<in> {1, 2, 4, 8}"
  shows "BPF_PROG2 ss ctx =
    Some (map (\<lambda>i. take (ss ! i) (le_bytes64 (bpf_ctx_cast (length ss) ctx ! i))) [0..<length ss])"
  using assms ctx_arg_scalars [of ss "length ss" ctx]
  by (simp add: BPF_PROG2_def reg_cnt_scalars nth_bpf_ctx_cast)

section \<open>Return values and system calls\<close>

fun bpf_kretprobe_args :: "abi \<Rightarrow> nat \<Rightarrow> (reg \<Rightarrow> u64) \<Rightarrow> u64 list option" where
  "bpf_kretprobe_args ab 0 regs = Some []"
| "bpf_kretprobe_args ab (Suc 0) regs = Some [PT_REGS_RC ab regs]"
| "bpf_kretprobe_args ab _ regs = None"

fun bpf_syscall_args :: "abi \<Rightarrow> nat \<Rightarrow> (reg \<Rightarrow> u64) \<Rightarrow> u64 list" where
  "bpf_syscall_args ab 0 regs = []"
| "bpf_syscall_args ab (Suc n) regs = bpf_syscall_args ab n regs @ [PT_REGS_PARM_SYSCALL ab (Suc n) regs]"

text \<open>
  With a wrapper the first parameter of the probed function points to the registers of the
  system call, in kernel memory: \<open>kernel_regs\<close> is what \<open>BPF_CORE_READ\<close> finds there.
\<close>

definition BPF_KSYSCALL ::
  "abi \<Rightarrow> bool \<Rightarrow> (u64 \<Rightarrow> reg \<Rightarrow> u64) \<Rightarrow> nat \<Rightarrow> (reg \<Rightarrow> u64) \<Rightarrow> u64 list option" where
  "BPF_KSYSCALL ab has_wrapper kernel_regs n ctx =
     (if 7 < n then None
      else if has_wrapper then Some (bpf_syscall_args ab n (kernel_regs (PT_REGS_PARM ab 1 ctx)))
      else Some (bpf_syscall_args ab n ctx))"

lemma bpf_syscall_args_map:
  "bpf_syscall_args ab n regs = map (\<lambda>i. PT_REGS_PARM_SYSCALL ab (Suc i) regs) [0..<n]"
  by (induction n) auto

section \<open>Helpers\<close>

text \<open>\<open>___bpf_fill\<close> stores the arguments from an index on; \<open>bpf_pick_printk\<close> picks the helper.\<close>

fun bpf_fill :: "'a list \<Rightarrow> nat \<Rightarrow> 'a list \<Rightarrow> 'a list" where
  "bpf_fill arr p [] = arr"
| "bpf_fill arr p (x # args) = bpf_fill (arr[p := x]) (p + 1) args"

definition format_param :: "'a \<Rightarrow> 'a list \<Rightarrow> 'a list option" where
  "format_param junk args = map_option (\<lambda>n. bpf_fill (replicate n junk) 0 args) (bpf_narg args)"

datatype printk = Bpf_printk | Bpf_vprintk

definition bpf_pick_printk :: "'t list \<Rightarrow> printk token" where
  "bpf_pick_printk args = bpf_nth (Blank # map (\<lambda>_. Blank) args @ map Arg
     (replicate 9 Bpf_vprintk @ replicate 4 Bpf_printk))"

lemma bpf_fill_spec:
  "p + length args \<le> length arr \<Longrightarrow> bpf_fill arr p args = take p arr @ args @ drop (p + length args) arr"
proof (induction args arbitrary: arr p)
  case (Cons x args)
  then have "p < length arr" by simp
  then show ?case
    using Cons by (simp add: upd_conv_take_nth_drop take_Suc_conv_app_nth min_def add.commute [of p])
qed simp

lemma format_param_args: "length args \<le> 12 \<Longrightarrow> format_param junk args = Some args"
  by (simp add: format_param_def bpf_narg_counts bpf_fill_spec)

lemma pick_printk_by_count:
  "length args \<le> 12 \<Longrightarrow> bpf_pick_printk args = Arg (if length args \<le> 3 then Bpf_printk else Bpf_vprintk)"
  using upto_12 [of "length args"]
  by (auto simp: bpf_pick_printk_def bpf_nth_def nth_append nth_Cons' eval_nat_numeral)

definition KERNEL_VERSION :: "int \<Rightarrow> int \<Rightarrow> int \<Rightarrow> int" where
  "KERNEL_VERSION a b c = push_bit 16 a + push_bit 8 b + (if c > 255 then 255 else c)"

text \<open>Versions compare as their numbers do, as long as the minor number fits a byte.\<close>

lemma kernel_version_order:
  assumes "0 \<le> b" "b < 256" "0 \<le> b'" "b' < 256" "0 \<le> c" "0 \<le> c'"
  shows "KERNEL_VERSION a b c < KERNEL_VERSION a' b' c' \<longleftrightarrow>
    a < a' \<or> a = a' \<and> (b < b' \<or> b = b' \<and> min c 255 < min c' 255)"
  using assms by (auto simp: KERNEL_VERSION_def push_bit_eq_mult)

text \<open>
  \<open>bpf_for\<close>: the body runs for the values of the kernel's number iterator until one is NULL or
  out of range; \<open>iter\<close> is what the iterator gives.
\<close>

definition bpf_for :: "int list \<Rightarrow> int \<Rightarrow> int \<Rightarrow> int list" where
  "bpf_for iter start end' = takeWhile (\<lambda>i. start \<le> i \<and> i < end') iter"

lemma bpf_for_bounds: "i \<in> set (bpf_for iter start end') \<Longrightarrow> start \<le> i \<and> i < end'"
  by (auto simp: bpf_for_def dest: set_takeWhileD)

lemma bpf_for_all: "bpf_for [start..end' - 1] start end' = [start..end' - 1]"
  by (simp add: bpf_for_def takeWhile_eq_all_conv)

end
