(* ===== verification/Core_Read.thy ===== *)
theory Core_Read
  imports Arg_Macros Dns_Hook
begin

text \<open>
  The pointer-chasing reads of \<open>bpf_core_read.h\<close>, \<open>BPF_CORE_READ(src, a, b, c)\<close>: how the macro
  takes a list of accessors apart and what it reads; and the DNS program on kernel memory, whose
  socket and buffer fields are such reads. An accessor is the relocated offset and the size of
  a field; what a probe read leaves in its destination is the argument \<open>fn\<close>.
\<close>

section \<open>The macro\<close>

record accessor =
  ac_offset :: u64
  ac_size :: nat

type_synonym read_fn = "nat \<Rightarrow> u64 \<Rightarrow> u8 list"

text \<open>\<open>___narg\<close> of this header counts to ten, \<open>___empty\<close> tells no argument from some.\<close>

definition core_nth :: "'t list \<Rightarrow> 't" where "core_nth tokens = tokens ! 11"

definition core_narg :: "'t list \<Rightarrow> nat option" where
  "core_narg args = apply_count (core_nth (Blank # map Arg args @ map Count [10, 9, 8, 7, 6, 5, 4, 3, 2, 1, 0]))"

definition core_empty :: "'t list \<Rightarrow> bool option" where
  "core_empty args = map_option (\<lambda>n. n = 0) (apply_count (core_nth (Blank # map Arg args @
     map Count [1, 1, 1, 1, 1, 1, 1, 1, 1, 1, 0])))"

definition read_accessor :: "read_fn \<Rightarrow> nat \<Rightarrow> u64 \<Rightarrow> accessor \<Rightarrow> u8 list" where
  "read_accessor fn sz src a = fn sz (src + ac_offset a)"

text \<open>\<open>___rd_pN\<close>: the local \<open>__t\<close> after the first \<open>N\<close> accessors, an 8-byte pointer each time.\<close>

fun rd_p :: "nat \<Rightarrow> read_fn \<Rightarrow> u64 \<Rightarrow> accessor list \<Rightarrow> u64 option" where
  "rd_p 0 fn src args = None"
| "rd_p (Suc 0) fn src args =
     (case args of [a] \<Rightarrow> Some (at64 (read_accessor fn 8 src a) 0) | _ \<Rightarrow> None)"
| "rd_p (Suc n) fn src args =
     (if 9 \<le> n then None
      else case rd_p n fn src (butlast args) of
             None \<Rightarrow> None
           | Some t \<Rightarrow> Some (at64 (read_accessor fn 8 t (last args)) 0))"

definition core_read :: "read_fn \<Rightarrow> read_fn \<Rightarrow> u64 \<Rightarrow> accessor \<Rightarrow> accessor list \<Rightarrow> u8 list option" where
  "core_read fn fn_ptr src a rest =
     (case core_empty rest of
        None \<Rightarrow> None
      | Some True \<Rightarrow> Some (read_accessor fn (ac_size a) src a)
      | Some False \<Rightarrow>
          (case core_narg (butlast (a # rest)) of
             None \<Rightarrow> None
           | Some n \<Rightarrow>
               (case rd_p n fn_ptr src (butlast (a # rest)) of
                  None \<Rightarrow> None
                | Some t \<Rightarrow> Some (read_accessor fn (ac_size (last rest)) t (last rest)))))"

text \<open>\<open>BPF_CORE_READ\<close> declares the result with \<open>___type\<close>, which counts the source as well.\<close>

definition BPF_CORE_READ :: "read_fn \<Rightarrow> u64 \<Rightarrow> accessor list \<Rightarrow> u8 list option" where
  "BPF_CORE_READ fn src args =
     (case args of
        [] \<Rightarrow> None
      | a # rest \<Rightarrow>
          (if core_narg (None # map Some args) = None then None else core_read fn fn src a rest))"

section \<open>What it reads\<close>

text \<open>The reference: C's \<open>src->a->b->c\<close>, one pointer after the other, then the last field.\<close>

definition chase :: "read_fn \<Rightarrow> u64 \<Rightarrow> accessor list \<Rightarrow> u64" where
  "chase fn src args = foldl (\<lambda>p a. at64 (fn 8 (p + ac_offset a)) 0) src args"

lemma upto_10: "n \<le> 10 \<Longrightarrow> n \<in> {0, 1, 2, 3, 4, 5, 6, 7, 8, 9, 10 :: nat}"
  by (simp, arith)

lemma core_narg_counts: "core_narg args = (if length args \<le> 10 then Some (length args) else None)"
proof (cases "length args \<le> 10")
  case True
  then show ?thesis using upto_10 [OF True] by (auto simp: core_narg_def core_nth_def nth_append nth_Cons')
qed (simp add: core_narg_def core_nth_def nth_append)

lemma core_empty_tests: "length args \<le> 10 \<Longrightarrow> core_empty args = Some (args = [])"
  using upto_10 [of "length args"]
  by (auto simp: core_empty_def core_nth_def nth_append nth_Cons' simp flip: length_0_conv)

lemma rd_p_chases:
  "length args = n \<Longrightarrow> 1 \<le> n \<Longrightarrow> n \<le> 9 \<Longrightarrow> rd_p n fn src args = Some (chase fn src args)"
proof (induction n fn src args rule: rd_p.induct)
  case (2 fn src args)
  then show ?case by (auto simp: length_Suc_conv chase_def read_accessor_def)
next
  case (3 n fn src args)
  then have "args = butlast args @ [last args]" by (intro append_butlast_last_id [symmetric]) auto
  then have "chase fn src args = at64 (fn 8 (chase fn src (butlast args) + ac_offset (last args))) 0"
    unfolding chase_def by (metis (no_types, lifting) foldl_Cons foldl_Nil foldl_append)
  then show ?case using 3 by (simp add: read_accessor_def)
qed simp

lemma core_read_chases:
  assumes "1 \<le> length args" and "length args \<le> 9"
  shows "BPF_CORE_READ fn src args =
    Some (fn (ac_size (last args)) (chase fn src (butlast args) + ac_offset (last args)))"
proof -
  obtain a rest where args: "args = a # rest" using assms(1) by (cases args) auto
  show ?thesis
  proof (cases "rest = []")
    case True
    then show ?thesis
      by (simp add: args BPF_CORE_READ_def core_narg_counts core_read_def core_empty_tests read_accessor_def
          chase_def)
  next
    case False
    have "rd_p (length rest) fn src (butlast args) = Some (chase fn src (butlast args))"
      using False assms(2) by (intro rd_p_chases) (auto simp: args Suc_le_eq)
    then show ?thesis
      using False assms(2)
      by (simp add: args BPF_CORE_READ_def core_narg_counts core_read_def core_empty_tests read_accessor_def)
  qed
qed

lemma core_read_limit: "9 < length args \<Longrightarrow> BPF_CORE_READ fn src args = None"
  by (cases args) (simp_all add: BPF_CORE_READ_def core_narg_counts)

section \<open>The DNS program on kernel memory\<close>

text \<open>The relocated offsets of the fields that the program reads.\<close>

record sock_offsets =
  off_skc_dport :: u64
  off_skc_family :: u64
  off_sk_receive_queue :: u64
  off_list_next :: u64
  off_skb_data :: u64
  off_skb_len :: u64

definition read_field :: "read_fn \<Rightarrow> u64 \<Rightarrow> u64 \<Rightarrow> nat \<Rightarrow> u8 list" where
  "read_field fn src off sz =
     (case BPF_CORE_READ fn src [\<lparr>ac_offset = off, ac_size = sz\<rparr>] of None \<Rightarrow> [] | Some bs \<Rightarrow> bs)"

definition dns_ctx_of :: "read_fn \<Rightarrow> (u64 \<Rightarrow> u8) \<Rightarrow> sock_offsets \<Rightarrow> u64 \<Rightarrow> dns_ctx" where
  "dns_ctx_of fn mem offs sk = \<lparr>
     skc_dport = at16 (read_field fn sk (off_skc_dport offs) 2) 0,
     skc_family = at16 (read_field fn sk (off_skc_family offs) 2) 0,
     sk_receive_queue_addr = sk + off_sk_receive_queue offs,
     sk_receive_queue_next = at64 (read_field fn sk (off_sk_receive_queue offs + off_list_next offs) 8) 0,
     skb_data_at = (\<lambda>skb. at64 (read_field fn skb (off_skb_data offs) 8) 0),
     skb_len_at = (\<lambda>skb. at32 (read_field fn skb (off_skb_len offs) 4) 0),
     kernel_byte = mem\<rparr>"

text \<open>A successful probe read copies the memory.\<close>

definition mem_read :: "(u64 \<Rightarrow> u8) \<Rightarrow> read_fn" where
  "mem_read mem sz p = map (\<lambda>i. mem (p + of_nat i)) [0..<sz]"

lemma read_field_mem: "read_field (mem_read mem) src off sz = mem_read mem sz (src + off)"
  by (simp add: read_field_def core_read_chases chase_def)

lemma at_bytes:
  "at16 (le_bytes16 h) 0 = h" "at32 (le_bytes32 w) 0 = w" "at64 (le_bytes64 d) 0 = d"
  by (simp_all add: loads explicit_bytes le_word16_bytes le_word32_bytes word64_halves)

text \<open>
  A socket in memory with peer port 53, whose receive queue starts with a buffer of 12 to 512
  bytes: the captured record holds the bytes that lie at the buffer's data pointer.
\<close>

definition dns_socket :: "(u64 \<Rightarrow> u8) \<Rightarrow> sock_offsets \<Rightarrow> u64 \<Rightarrow> u16 \<Rightarrow> u64 \<Rightarrow> u64 \<Rightarrow> u32 \<Rightarrow> bool" where
  "dns_socket mem offs sk family skb data len \<longleftrightarrow>
     mem_read mem 2 (sk + off_skc_dport offs) = [0, 53] \<and>
     mem_read mem 2 (sk + off_skc_family offs) = le_bytes16 family \<and>
     mem_read mem 8 (sk + (off_sk_receive_queue offs + off_list_next offs)) = le_bytes64 skb \<and>
     mem_read mem 8 (skb + off_skb_data offs) = le_bytes64 data \<and>
     mem_read mem 4 (skb + off_skb_len offs) = le_bytes32 len"

lemma dns_socket_ctx:
  assumes "dns_socket mem offs sk family skb data len"
  defines "c \<equiv> dns_ctx_of (mem_read mem) mem offs sk"
  shows "bpf_ntohs Little False (skc_dport c) = DNS_PORT" "skc_family c = family"
    "sk_receive_queue_next c = skb" "sk_receive_queue_addr c = sk + off_sk_receive_queue offs"
    "skb_data_at c skb = data" "skb_len_at c skb = len"
    "kernel_bytes c p n = mem_read mem n p"
proof -
  have "skc_dport c = le_word16 0 53"
    using assms by (simp add: c_def dns_ctx_of_def read_field_mem dns_socket_def at16_def)
  then show "bpf_ntohs Little False (skc_dport c) = DNS_PORT"
    using bswap16_wire [of 53] by (simp add: DNS_PORT_def)
  show "skc_family c = family" "sk_receive_queue_next c = skb" "skb_data_at c skb = data" "skb_len_at c skb = len"
    using assms by (simp_all add: c_def dns_ctx_of_def read_field_mem dns_socket_def at_bytes)
  show "sk_receive_queue_addr c = sk + off_sk_receive_queue offs" "kernel_bytes c p n = mem_read mem n p"
    by (simp_all add: c_def dns_ctx_of_def kernel_bytes_def mem_read_def)
qed

lemma dns_memory_captured:
  assumes "dns_socket mem offs sk family skb data len" and "family = AF_INET \<or> family = AF_INET6"
    and "skb \<noteq> 0" "skb \<noteq> sk + off_sk_receive_queue offs" "data \<noteq> 0" "12 \<le> len" "len \<le> 512"
    and "ring_reserved e" "probe_read_ok e"
  shows "dns_events (snd (tollwing_dns_recvmsg e (dns_ctx_of (mem_read mem) mem offs sk) a)) =
    dns_events a @ [\<lparr>dr_len = ucast len, dr_pad = 0,
      dr_data = mem_read mem (unat len) data @ replicate (512 - unat len) 0\<rparr>]"
proof -
  note ctx = dns_socket_ctx [OF assms(1)]
  have "dns_captured (dns_ctx_of (mem_read mem) mem offs sk)"
    using assms(2-7) ctx(1) by (simp add: dns_captured_def ctx(2-) DNS_RAW_MAX_def)
  from dns_captured_outcome [OF this, of e a] show ?thesis using assms(8,9) by (simp add: ctx)
qed

end
