(* ===== verification/Core_Bitfield.thy ===== *)
theory Core_Bitfield
  imports Layout
begin

text \<open>
  The bitfield macros of \<open>include/bpf/bpf_core_read.h\<close>: reading and writing a bitfield of a
  kernel struct through the byte offset, byte size and shifts that the loader relocates. The
  relocated values come from the loader, so they are a record; the theorems ask of them what
  libbpf computes for a field that lies inside its storage unit.
\<close>

section \<open>The relocations\<close>

datatype bpf_field_info_kind =
  BPF_FIELD_BYTE_OFFSET | BPF_FIELD_BYTE_SIZE | BPF_FIELD_EXISTS
| BPF_FIELD_SIGNED | BPF_FIELD_LSHIFT_U64 | BPF_FIELD_RSHIFT_U64

fun field_info_code :: "bpf_field_info_kind \<Rightarrow> u32" where
  "field_info_code BPF_FIELD_BYTE_OFFSET = 0"
| "field_info_code BPF_FIELD_BYTE_SIZE = 1"
| "field_info_code BPF_FIELD_EXISTS = 2"
| "field_info_code BPF_FIELD_SIGNED = 3"
| "field_info_code BPF_FIELD_LSHIFT_U64 = 4"
| "field_info_code BPF_FIELD_RSHIFT_U64 = 5"

record core_field =
  byte_offset :: nat
  byte_size :: nat
  lshift_u64 :: nat
  rshift_u64 :: nat
  field_signed :: bool

section \<open>Storage units\<close>

text \<open>The switch over the unit's size, little-endian; a size without a case loads nothing.\<close>

definition load_unit :: "nat \<Rightarrow> u8 list \<Rightarrow> nat \<Rightarrow> u64 option" where
  "load_unit sz mem p =
     (if sz = 1 then Some (ucast (at8 mem p))
      else if sz = 2 then Some (ucast (at16 mem p))
      else if sz = 4 then Some (ucast (at32 mem p))
      else if sz = 8 then Some (at64 mem p)
      else None)"

definition store_unit :: "nat \<Rightarrow> u8 list \<Rightarrow> nat \<Rightarrow> u64 \<Rightarrow> u8 list" where
  "store_unit sz mem p v =
     (if sz = 1 then store_bytes mem p [ucast v]
      else if sz = 2 then store_bytes mem p (le_bytes16 (ucast v))
      else if sz = 4 then store_bytes mem p (le_bytes32 (ucast v))
      else if sz = 8 then store_bytes mem p (le_bytes64 v)
      else mem)"

section \<open>The macros\<close>

definition extract_bitfield :: "core_field \<Rightarrow> u64 \<Rightarrow> u64" where
  "extract_bitfield f val =
     (let val = push_bit (lshift_u64 f) val in
      if field_signed f then signed_drop_bit (rshift_u64 f) val else drop_bit (rshift_u64 f) val)"

definition BPF_CORE_READ_BITFIELD :: "core_field \<Rightarrow> u8 list \<Rightarrow> u64 option" where
  "BPF_CORE_READ_BITFIELD f s =
     (case load_unit (byte_size f) s (byte_offset f) of
        None \<Rightarrow> None
      | Some val \<Rightarrow> Some (extract_bitfield f val))"

text \<open>
  The probing variant reads through \<open>bpf_probe_read_kernel\<close> into a zeroed \<open>val\<close>: on a failed
  read \<open>val\<close> stays zero, so that the macro's value does not tell a failure from a zero.
\<close>

definition probe_unit :: "bool \<Rightarrow> core_field \<Rightarrow> u8 list \<Rightarrow> u64" where
  "probe_unit ok f s =
     (if ok then (case load_unit (byte_size f) s (byte_offset f) of None \<Rightarrow> 0 | Some v \<Rightarrow> v) else 0)"

definition BPF_CORE_READ_BITFIELD_PROBED :: "bool \<Rightarrow> core_field \<Rightarrow> u8 list \<Rightarrow> u64" where
  "BPF_CORE_READ_BITFIELD_PROBED ok f s = extract_bitfield f (probe_unit ok f s)"

definition merge_bitfield :: "core_field \<Rightarrow> u64 \<Rightarrow> u64 \<Rightarrow> u64" where
  "merge_bitfield f val nval =
     (let rpad = rshift_u64 f - lshift_u64 f;
          mask = drop_bit (lshift_u64 f) (push_bit (rshift_u64 f) (NOT 0))
      in (val AND NOT mask) OR (push_bit rpad nval AND mask))"

definition BPF_CORE_WRITE_BITFIELD :: "core_field \<Rightarrow> u64 \<Rightarrow> u8 list \<Rightarrow> u8 list option" where
  "BPF_CORE_WRITE_BITFIELD f new_val s =
     (case load_unit (byte_size f) s (byte_offset f) of
        None \<Rightarrow> None
      | Some val \<Rightarrow> Some (store_unit (byte_size f) s (byte_offset f) (merge_bitfield f val new_val)))"

section \<open>What the relocations promise\<close>

text \<open>
  The field is not empty, lies inside its unit, the unit is one that the macros know and
  inside the struct's bytes.
\<close>

definition field_ok :: "core_field \<Rightarrow> u8 list \<Rightarrow> bool" where
  "field_ok f s \<longleftrightarrow> byte_size f \<in> {1, 2, 4, 8} \<and> byte_offset f + byte_size f \<le> length s \<and>
     lshift_u64 f \<le> rshift_u64 f \<and> rshift_u64 f < 64 \<and> 64 - lshift_u64 f \<le> 8 * byte_size f"

lemma bit_merge:
  assumes "lshift_u64 f \<le> rshift_u64 f" "n < 64"
  shows "bit (merge_bitfield f val nval) n =
    (if rshift_u64 f - lshift_u64 f \<le> n \<and> n < 64 - lshift_u64 f
     then bit nval (n - (rshift_u64 f - lshift_u64 f)) else bit val n)"
  using assms by (auto simp: merge_bitfield_def Let_def bit_simps)

lemma bit_shifted_merge:
  assumes "lshift_u64 f \<le> rshift_u64 f" "rshift_u64 f \<le> j" "j < 64"
  shows "bit (push_bit (lshift_u64 f) (merge_bitfield f val nval)) j = bit nval (j - rshift_u64 f)"
proof -
  have "rshift_u64 f - lshift_u64 f \<le> j - lshift_u64 f" "j - lshift_u64 f < 64 - lshift_u64 f"
    "j - lshift_u64 f - (rshift_u64 f - lshift_u64 f) = j - rshift_u64 f"
    using assms by auto
  then show ?thesis using assms by (simp add: bit_simps bit_merge)
qed

text \<open>Reading a field after writing it gives the low bits of what was written, sign-extended if signed.\<close>

lemma extract_merge:
  assumes "lshift_u64 f \<le> rshift_u64 f" "rshift_u64 f < 64"
  shows "extract_bitfield f (merge_bitfield f val nval) =
    (if field_signed f then signed_take_bit (63 - rshift_u64 f) nval
     else take_bit (64 - rshift_u64 f) nval)" (is "?l = ?r")
proof (rule bit_word_eqI)
  fix n assume n: "n < LENGTH(64)"
  show "bit ?l n = bit ?r n"
  proof (cases "field_signed f")
    case False
    have l: "bit ?l n = bit (push_bit (lshift_u64 f) (merge_bitfield f val nval)) (rshift_u64 f + n)"
      using False by (simp add: extract_bitfield_def Let_def bit_drop_bit_eq)
    show ?thesis
    proof (cases "rshift_u64 f + n < 64")
      case True
      then show ?thesis
        using False l bit_shifted_merge [OF assms(1), of "rshift_u64 f + n" val nval]
        by (auto simp: bit_take_bit_iff)
    next
      case out: False
      then have "\<not> bit ?l n" using l bit_imp_le_length by fastforce
      then show ?thesis using out False by (auto simp: bit_take_bit_iff)
    qed
  next
    case True
    define j where "j = (if 64 - rshift_u64 f \<le> n then 63 else rshift_u64 f + n)"
    have j: "rshift_u64 f \<le> j" "j < 64" "j - rshift_u64 f = min (63 - rshift_u64 f) n"
      using assms(2) n by (auto simp: j_def)
    have "bit ?l n = bit (push_bit (lshift_u64 f) (merge_bitfield f val nval)) j"
      using True n by (auto simp: extract_bitfield_def Let_def bit_signed_drop_bit_iff j_def)
    also have "\<dots> = bit nval (min (63 - rshift_u64 f) n)"
      using bit_shifted_merge [OF assms(1) j(1,2)] j(3) by simp
    also have "\<dots> = bit ?r n" using True n by (simp add: bit_signed_take_bit_iff)
    finally show ?thesis .
  qed
qed

section \<open>Through the memory\<close>

lemma load_store:
  assumes "sz \<in> {1, 2, 4, 8}" and "p + sz \<le> length mem"
  shows "load_unit sz (store_unit sz mem p v) p = Some (take_bit (8 * sz) v)"
proof -
  have len: "length (take p mem) = p" using assms by auto
  have b: "ucast (ucast v :: u8) = take_bit 8 v" "ucast (ucast v :: u16) = take_bit 16 v"
    "ucast (ucast v :: u32) = take_bit 32 v"
    by (rule bit_word_eqI, auto simp: bit_simps dest: bit_imp_le_length)+
  have "take_bit 64 v = v" by (rule bit_word_eqI) (auto simp: bit_simps)
  moreover have "take_bit 32 v OR push_bit 32 (ucast (ucast (drop_bit 32 v) :: u32)) = v"
    using word64_halves [of v] by (simp add: b(3))
  ultimately show ?thesis
    using assms len
    by (auto simp: load_unit_def store_unit_def store_bytes_def explicit_bytes loads nth_append
        le_word16_bytes le_word32_bytes word64_halves b)
qed

lemma load_ok: "sz \<in> {1, 2, 4, 8} \<Longrightarrow> load_unit sz mem p \<noteq> None"
  by (auto simp: load_unit_def)

lemma length_store_unit:
  assumes "sz \<in> {1, 2, 4, 8}" and "p + sz \<le> length mem"
  shows "length (store_unit sz mem p v) = length mem"
  using assms by (auto simp: store_unit_def)

lemma store_unit_outside:
  assumes "sz \<in> {1, 2, 4, 8}" and "p + sz \<le> length mem" and "i < p \<or> p + sz \<le> i"
  shows "store_unit sz mem p v ! i = mem ! i"
proof -
  have "store_bytes mem p bs ! i = mem ! i" if "length bs = sz" for bs :: "u8 list"
  proof (cases "i < p")
    case True
    then show ?thesis using assms that by (simp add: store_bytes_def nth_append)
  next
    case False
    with assms(3) have "p + sz \<le> i" by auto
    then have "\<not> i - p < sz" by arith
    then show ?thesis
      using \<open>p + sz \<le> i\<close> assms(2) that by (simp add: store_bytes_def nth_append)
  qed
  then show ?thesis using assms(1) by (auto simp: store_unit_def)
qed

lemma write_then_read:
  assumes "field_ok f s"
  shows "\<exists>s'. BPF_CORE_WRITE_BITFIELD f v s = Some s' \<and> length s' = length s \<and>
    BPF_CORE_READ_BITFIELD f s' =
      Some (if field_signed f then signed_take_bit (63 - rshift_u64 f) v
            else take_bit (64 - rshift_u64 f) v) \<and>
    (\<forall>i. i < byte_offset f \<or> byte_offset f + byte_size f \<le> i \<longrightarrow> s' ! i = s ! i)"
proof -
  let ?n = "byte_size f" and ?p = "byte_offset f"
  note ok = assms [unfolded field_ok_def]
  have sz: "?n \<in> {1, 2, 4, 8}" and room: "?p + ?n \<le> length s" using ok by auto
  obtain val where val: "load_unit ?n s ?p = Some val" using load_ok [OF sz] by blast
  define s' where "s' = store_unit ?n s ?p (merge_bitfield f val v)"
  have "load_unit ?n s' ?p = Some (take_bit (8 * ?n) (merge_bitfield f val v))"
    using load_store [OF sz room] by (simp add: s'_def)
  moreover have "extract_bitfield f (take_bit (8 * ?n) w) = extract_bitfield f w" for w
  proof -
    have "push_bit (lshift_u64 f) (take_bit (8 * ?n) w) = push_bit (lshift_u64 f) w"
      by (rule bit_word_eqI) (use ok in \<open>auto simp: bit_simps\<close>)
    then show ?thesis by (simp add: extract_bitfield_def)
  qed
  ultimately show ?thesis
    using val ok extract_merge [of f val v] length_store_unit [OF sz room] store_unit_outside [OF sz room]
    by (auto simp: BPF_CORE_WRITE_BITFIELD_def BPF_CORE_READ_BITFIELD_def s'_def)
qed

text \<open>The other bits of the unit stay as they are.\<close>

lemma write_keeps_other_bits:
  assumes "field_ok f s" and "load_unit (byte_size f) s (byte_offset f) = Some val"
    and "BPF_CORE_WRITE_BITFIELD f v s = Some s'"
    and "n < 8 * byte_size f" and "n < rshift_u64 f - lshift_u64 f \<or> 64 - lshift_u64 f \<le> n"
  shows "\<exists>val'. load_unit (byte_size f) s' (byte_offset f) = Some val' \<and> bit val' n = bit val n"
proof -
  have "byte_size f \<in> {1, 2, 4, 8}" "byte_offset f + byte_size f \<le> length s" "n < 64"
    using assms(1,4) by (auto simp: field_ok_def)
  then show ?thesis
    using assms load_store [of "byte_size f" "byte_offset f" s "merge_bitfield f val v"]
    by (auto simp: BPF_CORE_WRITE_BITFIELD_def field_ok_def bit_simps bit_merge)
qed

end
