(* ===== verification/Net_Addr.thy ===== *)
theory Net_Addr
  imports Bpf_Endian
begin

text \<open>
  Addresses and prefixes as the userspace packages use them: the part of Go's \<open>net/netip\<close> that
  they call, and \<open>nboToAddr\<close>, which reads the address fields of the kernel's structs.
\<close>

section \<open>Addresses\<close>

text \<open>\<open>No_addr\<close> is the zero value, which is not valid. An IPv4 address is its value, the first octet on top.\<close>

datatype ip_addr = No_addr | Addr4 u32 | Addr6 "128 word"

definition addr_valid :: "ip_addr \<Rightarrow> bool" where
  "addr_valid a \<longleftrightarrow> a \<noteq> No_addr"

text \<open>
  \<open>nboToAddr\<close>, \<open>addrFromU32\<close>: the field holds the bytes as they stood on the wire, loaded by a
  little-endian machine; the stored bytes are the octets.
\<close>

definition nbo_to_addr :: "u32 \<Rightarrow> u32" where
  "nbo_to_addr v = (let b = le_bytes32 v in le_word32 (b ! 3) (b ! 2) (b ! 1) (b ! 0))"

lemma nbo_to_addr_swap: "nbo_to_addr v = bpf_ntohl Little False v"
  by (simp add: nbo_to_addr_def le_bytes32_def builtin_bswap32_def Let_def)

definition is_loopback :: "u32 \<Rightarrow> bool" where
  "is_loopback a \<longleftrightarrow> drop_bit 24 a = 127"

definition addr_is_private :: "u32 \<Rightarrow> bool" where
  "addr_is_private a \<longleftrightarrow> drop_bit 24 a = 10 \<or> drop_bit 20 a = 0xAC1 \<or> drop_bit 16 a = 0xC0A8"

definition is_link_local_unicast :: "u32 \<Rightarrow> bool" where
  "is_link_local_unicast a \<longleftrightarrow> drop_bit 16 a = 0xA9FE"

section \<open>Prefixes\<close>

datatype ip_prefix = No_prefix | Prefix4 u32 nat | Prefix6 "128 word" nat

definition prefix_valid :: "ip_prefix \<Rightarrow> bool" where
  "prefix_valid p \<longleftrightarrow> p \<noteq> No_prefix"

fun prefix_bits :: "ip_prefix \<Rightarrow> int" where
  "prefix_bits No_prefix = -1"
| "prefix_bits (Prefix4 _ n) = int n"
| "prefix_bits (Prefix6 _ n) = int n"

text \<open>\<open>Contains\<close>: the leading bits agree; an address of the other family is not in a prefix.\<close>

fun prefix_contains :: "ip_prefix \<Rightarrow> ip_addr \<Rightarrow> bool" where
  "prefix_contains (Prefix4 p n) (Addr4 a) \<longleftrightarrow> drop_bit (32 - n) (a XOR p) = 0"
| "prefix_contains (Prefix6 p n) (Addr6 a) \<longleftrightarrow> drop_bit (128 - n) (a XOR p) = 0"
| "prefix_contains _ _ \<longleftrightarrow> False"

lemma contains_everything: "prefix_contains (Prefix4 p 0) (Addr4 a)"
  by (auto intro!: bit_word_eqI simp: bit_simps)

end
