(* ===== verification/Traffic_Class.thy ===== *)
theory Traffic_Class
  imports Net_Addr "HOL-Library.Multiset"
begin

text \<open>
  The tables of the traffic classifier: the prefix tree (\<open>pkg/classifier/prefixtree.go\<close>), the zone
  resolver and the zone names (\<open>zone.go\<close>, \<open>traffic.go\<close>).
\<close>

section \<open>The prefix tree\<close>

datatype traffic_type =
  Unknown | SameZone | CrossAZ | CrossRegion | InternetEgress | NATGatewayEgress | VPCPeering
| TransitGateway | VPCEndpoint | CloudServicePublic | IntraNode | ServiceMeshInternal

definition is_free :: "traffic_type \<Rightarrow> bool" where
  "is_free t \<longleftrightarrow> t = SameZone \<or> t = IntraNode \<or> t = ServiceMeshInternal"

record prefix_entry =
  pe_prefix :: ip_prefix
  pe_type :: traffic_type

definition tree_add :: "ip_prefix \<Rightarrow> traffic_type \<Rightarrow> prefix_entry list \<Rightarrow> prefix_entry list" where
  "tree_add p t es = es @ [\<lparr>pe_prefix = p, pe_type = t\<rparr>]"

abbreviation entry_bits :: "prefix_entry \<Rightarrow> int" where
  "entry_bits e \<equiv> prefix_bits (pe_prefix e)"

text \<open>\<open>Build\<close>: an insertion sort in place; the inner loop moves entry \<open>j\<close> down by swaps.\<close>

fun sift_down :: "prefix_entry list \<Rightarrow> nat \<Rightarrow> prefix_entry list" where
  "sift_down es 0 = es"
| "sift_down es (Suc j) =
     (if entry_bits (es ! Suc j) > entry_bits (es ! j)
      then sift_down (es[Suc j := es ! j, j := es ! Suc j]) j
      else es)"

definition tree_build :: "prefix_entry list \<Rightarrow> prefix_entry list" where
  "tree_build es = fold (\<lambda>i es. sift_down es i) [1..<length es] es"

fun tree_lookup :: "prefix_entry list \<Rightarrow> ip_addr \<Rightarrow> traffic_type \<times> bool" where
  "tree_lookup [] addr = (Unknown, False)"
| "tree_lookup (e # es) addr =
     (if prefix_contains (pe_prefix e) addr then (pe_type e, True) else tree_lookup es addr)"

text \<open>The sort is the stable sort by descending prefix length.\<close>

abbreviation bits_order :: "prefix_entry \<Rightarrow> int" where
  "bits_order e \<equiv> - entry_bits e"

definition put_last :: "prefix_entry \<Rightarrow> prefix_entry list \<Rightarrow> prefix_entry list" where
  "put_last e es = takeWhile (\<lambda>x. entry_bits e \<le> entry_bits x) es @ e # dropWhile (\<lambda>x. entry_bits e \<le> entry_bits x) es"

lemma put_last_snoc:
  assumes "sorted (map bits_order (es @ [x]))"
  shows "put_last e (es @ [x]) = (if entry_bits x < entry_bits e then put_last e es @ [x] else es @ [x, e])"
proof (cases "\<forall>y \<in> set es. entry_bits e \<le> entry_bits y")
  case True
  then have all: "takeWhile (\<lambda>x. entry_bits e \<le> entry_bits x) es = es"
    by simp
  from True show ?thesis by (simp add: put_last_def all)
next
  case False
  then obtain y where y: "y \<in> set es" "\<not> entry_bits e \<le> entry_bits y" by blast
  with assms have "entry_bits x < entry_bits e" by (auto simp: sorted_append)
  with y show ?thesis
    by (simp add: put_last_def takeWhile_append1 [OF y(1)] dropWhile_append1 [OF y(1)])
qed

lemma sift_down_inserts:
  assumes "sorted (map bits_order es)"
  shows "sift_down (es @ e # rest) (length es) = put_last e es @ rest"
  using assms
proof (induction es arbitrary: rest rule: rev_induct)
  case (snoc x es)
  then show ?case
    by (simp add: put_last_snoc nth_append list_update_append sorted_append)
qed (simp add: put_last_def)

lemma put_last_sorted: "sorted (map bits_order es) \<Longrightarrow> sorted (map bits_order (put_last e es))"
proof (induction es rule: rev_induct)
  case (snoc x es)
  then show ?case
    by (auto simp: put_last_snoc sorted_append) (auto simp: put_last_def dest: set_takeWhileD set_dropWhileD)
qed (simp add: put_last_def)

lemma put_last_stable:
  "sorted (map bits_order es) \<Longrightarrow>
    filter (\<lambda>x. k = bits_order x) (put_last e es) = filter (\<lambda>x. k = bits_order x) (es @ [e])"
  by (induction es rule: rev_induct) (auto simp: put_last_snoc sorted_append put_last_def [of _ "[]"])

lemma mset_put_last: "mset (put_last e es) = mset (es @ [e])"
  by (simp add: put_last_def) (metis mset_append takeWhile_dropWhile_id)

lemma put_last_sort: "put_last e (sort_key bits_order es) = sort_key bits_order (es @ [e])"
proof (rule properties_for_sort_key [symmetric])
  show "filter (\<lambda>x. bits_order k = bits_order x) (put_last e (sort_key bits_order es)) =
      filter (\<lambda>x. bits_order k = bits_order x) (es @ [e])" for k
    using put_last_stable [of "sort_key bits_order es" "bits_order k" e]
      sort_key_stable [of bits_order "bits_order k" es] by (simp add: eq_commute)
qed (simp_all add: mset_put_last put_last_sorted)

lemma tree_build_sorts: "tree_build es = sort_key bits_order es"
proof -
  have "fold (\<lambda>i es. sift_down es i) [1..<n] es = sort_key bits_order (take n es) @ drop n es"
    if "1 \<le> n" "n \<le> length es" for n
    using that
  proof (induction n rule: dec_induct)
    case base
    then show ?case by (cases es) simp_all
  next
    case (step n)
    then have "drop n es = es ! n # drop (Suc n) es" by (simp add: Cons_nth_drop_Suc)
    with step show ?case
      using sift_down_inserts [of "sort_key bits_order (take n es)" "es ! n" "drop (Suc n) es"]
      by (simp add: put_last_sort take_Suc_conv_app_nth)
  qed
  from this [of "length es"] show ?thesis
    by (cases es) (simp_all add: tree_build_def)
qed

text \<open>
  What the tree answers: the type of the longest prefix that holds the address, of several such
  the one that was added first.
\<close>

definition longest_match :: "prefix_entry list \<Rightarrow> ip_addr \<Rightarrow> prefix_entry \<Rightarrow> bool" where
  "longest_match es addr e \<longleftrightarrow> (\<exists>xs ys. es = xs @ e # ys \<and> prefix_contains (pe_prefix e) addr \<and>
     (\<forall>x \<in> set xs. prefix_contains (pe_prefix x) addr \<longrightarrow> entry_bits x < entry_bits e) \<and>
     (\<forall>y \<in> set ys. prefix_contains (pe_prefix y) addr \<longrightarrow> entry_bits y \<le> entry_bits e))"

lemma tree_lookup_filter:
  "tree_lookup es addr = (case filter (\<lambda>e. prefix_contains (pe_prefix e) addr) es of
     [] \<Rightarrow> (Unknown, False) | e # _ \<Rightarrow> (pe_type e, True))"
  by (induction es) simp_all

lemma tree_lookup_none: "\<forall>e \<in> set es. \<not> prefix_contains (pe_prefix e) addr \<Longrightarrow> tree_lookup es addr = (Unknown, False)"
  by (induction es) simp_all

lemma head_of_sort:
  fixes f :: "'a \<Rightarrow> int"
  assumes "ms = xs @ e # ys" and "\<forall>x \<in> set xs. f e < f x" and "\<forall>y \<in> set ys. f e \<le> f y"
  shows "hd (sort_key f ms) = e"
proof -
  have "f (hd (sort_key f ms)) = f e"
  proof (rule antisym)
    have "e \<in> set (sort_key f ms)" using assms(1) by simp
    then obtain as bs where split: "sort_key f ms = as @ e # bs" by (metis split_list)
    moreover have "sorted (map f (sort_key f ms))" by simp
    ultimately show "f (hd (sort_key f ms)) \<le> f e" by (cases as) auto
    have "hd (sort_key f ms) \<in> set (sort_key f ms)" by (rule hd_in_set) (simp add: split)
    then have "hd (sort_key f ms) \<in> set ms" by simp
    then show "f e \<le> f (hd (sort_key f ms))" using assms by auto
  qed
  moreover have "filter (\<lambda>x. f x = f e) (sort_key f ms) = e # filter (\<lambda>x. f x = f e) ys"
    using assms sort_key_stable [of f "f e" ms] by (auto simp: filter_empty_conv)
  ultimately show ?thesis by (cases "sort_key f ms") auto
qed

lemma tree_lookup_longest:
  assumes "longest_match es addr e"
  shows "tree_lookup (tree_build es) addr = (pe_type e, True)"
proof -
  let ?in = "\<lambda>e. prefix_contains (pe_prefix e) addr"
  obtain xs ys where es: "es = xs @ e # ys" and e: "?in e" and
    xs: "\<forall>x \<in> set xs. ?in x \<longrightarrow> entry_bits x < entry_bits e" and
    ys: "\<forall>y \<in> set ys. ?in y \<longrightarrow> entry_bits y \<le> entry_bits e"
    using assms by (auto simp: longest_match_def)
  have filter: "filter ?in (tree_build es) = sort_key bits_order (filter ?in es)"
    by (simp add: tree_build_sorts filter_sort)
  have "hd (sort_key bits_order (filter ?in es)) = e"
    by (rule head_of_sort [of _ "filter ?in xs" _ "filter ?in ys"]) (use es e xs ys in auto)
  moreover have "filter ?in es \<noteq> []" using es e by simp
  ultimately show ?thesis
    by (simp add: tree_lookup_filter filter) (metis list.case_eq_if list.size(3) length_sort length_0_conv)
qed

lemma longest_match_ex:
  assumes "e \<in> set es" and "prefix_contains (pe_prefix e) addr"
  shows "\<exists>m. longest_match es addr m"
  using assms
proof (induction es arbitrary: e)
  case (Cons d es)
  show ?case
  proof (cases "\<exists>m. longest_match es addr m")
    case True
    then obtain m xs ys where m: "es = xs @ m # ys" "prefix_contains (pe_prefix m) addr"
      "\<forall>x \<in> set xs. prefix_contains (pe_prefix x) addr \<longrightarrow> entry_bits x < entry_bits m"
      "\<forall>y \<in> set ys. prefix_contains (pe_prefix y) addr \<longrightarrow> entry_bits y \<le> entry_bits m"
      by (auto simp: longest_match_def)
    show ?thesis
    proof (cases "prefix_contains (pe_prefix d) addr \<and> entry_bits m \<le> entry_bits d")
      case True
      then have "longest_match (d # es) addr d"
        unfolding longest_match_def by (intro exI [of _ "[]"] exI [of _ es]) (use m in force)
      then show ?thesis ..
    next
      case False
      then have "longest_match (d # es) addr m"
        unfolding longest_match_def by (intro exI [of _ "d # xs"] exI [of _ ys]) (use m in auto)
      then show ?thesis ..
    qed
  next
    case False
    then have "\<forall>x \<in> set es. \<not> prefix_contains (pe_prefix x) addr" using Cons.IH by blast
    with Cons.prems have "longest_match (d # es) addr d"
      unfolding longest_match_def by (intro exI [of _ "[]"] exI [of _ es]) auto
    then show ?thesis ..
  qed
qed simp

section \<open>Zones\<close>

record zone_resolver =
  zr_local_zone :: string
  zr_local_ips :: "ip_addr set"
  zr_ip_zone :: "ip_addr \<rightharpoonup> string"
  zr_cidr_zones :: "(ip_prefix \<times> string) list"

definition new_zone_resolver :: zone_resolver where
  "new_zone_resolver = \<lparr>zr_local_zone = [], zr_local_ips = {}, zr_ip_zone = Map.empty, zr_cidr_zones = []\<rparr>"

fun cidr_zone :: "(ip_prefix \<times> string) list \<Rightarrow> ip_addr \<Rightarrow> string" where
  "cidr_zone [] addr = []"
| "cidr_zone ((p, zone) # ps) addr = (if prefix_contains p addr then zone else cidr_zone ps addr)"

text \<open>\<open>Resolve\<close>: the empty string is an unknown zone.\<close>

definition resolve_zone :: "zone_resolver \<Rightarrow> ip_addr \<Rightarrow> string" where
  "resolve_zone z addr =
     (if addr \<in> zr_local_ips z then zr_local_zone z
      else case zr_ip_zone z addr of Some zone \<Rightarrow> zone | None \<Rightarrow> cidr_zone (zr_cidr_zones z) addr)"

definition add_local_ip :: "ip_addr \<Rightarrow> zone_resolver \<Rightarrow> zone_resolver" where
  "add_local_ip addr z = z\<lparr>zr_local_ips := insert addr (zr_local_ips z)\<rparr>"

definition set_ip_zone :: "ip_addr \<Rightarrow> string \<Rightarrow> zone_resolver \<Rightarrow> zone_resolver" where
  "set_ip_zone addr zone z = z\<lparr>zr_ip_zone := (zr_ip_zone z)(addr \<mapsto> zone)\<rparr>"

definition add_cidr_zone :: "ip_prefix \<Rightarrow> string \<Rightarrow> zone_resolver \<Rightarrow> zone_resolver" where
  "add_cidr_zone p zone z = z\<lparr>zr_cidr_zones := zr_cidr_zones z @ [(p, zone)]\<rparr>"

text \<open>\<open>SetCIDRZones\<close> ranges over a Go map: the argument is its entries in the order of the iteration.\<close>

definition set_cidr_zones :: "(ip_prefix \<times> string) list \<Rightarrow> zone_resolver \<Rightarrow> zone_resolver" where
  "set_cidr_zones entries z = z\<lparr>zr_cidr_zones := entries\<rparr>"

text \<open>\<open>regionFromZone\<close>: the loop from the last character down.\<close>

definition ascii_digit :: "char \<Rightarrow> bool" where
  "ascii_digit c \<longleftrightarrow> 48 \<le> (of_char c :: nat) \<and> (of_char c :: nat) \<le> 57"

definition ascii_lower :: "char \<Rightarrow> bool" where
  "ascii_lower c \<longleftrightarrow> 97 \<le> (of_char c :: nat) \<and> (of_char c :: nat) \<le> 122"

fun region_scan :: "string \<Rightarrow> nat \<Rightarrow> string" where
  "region_scan zone 0 = zone"
| "region_scan zone (Suc i) =
     (if zone ! i = CHR ''-'' then (if 0 < i then take i zone else zone)
      else if Suc i = length zone \<and> ascii_lower (zone ! i) \<and> 0 < i \<and> ascii_digit (zone ! (i - 1))
      then take (length zone - 1) zone
      else region_scan zone i)"

definition region_from_zone :: "string \<Rightarrow> string" where
  "region_from_zone zone = region_scan zone (length zone)"

text \<open>\<open>QualifyAzureZone\<close>: a bare ordinal gets its region in front.\<close>

definition qualify_azure_zone :: "string \<Rightarrow> string \<Rightarrow> string" where
  "qualify_azure_zone region zone =
     (if zone = [] then []
      else if \<not> list_all ascii_digit zone then zone
      else if region = [] then zone
      else region @ ''-'' @ zone)"

text \<open>The agent has a function of the same name of its own; \<open>None\<close> is a slice out of range.\<close>

fun last_dash :: "string \<Rightarrow> nat \<Rightarrow> string" where
  "last_dash zone 0 = zone"
| "last_dash zone (Suc i) = (if zone ! i = CHR ''-'' then take i zone else last_dash zone i)"

definition agent_region_from_zone :: "string \<Rightarrow> string option" where
  "agent_region_from_zone zone =
     (if zone = [] then Some []
      else if ascii_lower (last zone) then
        (let candidate = butlast zone
         in if candidate \<noteq> [] \<and> last candidate \<noteq> CHR ''-'' then Some candidate
            else if candidate = [] then None else Some (butlast candidate))
      else Some (last_dash zone (length zone)))"

lemma dash_class [simp]: "\<not> ascii_digit CHR ''-''" "\<not> ascii_lower CHR ''-''"
  by (simp_all add: ascii_digit_def ascii_lower_def)

text \<open>The AWS form of a zone: a digit and a letter at the end.\<close>

definition aws_zone :: "string \<Rightarrow> bool" where
  "aws_zone zone \<longleftrightarrow> 2 \<le> length zone \<and> ascii_lower (last zone) \<and> ascii_digit (last (butlast zone))"

lemma aws_zone_snoc: "aws_zone (xs @ [c]) \<longleftrightarrow> xs \<noteq> [] \<and> ascii_lower c \<and> ascii_digit (last xs)"
  by (auto simp: aws_zone_def Suc_le_eq)

lemma region_scan_step:
  assumes "c \<noteq> CHR ''-''" and "u = [] \<longrightarrow> \<not> aws_zone (xs @ [c])"
  shows "region_scan (xs @ c # u) (Suc (length xs)) = region_scan (xs @ c # u) (length xs)"
  using assms by (auto simp: aws_zone_snoc nth_append last_conv_nth)

lemma region_scan_skip:
  assumes "CHR ''-'' \<notin> set t" and "u = [] \<longrightarrow> \<not> aws_zone (s @ t)"
  shows "region_scan (s @ t @ u) (length (s @ t)) = region_scan (s @ t @ u) (length s)"
  using assms
proof (induction t arbitrary: u rule: rev_induct)
  case (snoc c t)
  have "region_scan (s @ t @ c # u) (Suc (length (s @ t))) = region_scan (s @ t @ c # u) (length (s @ t))"
    using region_scan_step [of c u "s @ t"] snoc.prems by (auto simp del: region_scan.simps)
  also have "\<dots> = region_scan (s @ t @ c # u) (length s)"
    by (rule snoc.IH) (use snoc.prems in auto)
  finally show ?case by simp
qed simp

lemma region_of_aws:
  assumes "aws_zone zone"
  shows "region_from_zone zone = butlast zone"
proof -
  obtain xs c where zone: "zone = xs @ [c]" and c: "xs \<noteq> []" "ascii_lower c" "ascii_digit (last xs)"
    using assms by (metis aws_zone_snoc append_butlast_last_id aws_zone_def list.size(3) not_numeral_le_zero)
  then have "c \<noteq> CHR ''-''" by auto
  with c show ?thesis by (auto simp: zone region_from_zone_def nth_append last_conv_nth)
qed

lemma region_of_suffix:
  assumes "region \<noteq> []" and "CHR ''-'' \<notin> set suffix" and "\<not> aws_zone (region @ ''-'' @ suffix)"
  shows "region_from_zone (region @ ''-'' @ suffix) = region"
  using region_scan_skip [of suffix "[]" "region @ ''-''"] assms
  by (simp add: region_from_zone_def nth_append)

lemma agent_region_of_aws:
  assumes "aws_zone zone"
  shows "agent_region_from_zone zone = Some (butlast zone)"
proof -
  have "butlast zone \<noteq> []" using assms by (cases zone rule: rev_cases) (auto simp: aws_zone_def)
  moreover have "zone \<noteq> []" "last (butlast zone) \<noteq> CHR ''-''" using assms by (auto simp: aws_zone_def)
  ultimately show ?thesis using assms by (simp add: aws_zone_def agent_region_from_zone_def Let_def)
qed

lemma last_dash_skip:
  "CHR ''-'' \<notin> set t \<Longrightarrow> last_dash (s @ t @ u) (length (s @ t)) = last_dash (s @ t @ u) (length s)"
proof (induction t arbitrary: u rule: rev_induct)
  case (snoc c t)
  then show ?case using snoc.IH [of "c # u"] by (auto simp: nth_append)
qed simp

lemma agent_region_of_ordinal:
  assumes "CHR ''-'' \<notin> set suffix" and "suffix \<noteq> []" and "\<not> ascii_lower (last suffix)"
  shows "agent_region_from_zone (region @ ''-'' @ suffix) = Some region"
  using last_dash_skip [of suffix "region @ ''-''" "[]"] assms
  by (simp add: agent_region_from_zone_def nth_append)

lemma agent_region_of_letter:
  "ascii_lower c \<Longrightarrow> agent_region_from_zone (region @ [CHR ''-'', c]) = Some region"
  by (simp add: agent_region_from_zone_def butlast_append Let_def)

lemma azure_region:
  assumes "region \<noteq> []" "ordinal \<noteq> []" "list_all ascii_digit ordinal"
  shows "region_from_zone (qualify_azure_zone region ordinal) = region"
    and "agent_region_from_zone (qualify_azure_zone region ordinal) = Some region"
proof -
  have digit: "\<not> ascii_lower c" if "ascii_digit c" for c using that by (simp add: ascii_digit_def ascii_lower_def)
  have dash: "CHR ''-'' \<notin> set ordinal" using assms(3) by (auto simp: list_all_iff)
  moreover have last: "\<not> ascii_lower (last ordinal)" using assms(2,3) digit by (simp add: list_all_iff)
  moreover from last have "\<not> aws_zone (region @ ''-'' @ ordinal)" using assms(2) by (simp add: aws_zone_def)
  ultimately show "region_from_zone (qualify_azure_zone region ordinal) = region"
    "agent_region_from_zone (qualify_azure_zone region ordinal) = Some region"
    using region_of_suffix [of region ordinal] agent_region_of_ordinal [of ordinal region] assms
    by (simp_all add: qualify_azure_zone_def)
qed

lemma letter_region:
  assumes "region \<noteq> []" "ascii_lower l"
  shows "region_from_zone (region @ ''-'' @ [l]) = region" "agent_region_from_zone (region @ ''-'' @ [l]) = Some region"
proof -
  have "l \<noteq> CHR ''-''" using assms(2) by auto
  moreover have "\<not> aws_zone (region @ ''-'' @ [l])" using aws_zone_snoc [of "region @ ''-''" l] by simp
  ultimately show "region_from_zone (region @ ''-'' @ [l]) = region" "agent_region_from_zone (region @ ''-'' @ [l]) = Some region"
    using region_of_suffix [of region "[l]"] agent_region_of_letter [OF assms(2), of region] assms(1) by simp_all
qed

end
