(* ===== verification/Classifier.thy ===== *)
theory Classifier
  imports Traffic_Class
begin

text \<open>
  The classifier proper (\<open>pkg/classifier/traffic.go\<close>): the topology setters, which rebuild the
  prefix tree from the latest sets, and the decision of \<open>Classify\<close>. Every state that the setters
  reach is \<open>topology_current\<close>; the answers rest on that.
\<close>

section \<open>State and setters\<close>

record flow_info =
  fi_src_ip :: u32
  fi_dst_ip :: u32
  fi_original_dst_ip :: u32
  fi_src_port :: u16
  fi_dst_port :: u16
  fi_original_dst_port :: u16
  fi_intra_node :: bool
  fi_is_sidecar :: bool

record class_result =
  cr_type :: traffic_type
  cr_src_zone :: string
  cr_dst_zone :: string

record classifier =
  cf_resolver :: zone_resolver
  cf_prefix_tree :: "prefix_entry list"
  cf_peering_cidrs :: "ip_prefix list"
  cf_tgw_cidrs :: "ip_prefix list"
  cf_endpoint_cidrs :: "ip_prefix list"
  cf_cluster_prefixes :: "ip_prefix list"
  cf_nat_gateway_ips :: "ip_addr set"
  cf_default_route_nat :: bool

definition new_classifier :: "zone_resolver \<Rightarrow> classifier" where
  "new_classifier z = \<lparr>cf_resolver = z, cf_prefix_tree = [], cf_peering_cidrs = [], cf_tgw_cidrs = [],
     cf_endpoint_cidrs = [], cf_cluster_prefixes = [], cf_nat_gateway_ips = {}, cf_default_route_nat = False\<rparr>"

definition clone_prefixes :: "ip_prefix list \<Rightarrow> ip_prefix list" where
  "clone_prefixes cidrs = filter prefix_valid cidrs"

definition rebuild_prefix_tree :: "classifier \<Rightarrow> classifier" where
  "rebuild_prefix_tree c =
     (let t1 = fold (\<lambda>p. tree_add p VPCPeering) (cf_peering_cidrs c) [];
          t2 = fold (\<lambda>p. tree_add p TransitGateway) (cf_tgw_cidrs c) t1;
          t3 = fold (\<lambda>p. tree_add p VPCEndpoint) (cf_endpoint_cidrs c) t2
      in c\<lparr>cf_prefix_tree := tree_build t3\<rparr>)"

definition set_vpc_peering_cidrs :: "ip_prefix list \<Rightarrow> classifier \<Rightarrow> classifier" where
  "set_vpc_peering_cidrs cidrs c = rebuild_prefix_tree (c\<lparr>cf_peering_cidrs := clone_prefixes cidrs\<rparr>)"

definition set_transit_gateway_cidrs :: "ip_prefix list \<Rightarrow> classifier \<Rightarrow> classifier" where
  "set_transit_gateway_cidrs cidrs c = rebuild_prefix_tree (c\<lparr>cf_tgw_cidrs := clone_prefixes cidrs\<rparr>)"

definition set_vpc_endpoint_cidrs :: "ip_prefix list \<Rightarrow> classifier \<Rightarrow> classifier" where
  "set_vpc_endpoint_cidrs cidrs c = rebuild_prefix_tree (c\<lparr>cf_endpoint_cidrs := clone_prefixes cidrs\<rparr>)"

definition set_nat_gateway_ips :: "ip_addr list \<Rightarrow> classifier \<Rightarrow> classifier" where
  "set_nat_gateway_ips ips c = c\<lparr>cf_nat_gateway_ips := set ips\<rparr>"

definition set_default_route_nat :: "bool \<Rightarrow> classifier \<Rightarrow> classifier" where
  "set_default_route_nat via c = c\<lparr>cf_default_route_nat := via\<rparr>"

definition keep_prefix :: "ip_prefix \<Rightarrow> ip_prefix list \<Rightarrow> ip_prefix list" where
  "keep_prefix p out = (if \<not> prefix_valid p then out else if p \<in> set out then out else out @ [p])"

definition set_cluster_cidrs :: "ip_prefix list \<Rightarrow> classifier \<Rightarrow> classifier" where
  "set_cluster_cidrs cidrs c = c\<lparr>cf_cluster_prefixes := fold keep_prefix cidrs []\<rparr>"

definition add_cluster_cidr :: "ip_prefix \<Rightarrow> classifier \<Rightarrow> classifier" where
  "add_cluster_cidr p c =
     (if \<not> prefix_valid p \<or> p \<in> set (cf_cluster_prefixes c) then c
      else c\<lparr>cf_cluster_prefixes := cf_cluster_prefixes c @ [p]\<rparr>)"

section \<open>The decision\<close>

definition is_cluster_internal :: "classifier \<Rightarrow> ip_addr \<Rightarrow> bool" where
  "is_cluster_internal c addr \<longleftrightarrow> list_ex (\<lambda>p. prefix_contains p addr) (cf_cluster_prefixes c)"

text \<open>\<open>isPrivate\<close> of the package: \<open>IsPrivate\<close> of the address, loopback and link-local.\<close>

definition is_private :: "u32 \<Rightarrow> bool" where
  "is_private a \<longleftrightarrow> addr_is_private a \<or> is_loopback a \<or> is_link_local_unicast a"

definition classify_internal :: "classifier \<Rightarrow> flow_info \<Rightarrow> u32 \<Rightarrow> class_result" where
  "classify_internal c flow dst =
     (let src_zone = resolve_zone (cf_resolver c) (Addr4 (nbo_to_addr (fi_src_ip flow)));
          dst_zone = resolve_zone (cf_resolver c) (Addr4 dst)
      in \<lparr>cr_type =
            (if src_zone = [] \<or> dst_zone = [] then Unknown
             else if src_zone = dst_zone then SameZone
             else if region_from_zone src_zone = region_from_zone dst_zone then CrossAZ
             else CrossRegion),
          cr_src_zone = src_zone, cr_dst_zone = dst_zone\<rparr>)"

definition classify_private :: "classifier \<Rightarrow> flow_info \<Rightarrow> u32 \<Rightarrow> class_result" where
  "classify_private c flow dst =
     (let (tt, matched) = tree_lookup (cf_prefix_tree c) (Addr4 dst)
      in if Addr4 dst \<in> cf_nat_gateway_ips c then \<lparr>cr_type = NATGatewayEgress, cr_src_zone = [], cr_dst_zone = []\<rparr>
         else if matched then \<lparr>cr_type = tt, cr_src_zone = [], cr_dst_zone = []\<rparr>
         else classify_internal c flow dst)"

definition classify_external :: "classifier \<Rightarrow> u32 \<Rightarrow> class_result" where
  "classify_external c dst =
     (let (tt, matched) = tree_lookup (cf_prefix_tree c) (Addr4 dst)
      in if matched then \<lparr>cr_type = tt, cr_src_zone = [], cr_dst_zone = []\<rparr>
         else if cf_default_route_nat c then \<lparr>cr_type = NATGatewayEgress, cr_src_zone = [], cr_dst_zone = []\<rparr>
         else \<lparr>cr_type = InternetEgress, cr_src_zone = [], cr_dst_zone = []\<rparr>)"

definition classify :: "classifier \<Rightarrow> flow_info \<Rightarrow> class_result" where
  "classify c flow =
     (let dst = nbo_to_addr (fi_dst_ip flow)
      in if fi_is_sidecar flow then \<lparr>cr_type = ServiceMeshInternal, cr_src_zone = [], cr_dst_zone = []\<rparr>
         else if fi_intra_node flow \<or> is_loopback dst then \<lparr>cr_type = IntraNode, cr_src_zone = [], cr_dst_zone = []\<rparr>
         else if is_cluster_internal c (Addr4 dst) then classify_internal c flow dst
         else if is_private dst then classify_private c flow dst
         else classify_external c dst)"

section \<open>Any sequence of setters\<close>

datatype topology_op =
  Set_vpc_peering "ip_prefix list"
| Set_transit_gateway "ip_prefix list"
| Set_vpc_endpoint "ip_prefix list"
| Set_nat_ips "ip_addr list"
| Set_default_nat bool
| Set_cluster "ip_prefix list"
| Add_cluster ip_prefix

fun topology_step :: "topology_op \<Rightarrow> classifier \<Rightarrow> classifier" where
  "topology_step (Set_vpc_peering ps) = set_vpc_peering_cidrs ps"
| "topology_step (Set_transit_gateway ps) = set_transit_gateway_cidrs ps"
| "topology_step (Set_vpc_endpoint ps) = set_vpc_endpoint_cidrs ps"
| "topology_step (Set_nat_ips ips) = set_nat_gateway_ips ips"
| "topology_step (Set_default_nat via) = set_default_route_nat via"
| "topology_step (Set_cluster ps) = set_cluster_cidrs ps"
| "topology_step (Add_cluster p) = add_cluster_cidr p"

text \<open>The latest argument of each setter, and the entries they make.\<close>

fun latest_peering :: "topology_op \<Rightarrow> ip_prefix list \<Rightarrow> ip_prefix list" where
  "latest_peering (Set_vpc_peering ps) _ = ps"
| "latest_peering _ ps = ps"

fun latest_tgw :: "topology_op \<Rightarrow> ip_prefix list \<Rightarrow> ip_prefix list" where
  "latest_tgw (Set_transit_gateway ps) _ = ps"
| "latest_tgw _ ps = ps"

fun latest_endpoint :: "topology_op \<Rightarrow> ip_prefix list \<Rightarrow> ip_prefix list" where
  "latest_endpoint (Set_vpc_endpoint ps) _ = ps"
| "latest_endpoint _ ps = ps"

definition entries_of :: "traffic_type \<Rightarrow> ip_prefix list \<Rightarrow> prefix_entry list" where
  "entries_of t ps = map (\<lambda>p. \<lparr>pe_prefix = p, pe_type = t\<rparr>) (filter prefix_valid ps)"

definition topology_of :: "topology_op list \<Rightarrow> prefix_entry list" where
  "topology_of ops = entries_of VPCPeering (fold latest_peering ops []) @
     entries_of TransitGateway (fold latest_tgw ops []) @ entries_of VPCEndpoint (fold latest_endpoint ops [])"

lemma fold_tree_add: "fold (\<lambda>p. tree_add p t) ps es = es @ map (\<lambda>p. \<lparr>pe_prefix = p, pe_type = t\<rparr>) ps"
  by (induction ps arbitrary: es) (simp_all add: tree_add_def)

lemma rebuild_simps [simp]:
  "cf_prefix_tree (rebuild_prefix_tree c) = tree_build
     (map (\<lambda>p. \<lparr>pe_prefix = p, pe_type = VPCPeering\<rparr>) (cf_peering_cidrs c) @
      map (\<lambda>p. \<lparr>pe_prefix = p, pe_type = TransitGateway\<rparr>) (cf_tgw_cidrs c) @
      map (\<lambda>p. \<lparr>pe_prefix = p, pe_type = VPCEndpoint\<rparr>) (cf_endpoint_cidrs c))"
  "cf_peering_cidrs (rebuild_prefix_tree c) = cf_peering_cidrs c" "cf_tgw_cidrs (rebuild_prefix_tree c) = cf_tgw_cidrs c"
  "cf_endpoint_cidrs (rebuild_prefix_tree c) = cf_endpoint_cidrs c" "cf_resolver (rebuild_prefix_tree c) = cf_resolver c"
  "cf_cluster_prefixes (rebuild_prefix_tree c) = cf_cluster_prefixes c"
  by (simp_all add: rebuild_prefix_tree_def Let_def fold_tree_add)

definition topology_current :: "topology_op list \<Rightarrow> classifier \<Rightarrow> bool" where
  "topology_current ops c \<longleftrightarrow> cf_prefix_tree c = tree_build (topology_of ops) \<and>
     cf_peering_cidrs c = filter prefix_valid (fold latest_peering ops []) \<and>
     cf_tgw_cidrs c = filter prefix_valid (fold latest_tgw ops []) \<and>
     cf_endpoint_cidrs c = filter prefix_valid (fold latest_endpoint ops []) \<and>
     distinct (cf_cluster_prefixes c) \<and> (\<forall>p \<in> set (cf_cluster_prefixes c). prefix_valid p)"

lemma keep_prefix_set: "set (keep_prefix p out) = set out \<union> {q. q = p \<and> prefix_valid q}"
  by (auto simp: keep_prefix_def)

lemma keep_prefix_distinct: "distinct out \<Longrightarrow> distinct (keep_prefix p out)"
  by (simp add: keep_prefix_def)

lemma cluster_set:
  assumes "distinct out"
  shows "distinct (fold keep_prefix cidrs out)"
    and "set (fold keep_prefix cidrs out) = set out \<union> {p \<in> set cidrs. prefix_valid p}"
  using assms
proof (induction cidrs arbitrary: out)
  case (Cons p cidrs)
  {
    case 1
    then show ?case using Cons.IH(1) [OF keep_prefix_distinct] by simp
  next
    case 2
    then show ?case using Cons.IH(2) [OF keep_prefix_distinct, of out p] keep_prefix_set [of p out] by auto
  }
qed simp_all

text \<open>Setters that leave the prefix sets alone keep the tree; the others rebuild it.\<close>

lemma cluster_step:
  assumes "topology_current ops c" and "cf_prefix_tree d = cf_prefix_tree c" "cf_peering_cidrs d = cf_peering_cidrs c"
    "cf_tgw_cidrs d = cf_tgw_cidrs c" "cf_endpoint_cidrs d = cf_endpoint_cidrs c"
    and "distinct (cf_cluster_prefixes d)" "\<forall>p \<in> set (cf_cluster_prefixes d). prefix_valid p"
    and "latest_peering op = id" "latest_tgw op = id" "latest_endpoint op = id"
  shows "topology_current (ops @ [op]) d"
  using assms by (simp add: topology_current_def topology_of_def)

lemma topology_step_current:
  assumes "topology_current ops c"
  shows "topology_current (ops @ [op]) (topology_step op c)"
proof (cases op)
  case (Set_cluster ps)
  show ?thesis
    by (rule cluster_step [OF assms])
      (use cluster_set [of "[]" ps] in \<open>auto simp: Set_cluster set_cluster_cidrs_def\<close>)
next
  case (Add_cluster p)
  show ?thesis
    by (rule cluster_step [OF assms])
      (use assms in \<open>auto simp: Add_cluster add_cluster_cidr_def topology_current_def\<close>)
next
  case (Set_nat_ips ips)
  show ?thesis
    by (rule cluster_step [OF assms])
      (use assms in \<open>auto simp: Set_nat_ips set_nat_gateway_ips_def topology_current_def\<close>)
next
  case (Set_default_nat via)
  show ?thesis
    by (rule cluster_step [OF assms])
      (use assms in \<open>auto simp: Set_default_nat set_default_route_nat_def topology_current_def\<close>)
qed (use assms in \<open>simp_all add: topology_current_def topology_of_def entries_of_def set_vpc_peering_cidrs_def
    set_transit_gateway_cidrs_def set_vpc_endpoint_cidrs_def clone_prefixes_def\<close>)

lemma run_topology: "topology_current ops (fold topology_step ops (new_classifier z))"
proof (induction ops rule: rev_induct)
  case Nil
  show ?case by (simp add: topology_current_def topology_of_def entries_of_def new_classifier_def tree_build_def)
next
  case (snoc op ops)
  then show ?case using topology_step_current by simp
qed

lemma run_resolver [simp]: "cf_resolver (fold topology_step ops c) = cf_resolver c"
proof (induction ops arbitrary: c)
  case (Cons op ops)
  have "cf_resolver (topology_step op c) = cf_resolver c"
    by (cases op) (simp_all add: set_vpc_peering_cidrs_def set_transit_gateway_cidrs_def set_vpc_endpoint_cidrs_def
        set_nat_gateway_ips_def set_default_route_nat_def set_cluster_cidrs_def add_cluster_cidr_def)
  with Cons show ?case by simp
qed simp

section \<open>What is free, what is charged\<close>

lemma topology_types: "e \<in> set (topology_of ops) \<Longrightarrow> pe_type e \<in> {VPCPeering, TransitGateway, VPCEndpoint}"
  by (auto simp: topology_of_def entries_of_def)

lemma tree_types:
  assumes "topology_current ops c" and "tree_lookup (cf_prefix_tree c) addr = (t, True)"
  shows "t \<in> {VPCPeering, TransitGateway, VPCEndpoint}"
proof -
  have "fst (tree_lookup es addr) \<in> pe_type ` set es" if "snd (tree_lookup es addr)" for es
    using that by (induction es) (auto split: if_splits)
  from this [of "cf_prefix_tree c"] assms have "t \<in> pe_type ` set (tree_build (topology_of ops))"
    by (simp add: topology_current_def)
  then show ?thesis using topology_types by (auto simp: tree_build_sorts)
qed

lemma internal_free:
  "is_free (cr_type (classify_internal c flow dst)) \<longleftrightarrow>
    cr_src_zone (classify_internal c flow dst) \<noteq> [] \<and>
    cr_src_zone (classify_internal c flow dst) = cr_dst_zone (classify_internal c flow dst)"
  by (simp add: classify_internal_def Let_def is_free_def)

lemma matched_charged:
  assumes "topology_current ops c" and "snd (tree_lookup (cf_prefix_tree c) addr)"
  shows "\<not> is_free (fst (tree_lookup (cf_prefix_tree c) addr))"
  using tree_types [OF assms(1), of addr "fst (tree_lookup (cf_prefix_tree c) addr)"] assms(2)
  by (auto simp: is_free_def prod_eq_iff)

lemma free_exactly:
  assumes "topology_current ops c"
  shows "is_free (cr_type (classify c flow)) \<longleftrightarrow>
    fi_is_sidecar flow \<or> fi_intra_node flow \<or> is_loopback (nbo_to_addr (fi_dst_ip flow)) \<or>
    cr_src_zone (classify c flow) \<noteq> [] \<and> cr_src_zone (classify c flow) = cr_dst_zone (classify c flow)"
  using matched_charged [OF assms] internal_free
  by (auto simp: classify_def classify_private_def classify_external_def Let_def split_beta is_free_def)

end
