(* ===== verification/Forgetful_Map.thy ===== *)
theory Forgetful_Map
  imports Tollwing_Prelude
begin

text \<open>
  A cache may forget, but what it holds is what was stored last. The locale states this for one
  operation and derives it for runs; both caches of userspace are interpretations.
\<close>

locale forgetful_map =
  fixes act :: "'op \<Rightarrow> 's \<Rightarrow> 's" and held :: "'s \<Rightarrow> 'k \<rightharpoonup> 'v"
    and effect :: "'op \<Rightarrow> ('k \<rightharpoonup> 'v) \<Rightarrow> ('k \<rightharpoonup> 'v)" and usable :: "'s \<Rightarrow> bool"
  assumes act_held: "usable s \<Longrightarrow> held s \<subseteq>\<^sub>m m \<Longrightarrow> held (act op s) \<subseteq>\<^sub>m effect op m"
    and act_usable: "usable s \<Longrightarrow> usable (act op s)"
begin

lemma run_usable: "usable s \<Longrightarrow> usable (fold act ops s)"
  by (induction ops arbitrary: s) (simp_all add: act_usable)

lemma run_held: "usable s \<Longrightarrow> held s \<subseteq>\<^sub>m m \<Longrightarrow> held (fold act ops s) \<subseteq>\<^sub>m fold effect ops m"
  by (induction ops arbitrary: s m) (simp_all add: act_held act_usable)

text \<open>A lookup gives nothing or what an unbounded map would give.\<close>

lemma nothing_else:
  assumes "usable s" and "held s = Map.empty"
  shows "held (fold act ops s) k = None \<or> held (fold act ops s) k = fold effect ops Map.empty k"
  using run_held [OF assms(1), of Map.empty ops] assms(2) by (auto simp: map_le_def domIff)

end

end
