(* ===== verification/Intent_Cache.thy ===== *)
theory Intent_Cache
  imports Lifetimes Forgetful_Map
begin

text \<open>
  The intent cache (\<open>pkg/intent/cache.go\<close>) and the two places of the agent that use it: from the
  connection identity of a flow to the destination that was dialed before DNAT.
\<close>

section \<open>The cache\<close>

record intent_key =
  ik_src_ip :: u32
  ik_dst_ip :: u32
  ik_src_port :: u16
  ik_dst_port :: u16
  ik_pid :: u32
  ik_protocol :: u8
  ik_direction :: u8

record intent_dst =
  id_ip :: u32
  id_port :: u16

record intent_cache =
  ic_max :: nat
  ic_cur :: "intent_key \<rightharpoonup> intent_dst"
  ic_prev :: "intent_key \<rightharpoonup> intent_dst"

definition default_max :: int where
  "default_max = 2 ^ 18"

definition new_intent_cache :: "int \<Rightarrow> intent_cache" where
  "new_intent_cache m = \<lparr>ic_max = nat (if m \<le> 0 then default_max else m), ic_cur = Map.empty, ic_prev = Map.empty\<rparr>"

definition intent_put :: "intent_key \<Rightarrow> intent_dst \<Rightarrow> intent_cache \<Rightarrow> intent_cache" where
  "intent_put k d c =
     (let c1 = (if ic_max c \<le> card (dom (ic_cur c)) then c\<lparr>ic_prev := ic_cur c, ic_cur := Map.empty\<rparr> else c)
      in c1\<lparr>ic_cur := (ic_cur c1)(k \<mapsto> d), ic_prev := (ic_prev c1)(k := None)\<rparr>)"

definition intent_get :: "intent_key \<Rightarrow> intent_cache \<Rightarrow> intent_dst option" where
  "intent_get k c = (case ic_cur c k of Some d \<Rightarrow> Some d | None \<Rightarrow> ic_prev c k)"

definition intent_delete :: "intent_key \<Rightarrow> intent_cache \<Rightarrow> intent_cache" where
  "intent_delete k c = c\<lparr>ic_cur := (ic_cur c)(k := None), ic_prev := (ic_prev c)(k := None)\<rparr>"

definition intent_len :: "intent_cache \<Rightarrow> nat" where
  "intent_len c = card (dom (ic_cur c)) + card (dom (ic_prev c))"

section \<open>Any sequence of operations\<close>

datatype intent_op = Put intent_key intent_dst | Delete intent_key

fun intent_step :: "intent_op \<Rightarrow> intent_cache \<Rightarrow> intent_cache" where
  "intent_step (Put k d) c = intent_put k d c"
| "intent_step (Delete k) c = intent_delete k c"

text \<open>The map that the cache stands for, were it unbounded.\<close>

fun intent_map :: "intent_op \<Rightarrow> (intent_key \<rightharpoonup> intent_dst) \<Rightarrow> (intent_key \<rightharpoonup> intent_dst)" where
  "intent_map (Put k d) m = m(k \<mapsto> d)"
| "intent_map (Delete k) m = m(k := None)"

interpretation intents: forgetful_map intent_step "\<lambda>c k. intent_get k c" intent_map "\<lambda>_. True"
proof unfold_locales
  show "(\<lambda>k. intent_get k (intent_step op c)) \<subseteq>\<^sub>m intent_map op m" if "(\<lambda>k. intent_get k c) \<subseteq>\<^sub>m m"
    for c :: intent_cache and m op
  proof -
    have old: "m k = Some d" if "intent_get k c = Some d" for k d
      using that \<open>(\<lambda>k. intent_get k c) \<subseteq>\<^sub>m m\<close> by (metis (full_types) domI map_le_def)
    show ?thesis
    proof (cases op)
      case (Put j d)
      then show ?thesis
        using old by (auto simp: map_le_def intent_get_def intent_put_def Let_def split: option.splits if_splits)
    next
      case (Delete j)
      then show ?thesis
        using old by (auto simp: map_le_def intent_get_def intent_delete_def split: option.splits if_splits)
    qed
  qed
qed simp

text \<open>The bound of the two generations, and no key in both.\<close>

definition intent_ok :: "intent_cache \<Rightarrow> bool" where
  "intent_ok c \<longleftrightarrow> 0 < ic_max c \<and> finite (dom (ic_cur c)) \<and> finite (dom (ic_prev c)) \<and>
     card (dom (ic_cur c)) \<le> ic_max c \<and> card (dom (ic_prev c)) \<le> ic_max c \<and>
     dom (ic_cur c) \<inter> dom (ic_prev c) = {}"

lemma card_drop_key: "finite (dom m) \<Longrightarrow> card (dom m - {k}) \<le> card (dom m)"
  by (simp add: card_mono)

lemma put_ok:
  assumes "intent_ok c"
  shows "intent_ok (intent_put k d c)"
proof (cases "ic_max c \<le> card (dom (ic_cur c))")
  case True
  then show ?thesis
    using assms card_drop_key [of "ic_cur c" k] by (auto simp: intent_ok_def intent_put_def Let_def)
next
  case False
  then have "card (insert k (dom (ic_cur c))) \<le> ic_max c"
    using assms card_insert_le_m1 [of "ic_max c" "dom (ic_cur c)" k] by (simp add: intent_ok_def)
  with False show ?thesis
    using assms card_drop_key [of "ic_prev c" k] by (auto simp: intent_ok_def intent_put_def)
qed

lemma delete_ok: "intent_ok c \<Longrightarrow> intent_ok (intent_delete k c)"
  using card_drop_key [of "ic_cur c" k] card_drop_key [of "ic_prev c" k]
  by (auto simp: intent_ok_def intent_delete_def)

interpretation intent_bound: kept_by_steps intent_step intent_ok "\<lambda>_. True"
proof unfold_locales
  show "intent_ok (intent_step op c)" if "intent_ok c" for op c
    using that by (cases op) (simp_all add: put_ok delete_ok)
qed

lemma new_intent_ok: "intent_ok (new_intent_cache n)"
  by (simp add: intent_ok_def new_intent_cache_def default_max_def)

lemma intent_len_bound: "intent_ok c \<Longrightarrow> intent_len c \<le> 2 * ic_max c"
  by (simp add: intent_len_def intent_ok_def)

lemma step_max [simp]: "ic_max (intent_step op c) = ic_max c"
  by (cases op) (simp_all add: intent_put_def intent_delete_def Let_def)

lemma run_max [simp]: "ic_max (fold intent_step ops c) = ic_max c"
  by (induction ops arbitrary: c) simp_all

section \<open>How long an entry stays\<close>

text \<open>
  After \<open>n\<close> puts of other keys an entry is in the current generation, or in the previous one with at
  most \<open>n\<close> entries in the current one: it takes more than \<open>ic_max\<close> puts to lose it.
\<close>

fun puts :: "intent_op list \<Rightarrow> nat" where
  "puts [] = 0"
| "puts (Put k d # ops) = Suc (puts ops)"
| "puts (Delete k # ops) = puts ops"

lemma puts_append [simp]: "puts (xs @ ys) = puts xs + puts ys"
  by (induction xs rule: puts.induct) simp_all

fun on_key :: "intent_key \<Rightarrow> intent_op \<Rightarrow> bool" where
  "on_key k (Put j d) \<longleftrightarrow> j = k"
| "on_key k (Delete j) \<longleftrightarrow> j = k"

definition kept_entry :: "intent_key \<Rightarrow> intent_dst \<Rightarrow> nat \<Rightarrow> intent_cache \<Rightarrow> bool" where
  "kept_entry k d n c \<longleftrightarrow> finite (dom (ic_cur c)) \<and>
     (ic_cur c k = Some d \<or> ic_cur c k = None \<and> ic_prev c k = Some d \<and> card (dom (ic_cur c)) \<le> n)"

lemma put_kept: "kept_entry k d n (intent_put k d c)" if "finite (dom (ic_cur c))"
  using that by (simp add: kept_entry_def intent_put_def Let_def)

lemma step_kept:
  assumes "kept_entry k d n c" and "\<not> on_key k op" and "n + puts [op] \<le> ic_max c"
  shows "kept_entry k d (n + puts [op]) (intent_step op c)"
proof (cases op)
  case (Put j x)
  have "card (insert j (dom (ic_cur c))) \<le> Suc (card (dom (ic_cur c)))" by (rule card_insert_le_m1) simp_all
  with assms Put show ?thesis by (auto simp: kept_entry_def intent_put_def Let_def)
next
  case (Delete j)
  have "card (dom (ic_cur c) - {j}) \<le> card (dom (ic_cur c))" if "finite (dom (ic_cur c))" using that by (rule card_drop_key)
  with assms Delete show ?thesis by (auto simp: kept_entry_def intent_delete_def)
qed

lemma run_kept:
  assumes "kept_entry k d n c" and "\<forall>op \<in> set ops. \<not> on_key k op" and "n + puts ops \<le> ic_max c"
  shows "kept_entry k d (n + puts ops) (fold intent_step ops c)"
  using assms
proof (induction ops arbitrary: n c)
  case (Cons op ops)
  have "puts (op # ops) = puts [op] + puts ops" using puts_append [of "[op]" ops] by simp
  with Cons.prems Cons.IH [OF step_kept, of n c op] show ?case by (simp add: add.assoc)
qed simp

lemma kept_get: "kept_entry k d n c \<Longrightarrow> intent_get k c = Some d"
  by (auto simp: kept_entry_def intent_get_def)

lemma put_stays:
  assumes "intent_ok c" and "\<forall>op \<in> set ops. \<not> on_key k op" "puts ops \<le> ic_max c"
  shows "intent_get k (fold intent_step ops (intent_put k d c)) = Some d"
proof -
  have "kept_entry k d 0 (intent_put k d c)" using assms(1) by (intro put_kept) (simp add: intent_ok_def)
  moreover have "ic_max (intent_put k d c) = ic_max c" by (simp add: intent_put_def Let_def)
  ultimately have "kept_entry k d (0 + puts ops) (fold intent_step ops (intent_put k d c))"
    using assms(2,3) by (intro run_kept) simp_all
  then show ?thesis by (rule kept_get)
qed

section \<open>The agent's uses\<close>

text \<open>\<open>handleEstablish\<close> puts an entry when the event carries a destination before DNAT, \<open>handleClose\<close> deletes it.\<close>

definition was_dnated :: "establish_event \<Rightarrow> bool" where
  "was_dnated evt \<longleftrightarrow> es_original_dst_ip evt \<noteq> 0"

definition establish_key :: "establish_event \<Rightarrow> intent_key" where
  "establish_key evt = \<lparr>ik_src_ip = es_src_ip evt, ik_dst_ip = es_dst_ip evt, ik_src_port = es_src_port evt,
     ik_dst_port = es_dst_port evt, ik_pid = es_pid evt, ik_protocol = es_protocol evt, ik_direction = es_direction evt\<rparr>"

definition close_key :: "close_event \<Rightarrow> intent_key" where
  "close_key evt = \<lparr>ik_src_ip = cl_src_ip evt, ik_dst_ip = cl_dst_ip evt, ik_src_port = cl_src_port evt,
     ik_dst_port = cl_dst_port evt, ik_pid = cl_pid evt, ik_protocol = cl_protocol evt, ik_direction = cl_direction evt\<rparr>"

definition snapshot_key :: "flow_snapshot \<Rightarrow> intent_key" where
  "snapshot_key f = \<lparr>ik_src_ip = fs_src_ip f, ik_dst_ip = fs_dst_ip f, ik_src_port = fs_src_port f,
     ik_dst_port = fs_dst_port f, ik_pid = fs_pid f, ik_protocol = fs_protocol f, ik_direction = fs_direction f\<rparr>"

fun event_intent :: "event \<Rightarrow> intent_op list" where
  "event_intent (Connect evt) = []"
| "event_intent (Establish evt) =
     (if was_dnated evt
      then [Put (establish_key evt) \<lparr>id_ip = es_original_dst_ip evt, id_port = es_original_dst_port evt\<rparr>] else [])"
| "event_intent (Close evt) = [Delete (close_key evt)]"

definition handle_events :: "event list \<Rightarrow> intent_cache \<Rightarrow> intent_cache" where
  "handle_events evs c = fold intent_step (concat (map event_intent evs)) c"

text \<open>The three identities of a connection agree: event, flow key and snapshot.\<close>

definition flow_intent_key :: "flow_key \<Rightarrow> intent_key" where
  "flow_intent_key k = \<lparr>ik_src_ip = fk_src_ip k, ik_dst_ip = fk_dst_ip k, ik_src_port = fk_src_port k,
     ik_dst_port = fk_dst_port k, ik_pid = fk_pid k, ik_protocol = fk_protocol k, ik_direction = fk_direction k\<rparr>"

lemma snapshot_key_sum: "snapshot_key (sum_per_cpu k vals) = flow_intent_key k"
proof -
  have "snapshot_key (fold add_metrics vals f) = snapshot_key f" for f
    by (induction vals arbitrary: f) (simp_all add: add_metrics_def snapshot_key_def)
  then show ?thesis by (simp add: sum_per_cpu_def) (simp add: snapshot_key_def flow_intent_key_def)
qed

lemma establish_key_flow:
  "establish_key (establish_event_of e s d co) = flow_intent_key (flow_key_of (established_conn e s d co))"
  by (simp add: establish_key_def flow_intent_key_def establish_event_of_def established_conn_fields flow_key_of_def)

lemma close_key_flow: "close_key (close_event_of e conn) = flow_intent_key (flow_key_of conn)"
  by (simp add: close_key_def flow_intent_key_def close_event_of_def flow_key_of_def Let_def)

lemma handle_events_simps [simp]:
  "handle_events [] c = c"
  "handle_events (evt # evs) c = handle_events evs (fold intent_step (event_intent evt) c)"
  "handle_events (xs @ ys) c = handle_events ys (handle_events xs c)"
  by (simp_all add: handle_events_def)

text \<open>An establish that is reported puts the dialed destination where the polls of its flow find it.\<close>

lemma dialed_found:
  assumes "intent_ok c" and "co_orig_ip co \<noteq> 0"
    and "\<forall>op \<in> set (concat (map event_intent evs)). \<not> on_key (flow_intent_key (flow_key_of (established_conn e s d co))) op"
    and "puts (concat (map event_intent evs)) \<le> ic_max c"
  shows "intent_get (flow_intent_key (flow_key_of (established_conn e s d co)))
      (handle_events (Establish (establish_event_of e s d co) # evs) c) =
    Some \<lparr>id_ip = co_orig_ip co, id_port = co_orig_port co\<rparr>"
proof -
  let ?k = "flow_intent_key (flow_key_of (established_conn e s d co))"
  let ?d = "\<lparr>id_ip = co_orig_ip co, id_port = co_orig_port co\<rparr>"
  have evt: "event_intent (Establish (establish_event_of e s d co)) = [Put ?k ?d]"
    using assms(2) by (simp add: was_dnated_def establish_key_flow) (simp add: establish_event_of_def)
  show ?thesis
    using put_stays [OF assms(1,3,4), of ?d] by (simp add: evt handle_events_def del: event_intent.simps)
qed

lemma closed_forgotten:
  "intent_get (flow_intent_key (flow_key_of conn)) (handle_events (evs @ [Close (close_event_of e conn)]) c) = None"
  by (simp add: close_key_flow intent_get_def intent_delete_def)

end
