(* ===== verification/Dns_Tracker.thy ===== *)
theory Dns_Tracker
  imports Net_Addr Tollwing_Prelude
begin

text \<open>
  The DNS tracker of userspace (\<open>pkg/dns\<close>): the framing of a captured datagram, the table of cloud
  services, the cache from addresses to names with its eviction ring and the query counters. The
  message parser is a library's; what it found in a datagram is an argument.
\<close>

section \<open>Cloud services\<close>

text \<open>\<open>strings.ToLower\<close> on ASCII names.\<close>

definition to_lower :: "string \<Rightarrow> string" where
  "to_lower s = map (\<lambda>c. if 65 \<le> (of_char c :: nat) \<and> (of_char c :: nat) \<le> 90 then char_of ((of_char c :: nat) + 32) else c) s"

definition has_prefix :: "string \<Rightarrow> string \<Rightarrow> bool" where
  "has_prefix s p \<longleftrightarrow> take (length p) s = p"

definition has_suffix :: "string \<Rightarrow> string \<Rightarrow> bool" where
  "has_suffix s p \<longleftrightarrow> length p \<le> length s \<and> drop (length s - length p) s = p"

type_synonym mapping_rule = "string \<times> string"

definition builtin_rules :: "mapping_rule list" where
  "builtin_rules =
    [(''.s3.amazonaws.com'', ''S3''),
     (''.s3-accesspoint.amazonaws.com'', ''S3''),
     (''.dynamodb.amazonaws.com'', ''DynamoDB''),
     (''.sqs.amazonaws.com'', ''SQS''),
     (''.sns.amazonaws.com'', ''SNS''),
     (''.kinesis.amazonaws.com'', ''Kinesis''),
     (''.rds.amazonaws.com'', ''RDS''),
     (''.elasticache.amazonaws.com'', ''ElastiCache''),
     (''.redshift.amazonaws.com'', ''Redshift''),
     (''.lambda.amazonaws.com'', ''Lambda''),
     (''.execute-api.amazonaws.com'', ''API Gateway''),
     (''.elb.amazonaws.com'', ''ELB''),
     (''.cloudfront.net'', ''CloudFront''),
     (''.ecr.amazonaws.com'', ''ECR''),
     (''.secretsmanager.amazonaws.com'', ''Secrets Manager''),
     (''.monitoring.amazonaws.com'', ''CloudWatch''),
     (''.logs.amazonaws.com'', ''CloudWatch Logs''),
     (''.events.amazonaws.com'', ''EventBridge''),
     (''.sts.amazonaws.com'', ''STS''),
     (''.ec2.amazonaws.com'', ''EC2''),
     (''.storage.googleapis.com'', ''Cloud Storage''),
     (''.bigquery.googleapis.com'', ''BigQuery''),
     (''.pubsub.googleapis.com'', ''Pub/Sub''),
     (''.firestore.googleapis.com'', ''Firestore''),
     (''.spanner.googleapis.com'', ''Spanner''),
     (''.run.googleapis.com'', ''Cloud Run''),
     (''.cloudfunctions.googleapis.com'', ''Cloud Functions''),
     (''.container.googleapis.com'', ''GKE''),
     (''.compute.googleapis.com'', ''Compute Engine''),
     (''.sqladmin.googleapis.com'', ''Cloud SQL''),
     (''.redis.googleapis.com'', ''Memorystore''),
     (''.logging.googleapis.com'', ''Cloud Logging''),
     (''.monitoring.googleapis.com'', ''Cloud Monitoring''),
     (''.artifactregistry.googleapis.com'', ''Artifact Registry''),
     (''.gcr.io'', ''Container Registry''),
     (''.pkg.dev'', ''Artifact Registry''),
     (''.blob.core.windows.net'', ''Azure Blob''),
     (''.table.core.windows.net'', ''Azure Table''),
     (''.queue.core.windows.net'', ''Azure Queue''),
     (''.file.core.windows.net'', ''Azure Files''),
     (''.database.windows.net'', ''Azure SQL''),
     (''.documents.azure.com'', ''Cosmos DB''),
     (''.redis.cache.windows.net'', ''Azure Cache for Redis''),
     (''.servicebus.windows.net'', ''Service Bus''),
     (''.azurecr.io'', ''Container Registry''),
     (''.azurewebsites.net'', ''App Service''),
     (''.vault.azure.net'', ''Key Vault''),
     (''.cognitiveservices.azure.com'', ''Cognitive Services''),
     (''.search.windows.net'', ''Azure Search''),
     (''.eventgrid.azure.net'', ''Event Grid''),
     (''.datadog.com'', ''Datadog''),
     (''.datadoghq.com'', ''Datadog''),
     (''.newrelic.com'', ''New Relic''),
     (''.pagerduty.com'', ''PagerDuty''),
     (''.slack.com'', ''Slack''),
     (''.github.com'', ''GitHub''),
     (''.docker.io'', ''Docker Hub'')]"

definition aws_tail :: string where
  "aws_tail = ''.amazonaws.com''"

text \<open>The test of one rule; \<open>tl\<close> is \<open>rule.suffix[1:]\<close>, reached with a nonempty suffix only.\<close>

definition rule_matches :: "string \<Rightarrow> string \<Rightarrow> bool" where
  "rule_matches lower suffix \<longleftrightarrow>
     (if has_suffix lower suffix \<or> lower = tl suffix then True
      else if \<not> has_suffix lower aws_tail \<or> \<not> has_suffix suffix aws_tail then False
      else let token = take (length suffix - length aws_tail - 1) (tl suffix)
           in token \<noteq> [] \<and> has_prefix lower (token @ ''.''))"

fun mapper_lookup :: "mapping_rule list \<Rightarrow> string \<Rightarrow> string" where
  "mapper_lookup [] lower = []"
| "mapper_lookup ((suffix, service) # rules) lower =
     (if rule_matches lower suffix then service else mapper_lookup rules lower)"

definition service_lookup :: "mapping_rule list \<Rightarrow> string \<Rightarrow> string" where
  "service_lookup rules domain = mapper_lookup rules (to_lower domain)"

definition add_rule :: "string \<Rightarrow> string \<Rightarrow> mapping_rule list \<Rightarrow> mapping_rule list" where
  "add_rule suffix service rules = rules @ [(suffix, service)]"

section \<open>The tracker\<close>

record cache_entry =
  ce_domain :: string
  ce_service :: string
  ce_expires_at :: int

text \<open>Times and durations are in nanoseconds, as in Go; a cache TTL is below \<open>2^63\<close> of them.\<close>

record dns_config =
  dc_min_ttl :: int
  dc_max_ttl :: int

definition set_dns_defaults :: "dns_config \<Rightarrow> dns_config" where
  "set_dns_defaults c = c\<lparr>dc_min_ttl := (if dc_min_ttl c = 0 then 30 * 10 ^ 9 else dc_min_ttl c),
     dc_max_ttl := (if dc_max_ttl c = 0 then 3600 * 10 ^ 9 else dc_max_ttl c)\<rparr>"

definition max_cache_entries :: nat where
  "max_cache_entries = 65536"

definition max_query_counters :: nat where
  "max_query_counters = 4096"

record tracker =
  tr_config :: dns_config
  tr_cache :: "ip_addr \<rightharpoonup> cache_entry"
  tr_ring :: "ip_addr list"
  tr_ring_pos :: nat
  tr_service_mapper :: "mapping_rule list"
  tr_query_counts :: "string \<rightharpoonup> u64"
  tr_query_count_start :: int

definition new_tracker :: "dns_config \<Rightarrow> int \<Rightarrow> tracker" where
  "new_tracker c now = \<lparr>tr_config = set_dns_defaults c, tr_cache = Map.empty,
     tr_ring = replicate max_cache_entries No_addr, tr_ring_pos = 0, tr_service_mapper = builtin_rules,
     tr_query_counts = Map.empty, tr_query_count_start = now\<rparr>"

text \<open>\<open>Lookup\<close>: the domain and the service, both empty when unknown or expired.\<close>

definition tracker_lookup :: "ip_addr \<Rightarrow> int \<Rightarrow> tracker \<Rightarrow> string \<times> string" where
  "tracker_lookup ip now t =
     (case tr_cache t ip of
        None \<Rightarrow> ([], [])
      | Some en \<Rightarrow>
          if ce_expires_at en < now then ([], [])
          else (ce_domain en, if ce_service en = [] then ce_domain en else ce_service en))"

text \<open>
  \<open>evictLowestCountLocked\<close> ranges over a Go map: \<open>order\<close> lists its keys as the iteration meets them.
  The victim is the first of the least counts.
\<close>

fun lowest_count :: "(string \<rightharpoonup> u64) \<Rightarrow> string list \<Rightarrow> string \<times> u64 \<Rightarrow> string \<times> u64" where
  "lowest_count counts [] victim = victim"
| "lowest_count counts (k # ks) victim =
     (let v = the (counts k)
      in lowest_count counts ks (if v < snd victim then (k, v) else victim))"

definition evict_lowest_count :: "string list \<Rightarrow> (string \<rightharpoonup> u64) \<Rightarrow> (string \<rightharpoonup> u64)" where
  "evict_lowest_count order counts =
     (let victim = fst (lowest_count counts order ([], - 1))
      in if victim \<noteq> [] then counts(victim := None) else counts)"

definition clamp_ttl :: "dns_config \<Rightarrow> int \<Rightarrow> int" where
  "clamp_ttl c ttl = (let t = (if ttl < dc_min_ttl c then dc_min_ttl c else ttl)
     in if t > dc_max_ttl c then dc_max_ttl c else t)"

definition bump_count :: "((string \<rightharpoonup> u64) \<Rightarrow> string list) \<Rightarrow> string \<Rightarrow> (string \<rightharpoonup> u64) \<Rightarrow> (string \<rightharpoonup> u64)" where
  "bump_count order domain counts =
     (let counts1 = counts(domain \<mapsto> (case counts domain of None \<Rightarrow> 0 | Some c \<Rightarrow> c) + 1)
      in if card (dom counts1) > max_query_counters then evict_lowest_count (order counts1) counts1 else counts1)"

definition cache_insert ::
  "((string \<rightharpoonup> u64) \<Rightarrow> string list) \<Rightarrow> int \<Rightarrow> ip_addr \<Rightarrow> string \<Rightarrow> int \<Rightarrow> tracker \<Rightarrow> tracker" where
  "cache_insert order now addr domain ttl t =
     (if \<not> addr_valid addr \<or> domain = [] then t
      else
        let en = \<lparr>ce_domain = domain, ce_service = service_lookup (tr_service_mapper t) domain,
                  ce_expires_at = now + clamp_ttl (tr_config t) ttl\<rparr>;
            cache1 = (tr_cache t)(addr \<mapsto> en);
            oldest = tr_ring t ! tr_ring_pos t;
            cache2 = (if card (dom cache1) > length (tr_ring t) \<and> addr_valid oldest
                      then cache1(oldest := None) else cache1)
        in t\<lparr>tr_cache := cache2, tr_ring := (tr_ring t)[tr_ring_pos t := addr],
             tr_ring_pos := (tr_ring_pos t + 1) mod length (tr_ring t),
             tr_query_counts := bump_count order domain (tr_query_counts t)\<rparr>)"

definition reset_query_counts :: "int \<Rightarrow> tracker \<Rightarrow> tracker" where
  "reset_query_counts now t = t\<lparr>tr_query_counts := Map.empty, tr_query_count_start := now\<rparr>"

definition query_counts :: "((string \<rightharpoonup> u64) \<Rightarrow> string list) \<Rightarrow> tracker \<Rightarrow> (string \<times> string \<times> u64) list" where
  "query_counts order t = map (\<lambda>d. (d, service_lookup (tr_service_mapper t) d, the (tr_query_counts t d)))
     (order (tr_query_counts t))"

section \<open>From the ring buffer to the cache\<close>

text \<open>\<open>readLoop\<close>: the datagram of a raw record; \<open>None\<close> is a record that is too short.\<close>

definition dns_packet :: "u8 list \<Rightarrow> u8 list option" where
  "dns_packet raw =
     (if length raw < 4 + 12 then None
      else let pkt_len = unat (le_word16 (raw ! 0) (raw ! 1)); pkt_data = drop 4 raw
           in Some (take (if pkt_len > length pkt_data then length pkt_data else pkt_len) pkt_data))"

text \<open>
  What the library's parser finds: the header's response flag and code, the names of the
  questions (\<open>None\<close> on an error), and the answers up to where the answer header fails; an answer
  whose body fails carries \<open>None\<close> or \<open>False\<close>.
\<close>

datatype dns_answer =
  Answer_A u32 "u32 option"
| Answer_AAAA u32 "128 word option"
| Answer_other bool

record dns_message =
  dm_response :: bool
  dm_rcode :: nat
  dm_questions :: "string list option"
  dm_answers :: "dns_answer list"

definition trim_dot :: "string \<Rightarrow> string" where
  "trim_dot name = (if name \<noteq> [] \<and> last name = CHR ''.'' then butlast name else name)"

definition ttl_ns :: "u32 \<Rightarrow> int" where
  "ttl_ns ttl = int (unat ttl) * 10 ^ 9"

fun insert_answers ::
  "((string \<rightharpoonup> u64) \<Rightarrow> string list) \<Rightarrow> int \<Rightarrow> string \<Rightarrow> dns_answer list \<Rightarrow> tracker \<Rightarrow> tracker" where
  "insert_answers order now qname [] t = t"
| "insert_answers order now qname (Answer_A ttl r # as) t =
     (case r of None \<Rightarrow> t
      | Some a \<Rightarrow> insert_answers order now qname as (cache_insert order now (Addr4 a) qname (ttl_ns ttl) t))"
| "insert_answers order now qname (Answer_AAAA ttl r # as) t =
     (case r of None \<Rightarrow> t
      | Some a \<Rightarrow> insert_answers order now qname as (cache_insert order now (Addr6 a) qname (ttl_ns ttl) t))"
| "insert_answers order now qname (Answer_other ok # as) t =
     (if ok then insert_answers order now qname as t else t)"

definition parse_dns_response ::
  "(u8 list \<Rightarrow> dns_message option) \<Rightarrow> ((string \<rightharpoonup> u64) \<Rightarrow> string list) \<Rightarrow> int \<Rightarrow> u8 list \<Rightarrow> tracker \<Rightarrow> tracker" where
  "parse_dns_response parser order now pkt t =
     (case parser pkt of
        None \<Rightarrow> t
      | Some m \<Rightarrow>
          if \<not> dm_response m \<or> dm_rcode m \<noteq> 0 then t
          else case dm_questions m of
                 Some (q # _) \<Rightarrow> insert_answers order now (trim_dot q) (dm_answers m) t
               | _ \<Rightarrow> t)"

definition read_dns_record ::
  "(u8 list \<Rightarrow> dns_message option) \<Rightarrow> ((string \<rightharpoonup> u64) \<Rightarrow> string list) \<Rightarrow> int \<Rightarrow> u8 list \<Rightarrow> tracker \<Rightarrow> tracker" where
  "read_dns_record parser order now raw t =
     (case dns_packet raw of None \<Rightarrow> t | Some pkt \<Rightarrow> parse_dns_response parser order now pkt t)"

end
