(* ===== verification/Kube_Informer.thy ===== *)
theory Kube_Informer
  imports Net_Addr Tollwing_Prelude "HOL-Library.Multiset" "HOL-Library.Signed_Division"
begin

text \<open>
  The lookup tables of the Kubernetes informer (\<open>pkg/k8s/informer.go\<close>) and the handlers that fill
  them. Of the objects that the API sends only the fields that the handlers read are here; the
  parsers of addresses and prefixes, and the order in which Go ranges over a map, are arguments.
\<close>

section \<open>State\<close>

record pod_meta =
  pm_name :: string
  pm_namespace :: string
  pm_node_name :: string
  pm_labels :: "(string \<times> string) list"
  pm_pod_ip :: string
  pm_host_ip :: string
  pm_containers :: "string list"
  pm_cpu_request_milli :: int
  pm_memory_request_mb :: int
  pm_instance_type :: string
  pm_created_at :: int

record service_endpoint =
  sp_service_name :: string
  sp_service_namespace :: string
  sp_port :: int

record service_ref =
  rf_namespace :: string
  rf_name :: string

type_synonym slice_entry = "string \<times> service_endpoint"

record informer =
  in_container_to_pod :: "string \<rightharpoonup> pod_meta"
  in_pod_ip_to_meta :: "string \<rightharpoonup> pod_meta"
  in_pod_name_to_meta :: "string \<rightharpoonup> pod_meta"
  in_pod_ip_to_services :: "string \<rightharpoonup> service_endpoint list"
  in_cluster_ip_to_svc :: "string \<rightharpoonup> service_ref"
  in_node_zones :: "string \<rightharpoonup> string"
  in_node_instance_types :: "string \<rightharpoonup> string"
  in_endpoints_by_slice :: "string \<rightharpoonup> slice_entry list"
  in_pod_cidrs :: "string set"

definition new_informer :: informer where
  "new_informer = \<lparr>in_container_to_pod = Map.empty, in_pod_ip_to_meta = Map.empty, in_pod_name_to_meta = Map.empty,
     in_pod_ip_to_services = Map.empty, in_cluster_ip_to_svc = Map.empty, in_node_zones = Map.empty,
     in_node_instance_types = Map.empty, in_endpoints_by_slice = Map.empty, in_pod_cidrs = {}\<rparr>"

definition lookup_service :: "informer \<Rightarrow> string \<Rightarrow> service_endpoint list" where
  "lookup_service t ip = (case in_pod_ip_to_services t ip of None \<Rightarrow> [] | Some seps \<Rightarrow> seps)"

definition node_zone :: "informer \<Rightarrow> string \<Rightarrow> string" where
  "node_zone t name = (case in_node_zones t name of None \<Rightarrow> [] | Some zone \<Rightarrow> zone)"

text \<open>What the handlers read of the objects; a label that is not there reads as the empty string.\<close>

record kube_container =
  kc_cpu_milli :: "int option"
  kc_memory :: "int option"

record kube_pod =
  kp_name :: string
  kp_namespace :: string
  kp_node_name :: string
  kp_labels :: "(string \<times> string) list"
  kp_pod_ip :: string
  kp_host_ip :: string
  kp_created_at :: int
  kp_containers :: "kube_container list"
  kp_container_ids :: "string list"

record kube_node =
  kn_name :: string
  kn_labels :: "string \<Rightarrow> string"
  kn_pod_cidr :: string
  kn_pod_cidrs :: "string list"

record kube_slice =
  ks_name :: string
  ks_namespace :: string
  ks_service_label :: string
  ks_endpoints :: "string list list"
  ks_ports :: "int option list"

record kube_service =
  kv_name :: string
  kv_namespace :: string
  kv_cluster_ip :: string
  kv_cluster_ips :: "string list"

text \<open>What a delete handler gets: the object, a tombstone around it, or something else.\<close>

datatype 'a deleted = Deleted_object 'a | Tombstone 'a | Not_understood

fun deleted_object :: "'a deleted \<Rightarrow> 'a option" where
  "deleted_object (Deleted_object x) = Some x"
| "deleted_object (Tombstone x) = Some x"
| "deleted_object Not_understood = None"

definition object_key :: "string \<Rightarrow> string \<Rightarrow> string" where
  "object_key namespace name = namespace @ ''/'' @ name"

section \<open>Pods\<close>

fun after_scheme :: "string \<Rightarrow> string option" where
  "after_scheme [] = None"
| "after_scheme (c # cs) = (if take 3 (c # cs) = ''://'' then Some (drop 3 (c # cs)) else after_scheme cs)"

definition extract_container_id :: "string \<Rightarrow> string" where
  "extract_container_id raw = (case after_scheme raw of None \<Rightarrow> raw | Some cid \<Rightarrow> cid)"

definition container_ids :: "kube_pod \<Rightarrow> string list" where
  "container_ids pod = filter (\<lambda>cid. cid \<noteq> []) (map extract_container_id (kp_container_ids pod))"

definition cpu_request :: "kube_pod \<Rightarrow> int" where
  "cpu_request pod = (\<Sum>c\<leftarrow>kp_containers pod. case kc_cpu_milli c of None \<Rightarrow> 0 | Some m \<Rightarrow> m)"

definition memory_request :: "kube_pod \<Rightarrow> int" where
  "memory_request pod = (\<Sum>c\<leftarrow>kp_containers pod. case kc_memory c of None \<Rightarrow> 0 | Some v \<Rightarrow> v sdiv (1024 * 1024))"

text \<open>The metadata that \<open>onPod\<close> builds.\<close>

definition meta_of :: "kube_pod \<Rightarrow> informer \<Rightarrow> pod_meta" where
  "meta_of pod t = \<lparr>pm_name = kp_name pod, pm_namespace = kp_namespace pod, pm_node_name = kp_node_name pod,
     pm_labels = kp_labels pod, pm_pod_ip = kp_pod_ip pod, pm_host_ip = kp_host_ip pod,
     pm_containers = container_ids pod, pm_cpu_request_milli = cpu_request pod,
     pm_memory_request_mb = memory_request pod,
     pm_instance_type = (case in_node_instance_types t (kp_node_name pod) of None \<Rightarrow> [] | Some it \<Rightarrow> it),
     pm_created_at = kp_created_at pod\<rparr>"

text \<open>The calls of \<open>OnZoneUpdate\<close>, which the agent connects to \<open>SetIPZone\<close>, are the second result.\<close>

definition zone_update :: "(string \<Rightarrow> ip_addr option) \<Rightarrow> string \<Rightarrow> string \<Rightarrow> (ip_addr \<times> string) list" where
  "zone_update parse_addr ip zone = (case parse_addr ip of None \<Rightarrow> [] | Some addr \<Rightarrow> [(addr, zone)])"

definition on_pod :: "(string \<Rightarrow> ip_addr option) \<Rightarrow> kube_pod \<Rightarrow> informer \<Rightarrow> informer \<times> (ip_addr \<times> string) list" where
  "on_pod parse_addr pod t =
     (let meta = meta_of pod t;
          t1 = t\<lparr>in_container_to_pod := fold (\<lambda>cid m. m(cid \<mapsto> meta)) (container_ids pod) (in_container_to_pod t)\<rparr>;
          t2 = (if kp_pod_ip pod \<noteq> []
                then t1\<lparr>in_pod_ip_to_meta := (in_pod_ip_to_meta t1)(kp_pod_ip pod \<mapsto> meta)\<rparr> else t1);
          zones = (if kp_pod_ip pod = [] then []
                   else case in_node_zones t (kp_node_name pod) of
                          None \<Rightarrow> [] | Some zone \<Rightarrow> zone_update parse_addr (kp_pod_ip pod) zone)
      in (t2\<lparr>in_pod_name_to_meta := (in_pod_name_to_meta t2)(object_key (kp_namespace pod) (kp_name pod) \<mapsto> meta)\<rparr>, zones))"

definition on_pod_delete :: "kube_pod deleted \<Rightarrow> informer \<Rightarrow> informer" where
  "on_pod_delete obj t =
     (case deleted_object obj of
        None \<Rightarrow> t
      | Some pod \<Rightarrow>
          t\<lparr>in_container_to_pod := fold (\<lambda>cid m. m(cid := None)) (container_ids pod) (in_container_to_pod t),
            in_pod_ip_to_meta := (in_pod_ip_to_meta t)(kp_pod_ip pod := None),
            in_pod_name_to_meta := (in_pod_name_to_meta t)(object_key (kp_namespace pod) (kp_name pod) := None)\<rparr>)"

section \<open>Nodes\<close>

definition node_zone_label :: "kube_node \<Rightarrow> string" where
  "node_zone_label node =
     (if kn_labels node ''topology.kubernetes.io/zone'' = [] then kn_labels node ''failure-domain.beta.kubernetes.io/zone''
      else kn_labels node ''topology.kubernetes.io/zone'')"

definition node_instance_type :: "kube_node \<Rightarrow> string" where
  "node_instance_type node =
     (if kn_labels node ''node.kubernetes.io/instance-type'' = [] then kn_labels node ''beta.kubernetes.io/instance-type''
      else kn_labels node ''node.kubernetes.io/instance-type'')"

text \<open>One pod of the back-fill: the copy with the instance type goes into all three tables.\<close>

definition backfill :: "string \<Rightarrow> string \<Rightarrow> string \<Rightarrow> informer \<Rightarrow> informer" where
  "backfill node_name it key t =
     (case in_pod_name_to_meta t key of
        None \<Rightarrow> t
      | Some meta \<Rightarrow>
          if pm_node_name meta \<noteq> node_name \<or> pm_instance_type meta = it then t
          else let updated = meta\<lparr>pm_instance_type := it\<rparr>;
                   t1 = t\<lparr>in_pod_name_to_meta := (in_pod_name_to_meta t)(key \<mapsto> updated)\<rparr>;
                   t2 = (if pm_pod_ip updated \<noteq> []
                         then t1\<lparr>in_pod_ip_to_meta := (in_pod_ip_to_meta t1)(pm_pod_ip updated \<mapsto> updated)\<rparr> else t1)
               in t2\<lparr>in_container_to_pod :=
                    fold (\<lambda>cid m. m(cid \<mapsto> updated)) (pm_containers updated) (in_container_to_pod t2)\<rparr>)"

definition take_cidr ::
  "(string \<Rightarrow> ip_prefix option) \<Rightarrow> string \<Rightarrow> string set \<times> ip_prefix list \<Rightarrow> string set \<times> ip_prefix list" where
  "take_cidr parse_prefix raw s =
     (if raw = [] \<or> raw \<in> fst s then s
      else case parse_prefix raw of None \<Rightarrow> s | Some p \<Rightarrow> (insert raw (fst s), snd s @ [p]))"

text \<open>\<open>names\<close> and \<open>ips\<close> are the keys of the two tables that \<open>onNode\<close> ranges over, as the iteration meets them.\<close>

definition on_node ::
  "(string \<Rightarrow> ip_addr option) \<Rightarrow> (string \<Rightarrow> ip_prefix option) \<Rightarrow> string list \<Rightarrow> string list \<Rightarrow> kube_node \<Rightarrow> informer \<Rightarrow>
    informer \<times> ip_prefix list \<times> (ip_addr \<times> string) list" where
  "on_node parse_addr parse_prefix names ips node t =
     (let zone = node_zone_label node; it = node_instance_type node;
          candidates = (if kn_pod_cidr node \<noteq> [] then [kn_pod_cidr node] else []) @ kn_pod_cidrs node;
          t1 = (if zone \<noteq> [] then t\<lparr>in_node_zones := (in_node_zones t)(kn_name node \<mapsto> zone)\<rparr> else t);
          t2 = (if it \<noteq> []
                then fold (backfill (kn_name node) it) names
                       (t1\<lparr>in_node_instance_types := (in_node_instance_types t1)(kn_name node \<mapsto> it)\<rparr>)
                else t1);
          (cidrs, prefixes) = fold (take_cidr parse_prefix) candidates (in_pod_cidrs t2, []);
          t3 = t2\<lparr>in_pod_cidrs := cidrs\<rparr>;
          zones = (if zone = [] then []
                   else concat (map (\<lambda>ip. case in_pod_ip_to_meta t3 ip of
                          None \<Rightarrow> []
                        | Some meta \<Rightarrow> if pm_node_name meta = kn_name node \<and> pm_pod_ip meta \<noteq> []
                                       then zone_update parse_addr (pm_pod_ip meta) zone else []) ips))
      in (t3, prefixes, zones))"

section \<open>Endpoint slices\<close>

text \<open>
  \<open>removeSliceLocked\<close>: for every entry of the slice the first equal endpoint of its address goes,
  and the address with its last one.
\<close>

definition remove_entry :: "slice_entry \<Rightarrow> (string \<rightharpoonup> service_endpoint list) \<Rightarrow> (string \<rightharpoonup> service_endpoint list)" where
  "remove_entry en services =
     (case services (fst en) of
        None \<Rightarrow> services
      | Some seps \<Rightarrow>
          if snd en \<notin> set seps then services
          else if length seps = 1 then services(fst en := None)
          else services(fst en \<mapsto> remove1 (snd en) seps))"

definition remove_slice :: "string \<Rightarrow> informer \<Rightarrow> informer" where
  "remove_slice key t =
     (case in_endpoints_by_slice t key of
        None \<Rightarrow> t
      | Some es \<Rightarrow>
          t\<lparr>in_endpoints_by_slice := (in_endpoints_by_slice t)(key := None),
            in_pod_ip_to_services := fold remove_entry es (in_pod_ip_to_services t)\<rparr>)"

text \<open>The entries of a slice, in the order of the three loops.\<close>

definition slice_entries :: "kube_slice \<Rightarrow> slice_entry list" where
  "slice_entries eps =
     concat (map (\<lambda>addrs. concat (map (\<lambda>addr. concat (map (\<lambda>port. case port of
         None \<Rightarrow> []
       | Some p \<Rightarrow> [(addr, \<lparr>sp_service_name = ks_service_label eps, sp_service_namespace = ks_namespace eps, sp_port = p\<rparr>)])
       (ks_ports eps))) addrs)) (ks_endpoints eps))"

definition add_entry :: "slice_entry \<Rightarrow> (string \<rightharpoonup> service_endpoint list) \<Rightarrow> (string \<rightharpoonup> service_endpoint list)" where
  "add_entry en services =
     services(fst en \<mapsto> (case services (fst en) of None \<Rightarrow> [] | Some old \<Rightarrow> old) @ [snd en])"

definition slice_key :: "kube_slice \<Rightarrow> string" where
  "slice_key eps = object_key (ks_namespace eps) (ks_name eps)"

definition on_endpoint_slice :: "kube_slice \<Rightarrow> informer \<Rightarrow> informer" where
  "on_endpoint_slice eps t =
     (let t1 = remove_slice (slice_key eps) t
      in if ks_service_label eps = [] then t1
         else let added = slice_entries eps;
                  t2 = t1\<lparr>in_pod_ip_to_services := fold add_entry added (in_pod_ip_to_services t1)\<rparr>
              in if added \<noteq> []
                 then t2\<lparr>in_endpoints_by_slice := (in_endpoints_by_slice t2)(slice_key eps \<mapsto> added)\<rparr> else t2)"

definition on_endpoint_slice_delete :: "kube_slice deleted \<Rightarrow> informer \<Rightarrow> informer" where
  "on_endpoint_slice_delete obj t =
     (case deleted_object obj of None \<Rightarrow> t | Some eps \<Rightarrow> remove_slice (slice_key eps) t)"

section \<open>Services\<close>

definition cluster_ips_of :: "kube_service \<Rightarrow> string list" where
  "cluster_ips_of svc = filter (\<lambda>ip. ip \<noteq> [] \<and> ip \<noteq> ''None'') (kv_cluster_ip svc # kv_cluster_ips svc)"

definition on_service :: "kube_service \<Rightarrow> informer \<Rightarrow> informer" where
  "on_service svc t = t\<lparr>in_cluster_ip_to_svc :=
     fold (\<lambda>ip m. m(ip \<mapsto> \<lparr>rf_namespace = kv_namespace svc, rf_name = kv_name svc\<rparr>)) (cluster_ips_of svc)
       (in_cluster_ip_to_svc t)\<rparr>"

definition on_service_delete :: "kube_service deleted \<Rightarrow> informer \<Rightarrow> informer" where
  "on_service_delete obj t =
     (case deleted_object obj of
        None \<Rightarrow> t
      | Some svc \<Rightarrow> t\<lparr>in_cluster_ip_to_svc := fold (\<lambda>ip m. m(ip := None)) (cluster_ips_of svc) (in_cluster_ip_to_svc t)\<rparr>)"

section \<open>Any sequence of events\<close>

datatype kube_event =
  Pod_seen kube_pod
| Pod_gone "kube_pod deleted"
| Node_seen "string list" "string list" kube_node
| Slice_seen kube_slice
| Slice_gone "kube_slice deleted"
| Service_seen kube_service
| Service_gone "kube_service deleted"

fun kube_step ::
  "(string \<Rightarrow> ip_addr option) \<Rightarrow> (string \<Rightarrow> ip_prefix option) \<Rightarrow> kube_event \<Rightarrow> informer \<Rightarrow> informer" where
  "kube_step pa pp (Pod_seen pod) t = fst (on_pod pa pod t)"
| "kube_step pa pp (Pod_gone obj) t = on_pod_delete obj t"
| "kube_step pa pp (Node_seen names ips node) t = fst (on_node pa pp names ips node t)"
| "kube_step pa pp (Slice_seen eps) t = on_endpoint_slice eps t"
| "kube_step pa pp (Slice_gone obj) t = on_endpoint_slice_delete obj t"
| "kube_step pa pp (Service_seen svc) t = on_service svc t"
| "kube_step pa pp (Service_gone obj) t = on_service_delete obj t"

section \<open>The services of an address\<close>

text \<open>What the slices say: the latest content of every slice that is there, labelled and not empty.\<close>

fun slice_effect :: "kube_event \<Rightarrow> (string \<rightharpoonup> slice_entry list) \<Rightarrow> (string \<rightharpoonup> slice_entry list)" where
  "slice_effect (Slice_seen eps) m =
     m(slice_key eps := if ks_service_label eps = [] \<or> slice_entries eps = [] then None else Some (slice_entries eps))"
| "slice_effect (Slice_gone obj) m =
     (case deleted_object obj of None \<Rightarrow> m | Some eps \<Rightarrow> m(slice_key eps := None))"
| "slice_effect _ m = m"

definition entries_at :: "string \<Rightarrow> slice_entry list \<Rightarrow> service_endpoint multiset" where
  "entries_at addr es = mset (map snd (filter (\<lambda>en. fst en = addr) es))"

definition advertised :: "(string \<rightharpoonup> slice_entry list) \<Rightarrow> string \<Rightarrow> service_endpoint multiset" where
  "advertised m addr = (\<Sum>k \<in> dom m. entries_at addr (the (m k)))"

abbreviation endpoints :: "(string \<rightharpoonup> service_endpoint list) \<Rightarrow> string \<Rightarrow> service_endpoint multiset" where
  "endpoints services addr \<equiv> mset (case services addr of None \<Rightarrow> [] | Some seps \<Rightarrow> seps)"

lemma entries_at_simps [simp]:
  "entries_at addr [] = {#}"
  "entries_at addr (en # es) = (if fst en = addr then {#snd en#} else {#}) + entries_at addr es"
  by (simp_all add: entries_at_def)

lemma remove_entry_endpoints:
  "endpoints (remove_entry en s) addr = endpoints s addr - (if fst en = addr then {#snd en#} else {#})"
  by (auto simp: remove_entry_def length_Suc_conv diff_single_trivial split: option.split)

lemma remove_entries: "endpoints (fold remove_entry es s) addr = endpoints s addr - entries_at addr es"
  by (induction es arbitrary: s) (simp_all add: remove_entry_endpoints)

lemma add_entries: "endpoints (fold add_entry es s) addr = endpoints s addr + entries_at addr es"
proof (induction es arbitrary: s)
  case (Cons en es)
  have "endpoints (add_entry en s) addr = endpoints s addr + (if fst en = addr then {#snd en#} else {#})"
    by (simp add: add_entry_def)
  with Cons show ?case by simp
qed simp

lemma remove1_empty: "x \<in> set xs \<Longrightarrow> remove1 x xs = [] \<longleftrightarrow> length xs = Suc 0"
  by (cases xs) auto

lemma remove_entries_none: "(\<forall>a. s a \<noteq> Some []) \<Longrightarrow> fold remove_entry es s addr \<noteq> Some []"
proof (induction es arbitrary: s)
  case (Cons en es)
  have "remove_entry en s a \<noteq> Some []" for a
    using Cons.prems by (auto simp: remove_entry_def remove1_empty split: option.split)
  with Cons.IH show ?case by simp
qed simp

lemma add_entries_none: "(\<forall>a. s a \<noteq> Some []) \<Longrightarrow> fold add_entry es s addr \<noteq> Some []"
proof (induction es arbitrary: s)
  case (Cons en es)
  have "add_entry en s a \<noteq> Some []" for a using Cons.prems by (simp add: add_entry_def)
  with Cons.IH show ?case by simp
qed simp

lemma advertised_without:
  assumes "finite (dom m)"
  shows "advertised (m(k := None)) addr =
    advertised m addr - (case m k of None \<Rightarrow> {#} | Some es \<Rightarrow> entries_at addr es)"
proof (cases "m k")
  case (Some es)
  then have "advertised m addr = entries_at addr es + (\<Sum>j \<in> dom m - {k}. entries_at addr (the (m j)))"
    using sum.remove [OF assms, of k "\<lambda>j. entries_at addr (the (m j))"] by (simp add: advertised_def domI)
  then show ?thesis by (simp add: Some) (simp add: advertised_def)
qed (simp add: fun_upd_idem)

lemma advertised_with:
  assumes "finite (dom m)" and "m k = None"
  shows "advertised (m(k \<mapsto> es)) addr = advertised m addr + entries_at addr es"
proof -
  have "k \<notin> dom m" using assms(2) by (simp add: domIff)
  moreover from this have "(\<Sum>j \<in> dom m. entries_at addr (the ((m(k \<mapsto> es)) j))) = (\<Sum>j \<in> dom m. entries_at addr (the (m j)))"
    by (intro sum.cong) auto
  ultimately show ?thesis using assms(1) by (simp add: advertised_def)
qed

definition slices_ok :: "(string \<rightharpoonup> slice_entry list) \<Rightarrow> informer \<Rightarrow> bool" where
  "slices_ok m t \<longleftrightarrow> finite (dom m) \<and> in_endpoints_by_slice t = m \<and>
     (\<forall>addr. endpoints (in_pod_ip_to_services t) addr = advertised m addr) \<and>
     (\<forall>addr. in_pod_ip_to_services t addr \<noteq> Some [])"

lemma slices_ok_cong:
  "slices_ok m t \<Longrightarrow> in_endpoints_by_slice t' = in_endpoints_by_slice t \<Longrightarrow>
    in_pod_ip_to_services t' = in_pod_ip_to_services t \<Longrightarrow> slices_ok m t'"
  by (simp add: slices_ok_def)

lemma remove_slice_ok:
  assumes "slices_ok m t"
  shows "slices_ok (m(key := None)) (remove_slice key t)"
proof (cases "m key")
  case None
  then show ?thesis using assms by (simp add: slices_ok_def remove_slice_def fun_upd_idem)
next
  case (Some es)
  then show ?thesis
    using assms remove_entries_none [of "in_pod_ip_to_services t" es]
    by (simp add: slices_ok_def remove_slice_def remove_entries advertised_without)
qed

lemma on_endpoint_slice_ok:
  assumes "slices_ok m t"
  shows "slices_ok (slice_effect (Slice_seen eps) m) (on_endpoint_slice eps t)"
proof -
  let ?k = "slice_key eps" and ?es = "slice_entries eps"
  define t1 where "t1 = remove_slice ?k t"
  have t1: "slices_ok (m(?k := None)) t1" using remove_slice_ok [OF assms] by (simp add: t1_def)
  show ?thesis
  proof (cases "ks_service_label eps = [] \<or> ?es = []")
    case True
    then show ?thesis using t1 by (auto simp: on_endpoint_slice_def Let_def t1_def slices_ok_def)
  next
    case False
    have "advertised (m(?k \<mapsto> ?es)) addr = advertised (m(?k := None)) addr + entries_at addr ?es" for addr
      using advertised_with [of "m(?k := None)" ?k ?es addr] t1 by (simp add: slices_ok_def)
    with False t1 show ?thesis
      using add_entries_none [of "in_pod_ip_to_services t1" ?es]
      by (simp add: on_endpoint_slice_def Let_def slices_ok_def add_entries flip: t1_def)
  qed
qed

lemma backfill_frame:
  "in_endpoints_by_slice (fold (backfill n it) names t) = in_endpoints_by_slice t \<and>
    in_pod_ip_to_services (fold (backfill n it) names t) = in_pod_ip_to_services t"
proof (induction names arbitrary: t)
  case (Cons name names)
  have "in_endpoints_by_slice (backfill n it name t) = in_endpoints_by_slice t"
    "in_pod_ip_to_services (backfill n it name t) = in_pod_ip_to_services t"
    by (simp_all add: backfill_def Let_def split: option.split)
  with Cons show ?case by simp
qed simp

lemma kube_step_ok:
  assumes "slices_ok m t"
  shows "slices_ok (slice_effect ev m) (kube_step pa pp ev t)"
proof (cases ev)
  case (Slice_seen eps)
  then show ?thesis using on_endpoint_slice_ok [OF assms] by simp
next
  case (Slice_gone obj)
  then show ?thesis
    using remove_slice_ok [OF assms] assms by (simp add: on_endpoint_slice_delete_def split: option.split)
next
  case (Pod_seen pod)
  then show ?thesis by (auto intro!: slices_ok_cong [OF assms] simp: on_pod_def Let_def)
next
  case (Pod_gone obj)
  then show ?thesis by (auto intro!: slices_ok_cong [OF assms] simp: on_pod_delete_def split: option.split)
next
  case (Node_seen names ips node)
  then show ?thesis by (auto intro!: slices_ok_cong [OF assms] simp: on_node_def Let_def split_beta backfill_frame)
next
  case (Service_seen svc)
  then show ?thesis by (auto intro!: slices_ok_cong [OF assms] simp: on_service_def)
next
  case (Service_gone obj)
  then show ?thesis by (auto intro!: slices_ok_cong [OF assms] simp: on_service_delete_def split: option.split)
qed

lemma kube_run_ok:
  "slices_ok m t \<Longrightarrow> slices_ok (fold slice_effect evs m) (fold (kube_step pa pp) evs t)"
  by (induction evs arbitrary: m t) (simp_all add: kube_step_ok)

lemma new_informer_ok: "slices_ok Map.empty new_informer"
  by (simp add: slices_ok_def new_informer_def advertised_def)

end
