(* ===== verification/Agent_Poll.thy ===== *)
theory Agent_Poll
  imports Classifier Intent_Cache Dns_Tracker Kube_Informer
begin

text \<open>
  What the agent does with the flows of a poll (\<open>handlePoll\<close> of \<open>pkg/agent/agent.go\<close>): it leaves out
  sidecar traffic (\<open>pkg/enricher/sidecar.go\<close>), classifies and prices the rest and names its two
  ends. The cost engine, the process names, the tables of the informer and the clock are arguments.
\<close>

section \<open>Sidecar traffic\<close>

definition known_sidecar_proxies :: "string list" where
  "known_sidecar_proxies = [''envoy'', ''linkerd-proxy'', ''linkerd2-proxy'', ''istio-proxy'']"

definition known_sidecar_ports :: "(u16 \<times> string) list" where
  "known_sidecar_ports = [(15001, ''envoy-outbound''), (15006, ''envoy-inbound''), (15090, ''envoy-stats''),
     (15021, ''envoy-health''), (4143, ''linkerd-outbound''), (4191, ''linkerd-admin'')]"

definition enricher_is_sidecar_port :: "u16 \<Rightarrow> bool" where
  "enricher_is_sidecar_port port \<longleftrightarrow> map_of known_sidecar_ports port \<noteq> None"

definition enricher_is_loopback :: "u32 \<Rightarrow> u32 \<Rightarrow> bool" where
  "enricher_is_loopback src dst \<longleftrightarrow> is_loopback (nbo_to_addr src) \<and> is_loopback (nbo_to_addr dst)"

text \<open>The detector remembers its verdict on a process; \<open>comm\<close> is what \<open>/proc\<close> says now.\<close>

record sidecar_detector =
  sd_pid_to_comm :: "u32 \<rightharpoonup> string"
  sd_sidecar_pids :: "u32 \<rightharpoonup> bool"

definition new_sidecar_detector :: sidecar_detector where
  "new_sidecar_detector = \<lparr>sd_pid_to_comm = Map.empty, sd_sidecar_pids = Map.empty\<rparr>"

definition is_sidecar_process :: "(u32 \<Rightarrow> string) \<Rightarrow> u32 \<Rightarrow> sidecar_detector \<Rightarrow> bool \<times> sidecar_detector" where
  "is_sidecar_process comm pid sd =
     (case sd_sidecar_pids sd pid of
        Some known \<Rightarrow> (known, sd)
      | None \<Rightarrow>
          let is_sidecar = comm pid \<in> set known_sidecar_proxies
          in (is_sidecar, sd\<lparr>sd_pid_to_comm := (sd_pid_to_comm sd)(pid \<mapsto> comm pid),
                            sd_sidecar_pids := (sd_sidecar_pids sd)(pid \<mapsto> is_sidecar)\<rparr>))"

definition process_name :: "u32 \<Rightarrow> sidecar_detector \<Rightarrow> string" where
  "process_name pid sd = (case sd_pid_to_comm sd pid of None \<Rightarrow> [] | Some comm \<Rightarrow> comm)"

definition invalidate_pid :: "u32 \<Rightarrow> sidecar_detector \<Rightarrow> sidecar_detector" where
  "invalidate_pid pid sd = sd\<lparr>sd_pid_to_comm := (sd_pid_to_comm sd)(pid := None),
     sd_sidecar_pids := (sd_sidecar_pids sd)(pid := None)\<rparr>"

definition should_attribute_to_app ::
  "(u32 \<Rightarrow> string) \<Rightarrow> u32 \<Rightarrow> u32 \<Rightarrow> u32 \<Rightarrow> sidecar_detector \<Rightarrow> bool \<times> sidecar_detector" where
  "should_attribute_to_app comm pid src dst sd =
     (if enricher_is_loopback src dst then (False, sd) else is_sidecar_process comm pid sd)"

definition poll_is_sidecar :: "(u32 \<Rightarrow> string) \<Rightarrow> flow_snapshot \<Rightarrow> sidecar_detector \<Rightarrow> bool \<times> sidecar_detector" where
  "poll_is_sidecar comm f sd =
     (if enricher_is_loopback (fs_src_ip f) (fs_dst_ip f) \<or> enricher_is_sidecar_port (fs_src_port f) \<or>
         enricher_is_sidecar_port (fs_dst_port f)
      then (True, sd) else is_sidecar_process comm (fs_pid f) sd)"

section \<open>What the agent knows\<close>

fun decimal :: "nat \<Rightarrow> string" where
  "decimal n = (if n < 10 then [char_of (48 + n)] else decimal (n div 10) @ [char_of (48 + n mod 10)])"

declare decimal.simps [simp del]

text \<open>\<open>String\<close> of an IPv4 address.\<close>

definition addr_text :: "u32 \<Rightarrow> string" where
  "addr_text a = (let octet = \<lambda>i. decimal (unat (drop_bit (8 * i) a AND 255))
     in octet 3 @ ''.'' @ octet 2 @ ''.'' @ octet 1 @ ''.'' @ octet 0)"

text \<open>
  The agent during one poll. \<open>av_comm\<close> is what \<open>/proc\<close> says, \<open>av_container\<close> the container that the
  enricher knows for a process (empty for none), \<open>av_price\<close> the cost engine, \<open>av_now\<close> the clock at
  the DNS lookups of a flow, counted by the flows that are left.
\<close>

record 'cost agent_view =
  av_comm :: "u32 \<Rightarrow> string"
  av_container :: "u32 \<Rightarrow> string"
  av_price :: "traffic_type \<Rightarrow> u64 \<Rightarrow> u64 \<Rightarrow> 'cost"
  av_now :: "nat \<Rightarrow> int \<times> int"
  av_classifier :: classifier
  av_intents :: intent_cache
  av_informer :: "informer option"
  av_dns_tracker :: "tracker option"

section \<open>One poll\<close>

record 'cost classified_flow =
  cfl_traffic_type :: traffic_type
  cfl_tx_bytes :: u64
  cfl_rx_bytes :: u64
  cfl_retransmit_bytes :: u64
  cfl_retransmit_count :: u64
  cfl_cost :: 'cost
  cfl_namespace :: string
  cfl_pod :: string
  cfl_is_sidecar :: bool
  cfl_src_zone :: string
  cfl_src_service :: string
  cfl_dst_namespace :: string
  cfl_dst_pod :: string
  cfl_dst_service :: string
  cfl_dst_zone :: string
  cfl_resolved_domain :: string
  cfl_cloud_service :: string

text \<open>\<open>Classify\<close> gets the addresses and ports of the flow; the hints stay false.\<close>

definition poll_flow_info :: "flow_snapshot \<Rightarrow> flow_info" where
  "poll_flow_info f = \<lparr>fi_src_ip = fs_src_ip f, fi_dst_ip = fs_dst_ip f, fi_original_dst_ip = 0,
     fi_src_port = fs_src_port f, fi_dst_port = fs_dst_port f, fi_original_dst_port = 0,
     fi_intra_node = False, fi_is_sidecar = False\<rparr>"

text \<open>The pod of the flow's process.\<close>

definition source_meta :: "'cost agent_view \<Rightarrow> flow_snapshot \<Rightarrow> pod_meta option" where
  "source_meta v f =
     (case av_informer v of
        None \<Rightarrow> None
      | Some tables \<Rightarrow>
          if av_container v (fs_pid f) = [] then None else in_container_to_pod tables (av_container v (fs_pid f)))"

definition source_service :: "informer \<Rightarrow> pod_meta option \<Rightarrow> string" where
  "source_service tables src_meta =
     (case src_meta of
        None \<Rightarrow> []
      | Some pod \<Rightarrow>
          if pm_pod_ip pod = [] then []
          else case lookup_service tables (pm_pod_ip pod) of [] \<Rightarrow> [] | sep # _ \<Rightarrow> sp_service_name sep)"

text \<open>The service that was dialed, by namespace and name, from the destination before DNAT.\<close>

definition dialed_service :: "informer \<Rightarrow> intent_cache \<Rightarrow> flow_snapshot \<Rightarrow> string \<times> string" where
  "dialed_service tables intents f =
     (case intent_get (snapshot_key f) intents of
        None \<Rightarrow> ([], [])
      | Some d \<Rightarrow>
          if id_ip d = 0 then ([], [])
          else case in_cluster_ip_to_svc tables (addr_text (nbo_to_addr (id_ip d))) of
                 None \<Rightarrow> ([], []) | Some ref \<Rightarrow> (rf_namespace ref, rf_name ref))"

text \<open>
  What the pod behind the destination adds: its name, and whatever is still empty of namespace,
  service and zone. The result is namespace, pod, service, zone.
\<close>

definition destination_pod ::
  "informer \<Rightarrow> flow_snapshot \<Rightarrow> string \<times> string \<Rightarrow> string \<Rightarrow> string \<times> string \<times> string \<times> string" where
  "destination_pod tables f dialed dst_zone =
     (case in_pod_ip_to_meta tables (addr_text (nbo_to_addr (fs_dst_ip f))) of
        None \<Rightarrow> (fst dialed, [], snd dialed, dst_zone)
      | Some pod \<Rightarrow>
          let ns = (if fst dialed = [] then pm_namespace pod else fst dialed);
              svcs = (if snd dialed = [] then lookup_service tables (pm_pod_ip pod) else []);
              service = (case svcs of [] \<Rightarrow> snd dialed | sep # _ \<Rightarrow> sp_service_name sep);
              ns2 = (case svcs of [] \<Rightarrow> ns | sep # _ \<Rightarrow> if ns = [] then sp_service_namespace sep else ns)
          in (ns2, pm_name pod, service,
              if dst_zone = [] \<and> pm_node_name pod \<noteq> [] then node_zone tables (pm_node_name pod) else dst_zone))"

definition classify_flow ::
  "'cost::zero agent_view \<Rightarrow> int \<times> int \<Rightarrow> flow_snapshot \<Rightarrow> sidecar_detector \<Rightarrow>
    'cost classified_flow \<times> sidecar_detector" where
  "classify_flow v now f sd =
     (let (is_sidecar, sd') = poll_is_sidecar (av_comm v) f sd;
          result = classify (av_classifier v) (poll_flow_info f);
          src_meta = source_meta v f;
          dst = Addr4 (nbo_to_addr (fs_dst_ip f));
          domain = (case av_dns_tracker v of None \<Rightarrow> [] | Some t \<Rightarrow> fst (tracker_lookup dst (fst now) t));
          cloud = (case av_dns_tracker v of None \<Rightarrow> [] | Some t \<Rightarrow> snd (tracker_lookup dst (snd now) t));
          (src_service, (dst_ns, dst_pod, dst_service, dst_zone)) =
            (case av_informer v of
               None \<Rightarrow> ([], ([], [], [], cr_dst_zone result))
             | Some tables \<Rightarrow>
                 if is_sidecar then ([], ([], [], [], cr_dst_zone result))
                 else (source_service tables src_meta,
                   destination_pod tables f (dialed_service tables (av_intents v) f) (cr_dst_zone result)))
      in (\<lparr>cfl_traffic_type = cr_type result, cfl_tx_bytes = fs_tx_bytes f, cfl_rx_bytes = fs_rx_bytes f,
           cfl_retransmit_bytes = fs_retransmit_bytes f, cfl_retransmit_count = fs_retransmit_count f,
           cfl_cost = (if is_sidecar then 0 else av_price v (cr_type result) (fs_tx_bytes f) (fs_rx_bytes f)),
           cfl_namespace = (case src_meta of None \<Rightarrow> [] | Some pod \<Rightarrow> pm_namespace pod),
           cfl_pod = (case src_meta of None \<Rightarrow> [] | Some pod \<Rightarrow> pm_name pod),
           cfl_is_sidecar = is_sidecar, cfl_src_zone = cr_src_zone result, cfl_src_service = src_service,
           cfl_dst_namespace = dst_ns, cfl_dst_pod = dst_pod, cfl_dst_service = dst_service,
           cfl_dst_zone = dst_zone, cfl_resolved_domain = domain, cfl_cloud_service = cloud\<rparr>, sd'))"

fun handle_poll ::
  "'cost::zero agent_view \<Rightarrow> flow_snapshot list \<Rightarrow> sidecar_detector \<Rightarrow> 'cost classified_flow list \<times> sidecar_detector" where
  "handle_poll v [] sd = ([], sd)"
| "handle_poll v (f # flows) sd =
     (let (cf, sd1) = classify_flow v (av_now v (length flows)) f sd;
          (cfs, sd2) = handle_poll v flows sd1
      in (cf # cfs, sd2))"

text \<open>What is sent to the control plane; \<open>None\<close> when there is nothing to send.\<close>

record 'cost cost_result =
  cs_traffic_type :: traffic_type
  cs_tx_bytes :: u64
  cs_rx_bytes :: u64
  cs_src :: "string \<times> string \<times> string \<times> string"
  cs_dst :: "string \<times> string \<times> string \<times> string"
  cs_resolved_domain :: string
  cs_cloud_service :: string
  cs_cost_usd :: 'cost

definition cost_result_of :: "'cost classified_flow \<Rightarrow> 'cost cost_result" where
  "cost_result_of cf = \<lparr>cs_traffic_type = cfl_traffic_type cf, cs_tx_bytes = cfl_tx_bytes cf, cs_rx_bytes = cfl_rx_bytes cf,
     cs_src = (cfl_namespace cf, cfl_pod cf, cfl_src_zone cf, cfl_src_service cf),
     cs_dst = (cfl_dst_namespace cf, cfl_dst_pod cf, cfl_dst_service cf, cfl_dst_zone cf),
     cs_resolved_domain = cfl_resolved_domain cf, cs_cloud_service = cfl_cloud_service cf, cs_cost_usd = cfl_cost cf\<rparr>"

definition published :: "'cost classified_flow list \<Rightarrow> 'cost cost_result list option" where
  "published cfs = (let results = map cost_result_of (filter (\<lambda>cf. \<not> cfl_is_sidecar cf) cfs)
     in if results = [] then None else Some results)"

section \<open>Kernel and userspace agree on sidecars\<close>

lemma sidecar_ports_agree: "enricher_is_sidecar_port port \<longleftrightarrow> is_sidecar_port port"
  by (simp add: enricher_is_sidecar_port_def known_sidecar_ports_def is_sidecar_port_def)

lemma loopback_agrees: "is_loopback (nbo_to_addr loopback)"
  by (simp add: nbo_to_addr_swap loopback_def) (simp add: builtin_bswap32_def bpf_swab32_def bpf_mvb_def le_word32_def is_loopback_def)

text \<open>A connection whose bytes the kernel leaves out is left out by userspace, whatever the detector knows.\<close>

lemma kernel_sidecar_left_out:
  assumes "is_sidecar_socket_cookie k (Some ci)"
  shows "fst (poll_is_sidecar comm (sum_per_cpu (flow_key_of ci) vals) sd)"
proof -
  let ?f = "sum_per_cpu (flow_key_of ci) vals"
  have key: "snapshot_key ?f = flow_intent_key (flow_key_of ci)" by (rule snapshot_key_sum)
  then have "fs_src_ip ?f = ci_src_ip ci" "fs_dst_ip ?f = ci_dst_ip ci" "fs_src_port ?f = ci_src_port ci"
    "fs_dst_port ?f = ci_dst_port ci"
    by (simp_all add: snapshot_key_def flow_intent_key_def flow_key_of_def)
  with assms show ?thesis
    using loopback_agrees
    by (auto simp: poll_is_sidecar_def enricher_is_loopback_def sidecar_ports_agree is_sidecar_socket_cookie_def
        split: if_splits)
qed

lemma classify_flow_simps [simp]:
  "snd (classify_flow v now f sd) = snd (poll_is_sidecar (av_comm v) f sd)"
  "cfl_is_sidecar (fst (classify_flow v now f sd)) = fst (poll_is_sidecar (av_comm v) f sd)"
  "cfl_tx_bytes (fst (classify_flow v now f sd)) = fs_tx_bytes f"
  "cfl_rx_bytes (fst (classify_flow v now f sd)) = fs_rx_bytes f"
  "cfl_cost (fst (classify_flow v now f sd)) =
    (if fst (poll_is_sidecar (av_comm v) f sd) then 0
     else av_price v (cr_type (classify (av_classifier v) (poll_flow_info f))) (fs_tx_bytes f) (fs_rx_bytes f))"
  "cfl_traffic_type (fst (classify_flow v now f sd)) = cr_type (classify (av_classifier v) (poll_flow_info f))"
  by (simp_all add: classify_flow_def split_beta Let_def)

lemma handle_poll_Cons:
  "handle_poll v (f # flows) sd =
    (fst (classify_flow v (av_now v (length flows)) f sd) #
       fst (handle_poll v flows (snd (poll_is_sidecar (av_comm v) f sd))),
     snd (handle_poll v flows (snd (poll_is_sidecar (av_comm v) f sd))))"
  by (simp add: split_beta Let_def)

declare handle_poll.simps(2) [simp del]

lemma handle_poll_length: "length (fst (handle_poll v flows sd)) = length flows"
  by (induction flows arbitrary: sd) (simp_all add: handle_poll_Cons)

lemma handle_poll_nth:
  "i < length flows \<Longrightarrow> \<exists>sd'. fst (handle_poll v flows sd) ! i =
    fst (classify_flow v (av_now v (length flows - Suc i)) (flows ! i) sd')"
proof (induction flows arbitrary: i sd)
  case (Cons f flows)
  show ?case
  proof (cases i)
    case 0
    then show ?thesis by (auto simp: handle_poll_Cons)
  next
    case (Suc j)
    then have "j < length flows" using Cons.prems by simp
    from Cons.IH [OF this] show ?thesis by (simp add: Suc handle_poll_Cons)
  qed
qed simp

lemma handle_poll_bytes:
  "map cfl_tx_bytes (fst (handle_poll v flows sd)) = map fs_tx_bytes flows"
  "map cfl_rx_bytes (fst (handle_poll v flows sd)) = map fs_rx_bytes flows"
  by (induction flows arbitrary: sd) (simp_all add: handle_poll_Cons)

text \<open>What is published comes from flows that are not left out.\<close>

lemma published_only:
  assumes "published (fst (handle_poll v flows sd)) = Some results" and "r \<in> set results"
  shows "\<exists>i < length flows. r = cost_result_of (fst (handle_poll v flows sd) ! i) \<and>
    \<not> cfl_is_sidecar (fst (handle_poll v flows sd) ! i)"
proof -
  obtain cf where cf: "cf \<in> set (fst (handle_poll v flows sd))" "\<not> cfl_is_sidecar cf" "r = cost_result_of cf"
    using assms by (auto simp: published_def Let_def split: if_splits)
  then obtain i where "i < length flows" "fst (handle_poll v flows sd) ! i = cf"
    by (auto simp: in_set_conv_nth handle_poll_length)
  with cf show ?thesis by blast
qed

text \<open>The flows of a proxy are left out whatever they reach, and a verdict is never taken back.\<close>

lemma proxy_left_out:
  assumes "comm (fs_pid f) \<in> set known_sidecar_proxies" and "sd_sidecar_pids sd (fs_pid f) = None"
  shows "fst (poll_is_sidecar comm f sd)"
  using assms by (simp add: poll_is_sidecar_def is_sidecar_process_def Let_def)

lemma verdict_stays:
  assumes "sd_sidecar_pids sd pid = Some v"
  shows "sd_sidecar_pids (snd (poll_is_sidecar comm f sd)) pid = Some v"
  using assms by (auto simp: poll_is_sidecar_def is_sidecar_process_def Let_def split: option.split)

lemma verdict_stays_poll:
  "sd_sidecar_pids sd pid = Some b \<Longrightarrow> sd_sidecar_pids (snd (handle_poll v flows sd)) pid = Some b"
  by (induction flows arbitrary: sd) (simp_all add: handle_poll_Cons verdict_stays)

text \<open>The dialed service names the destination of a flow that is not left out.\<close>

lemma dialed_named:
  assumes "av_informer v = Some tables" and "\<not> fst (poll_is_sidecar (av_comm v) f sd)"
    and "dialed_service tables (av_intents v) f = (ns, service)" "ns \<noteq> []" "service \<noteq> []"
  shows "cfl_dst_namespace (fst (classify_flow v now f sd)) = ns \<and>
    cfl_dst_service (fst (classify_flow v now f sd)) = service"
  using assms
  by (cases "in_pod_ip_to_meta tables (addr_text (nbo_to_addr (fs_dst_ip f)))")
    (simp_all add: classify_flow_def split_beta Let_def destination_pod_def)

end
