(* ===== verification/Cluster_View.thy ===== *)
theory Cluster_View
  imports Classifier Kube_Informer
begin

text \<open>
  The informer feeds the classifier: the agent connects \<open>OnPodCIDR\<close> to \<open>AddClusterCIDR\<close> and
  \<open>OnZoneUpdate\<close> to \<open>SetIPZone\<close> of the classifier's resolver. The two together, over any sequence of
  cluster events and topology updates.
\<close>

definition feed_zones :: "(ip_addr \<times> string) list \<Rightarrow> classifier \<Rightarrow> classifier" where
  "feed_zones zones c = c\<lparr>cf_resolver := fold (\<lambda>(addr, zone). set_ip_zone addr zone) zones (cf_resolver c)\<rparr>"

definition feed_cidrs :: "ip_prefix list \<Rightarrow> classifier \<Rightarrow> classifier" where
  "feed_cidrs prefixes c = fold add_cluster_cidr prefixes c"

text \<open>Events that the informer handles, and topology updates; the agent replaces no cluster ranges.\<close>

datatype view_event = Kube kube_event | Topology topology_op

type_synonym cluster_view = "informer \<times> classifier"

fun view_step ::
  "(string \<Rightarrow> ip_addr option) \<Rightarrow> (string \<Rightarrow> ip_prefix option) \<Rightarrow> view_event \<Rightarrow> cluster_view \<Rightarrow> cluster_view" where
  "view_step pa pp (Kube (Pod_seen pod)) (t, c) =
     (let (t', zones) = on_pod pa pod t in (t', feed_zones zones c))"
| "view_step pa pp (Kube (Node_seen names ips node)) (t, c) =
     (let (t', prefixes, zones) = on_node pa pp names ips node t in (t', feed_zones zones (feed_cidrs prefixes c)))"
| "view_step pa pp (Kube ev) (t, c) = (kube_step pa pp ev t, c)"
| "view_step pa pp (Topology op) (t, c) = (t, topology_step op c)"

fun keeps_ranges :: "view_event \<Rightarrow> bool" where
  "keeps_ranges (Topology (Set_cluster ps)) \<longleftrightarrow> False"
| "keeps_ranges _ \<longleftrightarrow> True"

text \<open>Every range that the informer has taken is one of the classifier's.\<close>

definition ranges_ok :: "(string \<Rightarrow> ip_prefix option) \<Rightarrow> cluster_view \<Rightarrow> bool" where
  "ranges_ok pp v \<longleftrightarrow> (\<forall>raw \<in> in_pod_cidrs (fst v). \<exists>p. pp raw = Some p \<and>
     (prefix_valid p \<longrightarrow> p \<in> set (cf_cluster_prefixes (snd v))))"

lemma add_cluster_set: "set (cf_cluster_prefixes (add_cluster_cidr p c)) = set (cf_cluster_prefixes c) \<union> {q. q = p \<and> prefix_valid q}"
  by (auto simp: add_cluster_cidr_def)

lemma feed_cidrs_set:
  "set (cf_cluster_prefixes (feed_cidrs ps c)) = set (cf_cluster_prefixes c) \<union> {p \<in> set ps. prefix_valid p}"
proof (induction ps arbitrary: c)
  case (Cons p ps)
  from Cons.IH [of "add_cluster_cidr p c"] show ?case by (auto simp: feed_cidrs_def add_cluster_set)
qed (simp add: feed_cidrs_def)

lemma feed_zones_ranges [simp]: "cf_cluster_prefixes (feed_zones zones c) = cf_cluster_prefixes c"
  by (simp add: feed_zones_def)

text \<open>What one node adds: every range that parses is taken, with its prefix if it is new.\<close>

lemma take_cidrs:
  assumes "fold (take_cidr pp) raws (old, out) = (cidrs, prefixes)"
  shows "cidrs = old \<union> {raw \<in> set raws. raw \<noteq> [] \<and> pp raw \<noteq> None} \<and>
    (\<exists>added. prefixes = out @ added \<and> (\<forall>raw \<in> cidrs - old. \<exists>p \<in> set added. pp raw = Some p))"
  using assms
proof (induction raws arbitrary: old out)
  case (Cons raw raws)
  obtain old' new where step: "take_cidr pp raw (old, out) = (old', out @ new)"
    and old': "old' = old \<union> {r. r = raw \<and> r \<noteq> [] \<and> pp r \<noteq> None}"
    and new: "\<forall>r \<in> old' - old. \<exists>p \<in> set new. pp r = Some p"
  proof (cases "raw = [] \<or> raw \<in> old \<or> pp raw = None")
    case True
    show thesis by (rule that [of old "[]"]) (use True in \<open>auto simp: take_cidr_def\<close>)
  next
    case False
    then obtain p where p: "pp raw = Some p" by auto
    have only: "r = raw" if "r \<in> insert raw old - old" for r using that by blast
    show thesis
      by (rule that [of "insert raw old" "[p]"]) (use False p only in \<open>auto simp: take_cidr_def\<close>)
  qed
  have "fold (take_cidr pp) raws (old', out @ new) = (cidrs, prefixes)" using Cons.prems step by simp
  from Cons.IH [OF this] obtain added where added: "cidrs = old' \<union> {raw \<in> set raws. raw \<noteq> [] \<and> pp raw \<noteq> None}"
    "prefixes = (out @ new) @ added" "\<forall>raw \<in> cidrs - old'. \<exists>p \<in> set added. pp raw = Some p"
    by blast
  have "\<forall>r \<in> cidrs - old. \<exists>p \<in> set (new @ added). pp r = Some p" using added(3) new by fastforce
  with added(1,2) old' show ?case by auto
qed simp

definition node_cidrs :: "kube_node \<Rightarrow> string list" where
  "node_cidrs node = (if kn_pod_cidr node \<noteq> [] then [kn_pod_cidr node] else []) @ kn_pod_cidrs node"

lemma backfill_cidrs: "in_pod_cidrs (fold (backfill n it) names t) = in_pod_cidrs t"
proof (induction names arbitrary: t)
  case (Cons name names)
  have "in_pod_cidrs (backfill n it name t) = in_pod_cidrs t" by (simp add: backfill_def Let_def split: option.split)
  with Cons show ?case by simp
qed simp

lemma on_node_cidrs:
  assumes "on_node pa pp names ips node t = (t', prefixes, zones)"
  shows "in_pod_cidrs t' = in_pod_cidrs t \<union> {raw \<in> set (node_cidrs node). raw \<noteq> [] \<and> pp raw \<noteq> None}"
    and "\<forall>raw \<in> in_pod_cidrs t' - in_pod_cidrs t. \<exists>p \<in> set prefixes. pp raw = Some p"
proof -
  obtain cidrs added where fold: "fold (take_cidr pp) (node_cidrs node) (in_pod_cidrs t, []) = (cidrs, added)"
    by fastforce
  then have "in_pod_cidrs t' = cidrs" "prefixes = added"
    using assms by (auto simp: on_node_def Let_def node_cidrs_def backfill_cidrs split: if_splits)
  with take_cidrs [OF fold] show "in_pod_cidrs t' = in_pod_cidrs t \<union> {raw \<in> set (node_cidrs node). raw \<noteq> [] \<and> pp raw \<noteq> None}"
    "\<forall>raw \<in> in_pod_cidrs t' - in_pod_cidrs t. \<exists>p \<in> set prefixes. pp raw = Some p"
    by auto
qed

lemma ranges_grow:
  assumes "ranges_ok pp (t, c)" and "in_pod_cidrs t' = in_pod_cidrs t"
    and "set (cf_cluster_prefixes c) \<subseteq> set (cf_cluster_prefixes c')"
  shows "ranges_ok pp (t', c') \<and> in_pod_cidrs t \<subseteq> in_pod_cidrs t'"
  using assms by (fastforce simp: ranges_ok_def)

lemma topology_ranges:
  "keeps_ranges (Topology op) \<Longrightarrow> set (cf_cluster_prefixes c) \<subseteq> set (cf_cluster_prefixes (topology_step op c))"
  by (cases op) (auto simp: set_vpc_peering_cidrs_def set_transit_gateway_cidrs_def set_vpc_endpoint_cidrs_def
      set_nat_gateway_ips_def set_default_route_nat_def add_cluster_set)

lemma on_node_ranges:
  assumes "ranges_ok pp (t, c)" and "on_node pa pp names ips node t = (t', prefixes, zones)"
  shows "ranges_ok pp (t', feed_zones zones (feed_cidrs prefixes c)) \<and> in_pod_cidrs t \<subseteq> in_pod_cidrs t'"
proof -
  have "\<exists>p. pp raw = Some p \<and> (prefix_valid p \<longrightarrow> p \<in> set (cf_cluster_prefixes (feed_cidrs prefixes c)))"
    if "raw \<in> in_pod_cidrs t'" for raw
  proof (cases "raw \<in> in_pod_cidrs t")
    case True
    then show ?thesis using assms(1) by (auto simp: ranges_ok_def feed_cidrs_set)
  next
    case False
    then obtain p where "p \<in> set prefixes" "pp raw = Some p" using on_node_cidrs(2) [OF assms(2)] \<open>raw \<in> in_pod_cidrs t'\<close> by auto
    then show ?thesis by (auto simp: feed_cidrs_set)
  qed
  then show ?thesis using on_node_cidrs(1) [OF assms(2)] by (auto simp: ranges_ok_def)
qed

lemma view_step_ranges:
  assumes "ranges_ok pp v" and "keeps_ranges ev"
  shows "ranges_ok pp (view_step pa pp ev v) \<and> in_pod_cidrs (fst v) \<subseteq> in_pod_cidrs (fst (view_step pa pp ev v))"
proof (cases v)
  case (Pair t c)
  show ?thesis
  proof (cases ev)
    case (Topology op)
    then show ?thesis using ranges_grow [of pp t c t "topology_step op c"] topology_ranges [of op c] assms Pair by simp
  next
    case (Kube kev)
    show ?thesis
    proof (cases kev)
      case (Pod_seen pod)
      then show ?thesis
        using ranges_grow [of pp t c "fst (on_pod pa pod t)" "feed_zones (snd (on_pod pa pod t)) c"] assms(1) Pair Kube
        by (simp add: split_beta) (simp add: on_pod_def Let_def)
    next
      case (Node_seen names ips node)
      obtain t2 prefixes zones where "on_node pa pp names ips node t = (t2, prefixes, zones)" using prod_cases3 by blast
      then show ?thesis
        using Node_seen Kube Pair on_node_ranges [of pp t c pa names ips node t2 prefixes zones] assms(1) by simp
    qed (use assms(1) Pair Kube ranges_grow [of pp t c _ c] in \<open>auto simp: on_pod_delete_def on_endpoint_slice_def Let_def
        on_endpoint_slice_delete_def remove_slice_def on_service_def on_service_delete_def split: option.split\<close>)
  qed
qed

abbreviation view_run ::
  "(string \<Rightarrow> ip_addr option) \<Rightarrow> (string \<Rightarrow> ip_prefix option) \<Rightarrow> view_event list \<Rightarrow> cluster_view \<Rightarrow> cluster_view" where
  "view_run pa pp evs v \<equiv> fold (view_step pa pp) evs v"

lemma view_run_ranges:
  "ranges_ok pp v \<Longrightarrow> \<forall>ev \<in> set evs. keeps_ranges ev \<Longrightarrow>
    ranges_ok pp (view_run pa pp evs v) \<and> in_pod_cidrs (fst v) \<subseteq> in_pod_cidrs (fst (view_run pa pp evs v))"
proof (induction evs arbitrary: v)
  case (Cons ev evs)
  have "ranges_ok pp (view_step pa pp ev v)" "in_pod_cidrs (fst v) \<subseteq> in_pod_cidrs (fst (view_step pa pp ev v))"
    using view_step_ranges [of pp v ev pa] Cons.prems by simp_all
  with Cons.IH [of "view_step pa pp ev v"] Cons.prems(2) show ?case by (simp only: fold_simps list.set) blast
qed simp

text \<open>A range that a node announced is the classifier's from then on.\<close>

lemma announced_range:
  assumes "\<forall>ev \<in> set (evs @ Kube (Node_seen names ips node) # evs'). keeps_ranges ev"
    and "raw \<in> set (node_cidrs node)" "raw \<noteq> []" "pp raw = Some p" "prefix_valid p"
  shows "p \<in> set (cf_cluster_prefixes (snd (view_run pa pp (evs @ Kube (Node_seen names ips node) # evs') (new_informer, c))))"
proof -
  define v where "v = view_run pa pp evs (new_informer, c)"
  have "ranges_ok pp (new_informer, c)" by (simp add: ranges_ok_def new_informer_def)
  then have v: "ranges_ok pp v" using view_run_ranges [of pp "(new_informer, c)" evs pa] assms(1) by (simp add: v_def)
  define w where "w = view_step pa pp (Kube (Node_seen names ips node)) v"
  have w: "ranges_ok pp w" using view_step_ranges [OF v, of "Kube (Node_seen names ips node)" pa] by (simp add: w_def)
  obtain t cv where tc: "v = (t, cv)" by (cases v)
  obtain t' prefixes zones where node: "on_node pa pp names ips node t = (t', prefixes, zones)" using prod_cases3 by blast
  have "raw \<in> in_pod_cidrs (fst w)" using on_node_cidrs(1) [OF node] assms(2-4) by (simp add: w_def tc node)
  then have "raw \<in> in_pod_cidrs (fst (view_run pa pp evs' w))" "ranges_ok pp (view_run pa pp evs' w)"
    using view_run_ranges [OF w, of evs' pa] assms(1) by auto
  then show ?thesis using assms(4,5) by (auto simp: ranges_ok_def v_def w_def)
qed

lemma internal_types: "cr_type (classify_internal c flow dst) \<in> {Unknown, SameZone, CrossAZ, CrossRegion}"
  by (simp add: classify_internal_def Let_def)

end
