(* ===== verification/Poll_Setup.thy ===== *)
theory Poll_Setup
  imports Poll_Drain
begin

text \<open>
  The rest of \<open>pkg/poller/poller.go\<close>: how \<open>New\<close> decides for the batch calls and sizes its buffers,
  and the lossy fall back for the QUIC map.
\<close>

section \<open>Construction\<close>

text \<open>Intervals are in nanoseconds.\<close>

record poller_config =
  pc_interval :: int
  pc_batch_size :: int

definition set_poller_defaults :: "poller_config \<Rightarrow> poller_config" where
  "set_poller_defaults c = c\<lparr>pc_interval := (if pc_interval c = 0 then 5 * 10 ^ 9 else pc_interval c),
     pc_batch_size := (if pc_batch_size c = 0 then 256 else pc_batch_size c)\<rparr>"

datatype probe_err =
  Probe_ok | Probe_key_not_exist | Probe_not_supported | Probe_einval | Probe_eopnotsupp | Probe_other string

text \<open>Supported, and the error when it is an unexpected one.\<close>

fun classify_batch_probe :: "probe_err \<Rightarrow> bool \<times> string option" where
  "classify_batch_probe Probe_ok = (True, None)"
| "classify_batch_probe Probe_key_not_exist = (True, None)"
| "classify_batch_probe Probe_not_supported = (False, None)"
| "classify_batch_probe Probe_einval = (False, None)"
| "classify_batch_probe Probe_eopnotsupp = (False, None)"
| "classify_batch_probe (Probe_other err) = (False, Some err)"

record poller =
  po_config :: poller_config
  po_use_batch :: bool
  po_num_cpu :: nat
  po_key_slots :: int
  po_value_slots :: int

text \<open>
  \<open>cpus\<close> is the answer of \<open>ebpf.PossibleCPU\<close>, \<open>None\<close> an error; \<open>probe\<close> is the outcome of the probe
  call, \<open>None\<close> when there is no flow map.
\<close>

definition possible_cpus :: "nat option \<Rightarrow> nat \<Rightarrow> nat" where
  "possible_cpus cpus num_cpu = (case cpus of Some n \<Rightarrow> n | None \<Rightarrow> num_cpu)"

definition new_poller :: "poller_config \<Rightarrow> nat option \<Rightarrow> nat \<Rightarrow> probe_err option \<Rightarrow> poller" where
  "new_poller cfg cpus num_cpu probe =
     (let c = set_poller_defaults cfg; n = possible_cpus cpus num_cpu
      in \<lparr>po_config = c,
          po_use_batch = (case probe of None \<Rightarrow> False | Some err \<Rightarrow> fst (classify_batch_probe err)),
          po_num_cpu = n, po_key_slots = pc_batch_size c, po_value_slots = pc_batch_size c * int n\<rparr>)"

text \<open>Every batch of the configured size fits the value buffer, one slot per entry and CPU.\<close>

lemma batch_fits:
  assumes "int i < po_key_slots (new_poller cfg cpus num_cpu probe)"
  shows "int (i * po_num_cpu (new_poller cfg cpus num_cpu probe) + po_num_cpu (new_poller cfg cpus num_cpu probe))
    \<le> po_value_slots (new_poller cfg cpus num_cpu probe)"
proof -
  let ?p = "new_poller cfg cpus num_cpu probe"
  have "(int i + 1) * int (po_num_cpu ?p) \<le> po_key_slots ?p * int (po_num_cpu ?p)"
    by (rule mult_right_mono) (use assms in simp_all)
  moreover have "po_value_slots ?p = po_key_slots ?p * int (po_num_cpu ?p)" by (simp add: new_poller_def Let_def)
  ultimately show ?thesis by (simp add: algebra_simps)
qed

section \<open>The QUIC map without LookupAndDelete\<close>

definition read_quic :: "nat \<Rightarrow> quic_flow_key \<Rightarrow> system \<Rightarrow> system" where
  "read_quic n key s = (fst s, snd (poll_quic_flow n key s))"

definition delete_quic :: "quic_flow_key \<Rightarrow> system \<Rightarrow> system" where
  "delete_quic key s = ((fst s)\<lparr>quic_flows := bpf_map_delete_elem key (quic_flows (fst s))\<rparr>, snd s)"

definition poll_quic_key :: "nat \<Rightarrow> bool \<Rightarrow> sys_event list \<Rightarrow> quic_flow_key \<Rightarrow> system \<Rightarrow> system" where
  "poll_quic_key n lookup_and_delete busy key s =
     (if lookup_and_delete then poll_quic_flow n key s
      else delete_quic key (fold (sys_step n) busy (read_quic n key s)))"

lemma fold_poll_quic_key: "fold (poll_quic_key n True []) keys s = poll_quic n keys s"
proof -
  have "poll_quic_key n True [] = poll_quic_flow n" by (simp add: poll_quic_key_def fun_eq_iff)
  then show ?thesis by (simp add: poll_quic_def)
qed

text \<open>When nothing happens in between, reading and deleting is the atomic drain.\<close>

lemma quiet_fallback:
  "poll_quic_key n False [] key s = poll_quic_flow n key s" "poll_key n False [] fkey s = poll_flow n fkey s"
proof -
  have "(quic_flows a)\<lparr>entries := (entries (quic_flows a))(key := None)\<rparr> = quic_flows a" if "lookup_quic a key = None" for a
    using that by (simp add: lookup_quic_def bpf_map_lookup_elem_def fun_upd_idem)
  then show "poll_quic_key n False [] key s = poll_quic_flow n key s"
    by (cases s) (simp add: poll_quic_key_def read_quic_def delete_quic_def poll_quic_flow_def bpf_map_delete_elem_def
        split: option.split)
  have "(flow_aggregates a)\<lparr>entries := (entries (flow_aggregates a))(fkey := None)\<rparr> = flow_aggregates a"
    if "lookup_flow a fkey = None" for a
    using that by (simp add: lookup_flow_def bpf_map_lookup_elem_def fun_upd_idem)
  then show "poll_key n False [] fkey s = poll_flow n fkey s"
    by (cases s) (simp add: poll_key_def read_flow_def delete_flow_def poll_flow_def bpf_map_delete_elem_def
        split: option.split)
qed

end
