(* ===== verification/Dns_Facts.thy ===== *)
theory Dns_Facts
  imports Dns_Tracker Forgetful_Map Core_Read Layout
begin

text \<open>
  What the DNS tracker promises over any sequence of answers: the cache stays bounded, what it
  tells is the latest answer and not past its time, the counters stay bounded; and the datagram it
  parses is the one that the kernel program captured.
\<close>

section \<open>Sequences of answers\<close>

datatype tracker_op =
  Dns_answered int ip_addr string int
| Counts_reset int

fun tracker_step :: "((string \<rightharpoonup> u64) \<Rightarrow> string list) \<Rightarrow> tracker_op \<Rightarrow> tracker \<Rightarrow> tracker" where
  "tracker_step order (Dns_answered now addr domain ttl) t = cache_insert order now addr domain ttl t"
| "tracker_step order (Counts_reset now) t = reset_query_counts now t"

text \<open>What an unbounded cache would hold: for an address the name of the latest answer and the end of its time.\<close>

fun answer_map :: "dns_config \<Rightarrow> tracker_op \<Rightarrow> (ip_addr \<rightharpoonup> string \<times> int) \<Rightarrow> (ip_addr \<rightharpoonup> string \<times> int)" where
  "answer_map c (Dns_answered now a domain ttl) m =
     (if addr_valid a \<and> domain \<noteq> [] then m(a \<mapsto> (domain, now + clamp_ttl c ttl)) else m)"
| "answer_map c (Counts_reset now) m = m"

fun answered :: "tracker_op \<Rightarrow> ip_addr set" where
  "answered (Dns_answered now a domain ttl) = (if addr_valid a \<and> domain \<noteq> [] then {a} else {})"
| "answered (Counts_reset now) = {}"

section \<open>The ring bounds the cache\<close>

text \<open>
  An address can be in the cache without a slot in the ring: a repeated answer takes a second slot
  and may overwrite the only one of another address. Such addresses are fewer than the slots.
\<close>

definition ring_ok :: "tracker \<Rightarrow> bool" where
  "ring_ok t \<longleftrightarrow> tr_ring_pos t < length (tr_ring t) \<and> finite (dom (tr_cache t)) \<and>
     (\<forall>a \<in> dom (tr_cache t). addr_valid a) \<and> card (dom (tr_cache t) - set (tr_ring t)) < length (tr_ring t)"

lemma cache_insert_ring: "length (tr_ring (cache_insert order now addr domain ttl t)) = length (tr_ring t)"
  by (simp add: cache_insert_def Let_def)

lemma cache_insert_ring_ok:
  assumes "ring_ok t"
  shows "ring_ok (cache_insert order now addr domain ttl t)"
proof (cases "addr_valid addr \<and> domain \<noteq> []")
  case True
  define pos ring where "pos = tr_ring_pos t" and "ring = tr_ring t"
  define cache1 where "cache1 = (tr_cache t)(addr \<mapsto> \<lparr>ce_domain = domain,
    ce_service = service_lookup (tr_service_mapper t) domain, ce_expires_at = now + clamp_ttl (tr_config t) ttl\<rparr>)"
  define cache2 where "cache2 = (if card (dom cache1) > length ring \<and> addr_valid (ring ! pos)
    then cache1(ring ! pos := None) else cache1)"
  have pos: "pos < length ring" and fin: "finite (dom (tr_cache t))" and valid: "\<forall>a \<in> dom (tr_cache t). addr_valid a"
    and few: "card (dom (tr_cache t) - set ring) < length ring"
    using assms by (simp_all add: ring_ok_def pos_def ring_def)
  have dom1: "dom cache1 = insert addr (dom (tr_cache t))" by (simp add: cache1_def)
  have slot: "addr \<in> set (ring[pos := addr])" using pos by (rule set_update_memI)
  have "card (dom cache2 - set (ring[pos := addr])) < length ring"
  proof (cases "card (dom cache1) > length ring")
    case False
    then have same: "cache2 = cache1" by (simp add: cache2_def)
    have "dom cache1 - set (ring[pos := addr]) \<subset> dom cache1" using slot dom1 by blast
    then have "card (dom cache1 - set (ring[pos := addr])) < card (dom cache1)"
      by (rule psubset_card_mono [rotated]) (simp add: dom1 fin)
    with False show ?thesis by (simp add: same)
  next
    case True
    have "dom cache2 - set (ring[pos := addr]) \<subseteq> dom (tr_cache t) - set ring"
    proof
      fix x assume x: "x \<in> dom cache2 - set (ring[pos := addr])"
      then have "x \<noteq> addr" using slot by blast
      with x have "x \<in> dom (tr_cache t)" by (auto simp: cache2_def cache1_def split: if_splits)
      moreover have "x \<noteq> ring ! pos"
        using x True valid calculation by (auto simp: cache2_def split: if_splits)
      moreover have "x \<notin> set ring"
      proof
        assume "x \<in> set ring"
        then obtain i where i: "i < length ring" "ring ! i = x" by (auto simp: in_set_conv_nth)
        then have "i \<noteq> pos" using \<open>x \<noteq> ring ! pos\<close> by auto
        then have "ring[pos := addr] ! i = x" using i by simp
        then show False using x i by (metis DiffD2 length_list_update nth_mem)
      qed
      ultimately show "x \<in> dom (tr_cache t) - set ring" by blast
    qed
    then have "card (dom cache2 - set (ring[pos := addr])) \<le> card (dom (tr_cache t) - set ring)"
      by (rule card_mono [rotated]) (simp add: fin)
    with few show ?thesis by simp
  qed
  moreover have "finite (dom cache2)" by (simp add: cache2_def dom1 fin)
  moreover have "\<forall>a \<in> dom cache2. addr_valid a" using valid True by (auto simp: cache2_def cache1_def split: if_splits)
  moreover have "tr_cache (cache_insert order now addr domain ttl t) = cache2"
    "tr_ring (cache_insert order now addr domain ttl t) = ring[pos := addr]"
    "tr_ring_pos (cache_insert order now addr domain ttl t) = (pos + 1) mod length ring"
    using True by (simp_all add: cache_insert_def Let_def cache2_def cache1_def pos_def ring_def)
  moreover have "(pos + 1) mod length ring < length ring" by (rule mod_less_divisor) (rule le_less_trans [OF le0 pos])
  ultimately show ?thesis by (simp add: ring_ok_def)
qed (auto simp: cache_insert_def assms)

lemma ring_bound:
  assumes "ring_ok t"
  shows "card (dom (tr_cache t)) < 2 * length (tr_ring t)"
proof -
  have "card (dom (tr_cache t)) \<le> card (set (tr_ring t) \<union> (dom (tr_cache t) - set (tr_ring t)))"
    using assms by (intro card_mono) (auto simp: ring_ok_def)
  also have "\<dots> \<le> card (set (tr_ring t)) + card (dom (tr_cache t) - set (tr_ring t))" by (rule card_Un_le)
  also have "\<dots> < 2 * length (tr_ring t)"
    using card_length [of "tr_ring t"] assms by (simp add: ring_ok_def)
  finally show ?thesis .
qed

section \<open>The counters stay bounded\<close>

definition map_order :: "((string \<rightharpoonup> u64) \<Rightarrow> string list) \<Rightarrow> bool" where
  "map_order order \<longleftrightarrow> (\<forall>m. finite (dom m) \<longrightarrow> set (order m) = dom m)"

definition counts_ok :: "tracker \<Rightarrow> bool" where
  "counts_ok t \<longleftrightarrow> finite (dom (tr_query_counts t)) \<and> [] \<notin> dom (tr_query_counts t) \<and>
     card (dom (tr_query_counts t)) \<le> max_query_counters"

lemma lowest_count_from: "fst (lowest_count counts ks v) = fst v \<or> fst (lowest_count counts ks v) \<in> set ks"
  by (induction ks arbitrary: v) (auto simp: Let_def, metis fst_conv)

lemma lowest_count_least:
  "snd (lowest_count counts ks v) \<le> snd v \<and> (\<forall>k \<in> set ks. snd (lowest_count counts ks v) \<le> the (counts k)) \<and>
    (snd (lowest_count counts ks v) < snd v \<longrightarrow> fst (lowest_count counts ks v) \<in> set ks)"
proof (induction ks arbitrary: v)
  case (Cons k ks)
  show ?case
    using Cons.IH [of "(k, the (counts k))"] Cons.IH [of v] lowest_count_from [of counts ks "(k, the (counts k))"]
    by (auto simp: Let_def intro: order_trans less_imp_le)
qed simp

lemma bump_count_ok:
  assumes "map_order order" and "finite (dom counts)" "[] \<notin> dom counts" "card (dom counts) \<le> max_query_counters"
    and "domain \<noteq> []"
  shows "finite (dom (bump_count order domain counts)) \<and> [] \<notin> dom (bump_count order domain counts) \<and>
    card (dom (bump_count order domain counts)) \<le> max_query_counters"
proof -
  define counts1 where "counts1 = counts(domain \<mapsto> (case counts domain of None \<Rightarrow> 0 | Some c \<Rightarrow> c) + 1)"
  have dom1: "dom counts1 = insert domain (dom counts)" by (simp add: counts1_def)
  show ?thesis
  proof (cases "card (dom counts1) > max_query_counters")
    case False
    then show ?thesis using assms(2,3,5) dom1 by (simp add: bump_count_def Let_def flip: counts1_def)
  next
    case True
    then have "dom counts1 \<noteq> dom counts" using assms(4) by auto
    then have new: "domain \<notin> dom counts" unfolding dom1 by (metis insert_absorb)
    then have one: "counts1 domain = Some 1" by (simp add: counts1_def domIff)
    define victim where "victim = lowest_count counts1 (order counts1) ([], - 1)"
    have set: "set (order counts1) = dom counts1" using assms(1,2) dom1 by (simp add: map_order_def)
    then have "snd victim \<le> the (counts1 domain)"
      using lowest_count_least [of counts1 "order counts1" "([], - 1)"] dom1 by (auto simp: victim_def)
    then have "snd victim \<le> 1" by (simp add: one)
    then have "snd victim < - 1" by (rule le_less_trans) (simp flip: word_order.not_eq_extremum)
    then have "fst victim \<in> dom counts1"
      using lowest_count_least [of counts1 "order counts1" "([], - 1)"] set by (simp add: victim_def)
    moreover have "[] \<notin> dom counts1" using assms(3,5) dom1 by simp
    ultimately have victim: "fst victim \<in> dom counts1" "fst victim \<noteq> []" by auto
    have "bump_count order domain counts = counts1(fst victim := None)"
      using True victim by (simp add: bump_count_def Let_def evict_lowest_count_def victim_def flip: counts1_def)
    moreover have "card (dom counts1 - {fst victim}) \<le> max_query_counters"
      using victim(1) assms(2,4) dom1 new by simp
    ultimately show ?thesis using assms(2,3,5) dom1 by simp
  qed
qed

lemma cache_insert_counts_ok:
  "map_order order \<Longrightarrow> counts_ok t \<Longrightarrow> counts_ok (cache_insert order now addr domain ttl t)"
  using bump_count_ok [of order "tr_query_counts t" domain]
  by (simp add: counts_ok_def cache_insert_def Let_def)

section \<open>Any sequence of answers\<close>

abbreviation tracker_run :: "((string \<rightharpoonup> u64) \<Rightarrow> string list) \<Rightarrow> tracker_op list \<Rightarrow> tracker \<Rightarrow> tracker" where
  "tracker_run order ops t \<equiv> fold (tracker_step order) ops t"

definition tracker_ok :: "nat \<Rightarrow> tracker \<Rightarrow> bool" where
  "tracker_ok n t \<longleftrightarrow> ring_ok t \<and> counts_ok t \<and> length (tr_ring t) = n"

lemma reset_ok: "tracker_ok n t \<Longrightarrow> tracker_ok n (reset_query_counts now t)"
  by (simp add: tracker_ok_def ring_ok_def counts_ok_def reset_query_counts_def)

interpretation trackers: kept_by_steps "tracker_step order" "tracker_ok n" "\<lambda>_. map_order order" for order n
proof unfold_locales
  show "tracker_ok n (tracker_step order op t)" if "tracker_ok n t" "map_order order" for op t
    using that reset_ok by (cases op) (auto simp: tracker_ok_def cache_insert_ring_ok cache_insert_counts_ok cache_insert_ring)
qed

lemma new_tracker_ok: "tracker_ok max_cache_entries (new_tracker c now)"
  by (simp add: tracker_ok_def ring_ok_def counts_ok_def new_tracker_def max_cache_entries_def)

lemma run_tracker_ok:
  "map_order order \<Longrightarrow> tracker_ok max_cache_entries (tracker_run order ops (new_tracker c now))"
  by (rule trackers.run_keeps [OF new_tracker_ok]) simp

section \<open>What the cache tells\<close>

definition cached :: "tracker \<Rightarrow> ip_addr \<rightharpoonup> string \<times> int" where
  "cached t a = map_option (\<lambda>en. (ce_domain en, ce_expires_at en)) (tr_cache t a)"

lemma tracker_step_config [simp]: "tr_config (tracker_step order op t) = tr_config t"
  by (cases op) (simp_all add: cache_insert_def Let_def reset_query_counts_def)

lemma cached_evicted: "m \<subseteq>\<^sub>m m' \<Longrightarrow> m(a := None) \<subseteq>\<^sub>m m'"
  by (auto simp: map_le_def split: if_splits)

lemma insert_cached:
  assumes "cached t \<subseteq>\<^sub>m m"
  shows "cached (cache_insert order now addr domain ttl t) \<subseteq>\<^sub>m
    answer_map (tr_config t) (Dns_answered now addr domain ttl) m"
proof (cases "addr_valid addr \<and> domain \<noteq> []")
  case True
  define added where "added = (cached t)(addr \<mapsto> (domain, now + clamp_ttl (tr_config t) ttl))"
  have "added \<subseteq>\<^sub>m m(addr \<mapsto> (domain, now + clamp_ttl (tr_config t) ttl))"
    using assms by (simp add: added_def map_le_upd)
  moreover have "cached (cache_insert order now addr domain ttl t) \<in> {added, added(tr_ring t ! tr_ring_pos t := None)}"
    using True by (auto simp: cache_insert_def Let_def cached_def added_def fun_eq_iff)
  ultimately show ?thesis using True cached_evicted by auto
qed (use assms in \<open>auto simp: cache_insert_def\<close>)

interpretation answers: forgetful_map "tracker_step order" cached "answer_map c" "\<lambda>t. tr_config t = c" for order c
proof unfold_locales
  show "cached (tracker_step order op t) \<subseteq>\<^sub>m answer_map c op m" if "tr_config t = c" "cached t \<subseteq>\<^sub>m m" for t m op
  proof (cases op)
    case (Dns_answered now a domain ttl)
    then show ?thesis using that insert_cached by (simp del: answer_map.simps) blast
  next
    case (Counts_reset now)
    have "cached (reset_query_counts now t) = cached t" by (simp add: reset_query_counts_def cached_def fun_eq_iff)
    then show ?thesis using that by (simp add: Counts_reset)
  qed
qed simp

definition complete :: "tracker_op list \<Rightarrow> tracker \<Rightarrow> bool" where
  "complete ops t \<longleftrightarrow> dom (tr_cache t) = \<Union> (answered ` set ops)"

lemma step_complete:
  assumes "complete ops t" and "card (\<Union> (answered ` set (ops @ [op]))) \<le> length (tr_ring t)"
  shows "complete (ops @ [op]) (tracker_step order op t)"
proof (cases op)
  case (Dns_answered now a domain ttl)
  show ?thesis
  proof (cases "addr_valid a \<and> domain \<noteq> []")
    case True
    then have "card (insert a (dom (tr_cache t))) \<le> length (tr_ring t)"
      using assms by (simp add: complete_def Dns_answered)
    then show ?thesis using assms(1) True by (simp add: Dns_answered complete_def cache_insert_def Let_def)
  qed (use assms(1) in \<open>auto simp: Dns_answered complete_def cache_insert_def\<close>)
qed (use assms(1) in \<open>simp add: complete_def reset_query_counts_def\<close>)

lemma finite_answered: "finite (answered op)"
  by (cases op) simp_all

lemma run_complete:
  assumes "tr_cache t = Map.empty" and "card (\<Union> (answered ` set ops)) \<le> length (tr_ring t)"
  shows "complete ops (tracker_run order ops t) \<and> length (tr_ring (tracker_run order ops t)) = length (tr_ring t)"
  using assms(2)
proof (induction ops rule: rev_induct)
  case Nil
  show ?case using assms(1) by (simp add: complete_def)
next
  case (snoc op ops)
  have "card (\<Union> (answered ` set ops)) \<le> card (\<Union> (answered ` set (ops @ [op])))"
    by (rule card_mono) (auto simp: finite_answered)
  with snoc have IH: "complete ops (tracker_run order ops t)" "length (tr_ring (tracker_run order ops t)) = length (tr_ring t)"
    by auto
  have "length (tr_ring (tracker_step order op s)) = length (tr_ring s)" for s
    by (cases op) (simp_all add: cache_insert_ring reset_query_counts_def)
  with step_complete [OF IH(1), of op order] IH(2) snoc.prems show ?case by simp
qed

lemma answered_dom: "dom (fold (answer_map c) ops m) = dom m \<union> \<Union> (answered ` set ops)"
proof (induction ops arbitrary: m)
  case (Cons op ops)
  then show ?case by (cases op) auto
qed simp

text \<open>The answer of a lookup from the history alone.\<close>

definition told :: "dns_config \<Rightarrow> ip_addr \<Rightarrow> int \<Rightarrow> tracker_op list \<Rightarrow> string" where
  "told c addr now ops = (case fold (answer_map c) ops Map.empty addr of
     None \<Rightarrow> [] | Some (d, expires) \<Rightarrow> if expires < now then [] else d)"

lemma lookup_cached:
  "fst (tracker_lookup a now t) = (case cached t a of None \<Rightarrow> [] | Some (d, expires) \<Rightarrow> if expires < now then [] else d)"
  by (simp add: tracker_lookup_def cached_def split: option.split)

lemma lookup_told:
  assumes "tr_cache t = Map.empty"
  shows "fst (tracker_lookup a now (tracker_run order ops t)) \<in> {[], told (tr_config t) a now ops}"
proof -
  have "cached t = Map.empty" using assms by (simp add: cached_def fun_eq_iff)
  from answers.nothing_else [OF refl this, where order = order and ops = ops and k = a] show ?thesis
    by (auto simp: lookup_cached told_def)
qed

lemma lookup_exact:
  assumes "tr_cache t = Map.empty" and "card (\<Union> (answered ` set ops)) \<le> length (tr_ring t)"
  shows "fst (tracker_lookup a now (tracker_run order ops t)) = told (tr_config t) a now ops"
proof -
  have empty: "cached t = Map.empty" using assms(1) by (simp add: cached_def fun_eq_iff)
  have "cached (tracker_run order ops t) a = fold (answer_map (tr_config t)) ops Map.empty a"
  proof (cases "cached (tracker_run order ops t) a")
    case None
    then have "a \<notin> \<Union> (answered ` set ops)" using run_complete [OF assms, of order] by (auto simp: complete_def cached_def)
    then have "a \<notin> dom (fold (answer_map (tr_config t)) ops Map.empty)" by (simp add: answered_dom)
    then have "fold (answer_map (tr_config t)) ops Map.empty a = None" by (simp only: domIff not_not)
    with None show ?thesis by (simp only:)
  next
    case (Some x)
    then show ?thesis using answers.nothing_else [OF refl empty, where order = order and ops = ops and k = a] by simp
  qed
  then show ?thesis by (simp add: lookup_cached told_def)
qed

text \<open>The service that a lookup names: what the table has for the domain, or the domain itself.\<close>

definition service_of :: "mapping_rule list \<Rightarrow> string \<Rightarrow> string" where
  "service_of rules domain = (if service_lookup rules domain = [] then domain else service_lookup rules domain)"

definition services_ok :: "mapping_rule list \<Rightarrow> tracker \<Rightarrow> bool" where
  "services_ok rules t \<longleftrightarrow> tr_service_mapper t = rules \<and>
     (\<forall>a en. tr_cache t a = Some en \<longrightarrow> ce_domain en \<noteq> [] \<and> ce_service en = service_lookup rules (ce_domain en))"

interpretation services: kept_by_steps "tracker_step order" "services_ok rules" "\<lambda>_. True" for order rules
proof unfold_locales
  show "services_ok rules (tracker_step order op t)" if "services_ok rules t" for op t
    using that by (cases op) (auto simp: services_ok_def cache_insert_def Let_def reset_query_counts_def)
qed

lemma new_services_ok: "services_ok builtin_rules (new_tracker c now)"
  by (simp add: services_ok_def new_tracker_def)

lemma lookup_service_of:
  assumes "services_ok rules t"
  shows "snd (tracker_lookup a now t) =
    (if fst (tracker_lookup a now t) = [] then [] else service_of rules (fst (tracker_lookup a now t)))"
  using assms by (auto simp: tracker_lookup_def services_ok_def service_of_def split: option.split)

section \<open>Sequences of datagrams\<close>

text \<open>The answers that a datagram gives, in the order in which the tracker takes them.\<close>

fun answer_ops :: "int \<Rightarrow> string \<Rightarrow> dns_answer list \<Rightarrow> tracker_op list" where
  "answer_ops now qname [] = []"
| "answer_ops now qname (Answer_A ttl r # as) =
     (case r of None \<Rightarrow> [] | Some a \<Rightarrow> Dns_answered now (Addr4 a) qname (ttl_ns ttl) # answer_ops now qname as)"
| "answer_ops now qname (Answer_AAAA ttl r # as) =
     (case r of None \<Rightarrow> [] | Some a \<Rightarrow> Dns_answered now (Addr6 a) qname (ttl_ns ttl) # answer_ops now qname as)"
| "answer_ops now qname (Answer_other ok # as) = (if ok then answer_ops now qname as else [])"

definition datagram_answers :: "(u8 list \<Rightarrow> dns_message option) \<Rightarrow> int \<times> u8 list \<Rightarrow> tracker_op list" where
  "datagram_answers parser d =
     (case parser (snd d) of
        None \<Rightarrow> []
      | Some m \<Rightarrow>
          if \<not> dm_response m \<or> dm_rcode m \<noteq> 0 then []
          else case dm_questions m of
                 Some (q # _) \<Rightarrow> answer_ops (fst d) (trim_dot q) (dm_answers m)
               | _ \<Rightarrow> [])"

lemma insert_answers_run: "insert_answers order now q as t = tracker_run order (answer_ops now q as) t"
  by (induction order now q as t rule: insert_answers.induct) (simp_all split: option.split)

lemma parse_run: "parse_dns_response parser order now pkt t = tracker_run order (datagram_answers parser (now, pkt)) t"
  by (simp add: parse_dns_response_def datagram_answers_def insert_answers_run split: option.split list.split)

definition track_datagrams ::
  "(u8 list \<Rightarrow> dns_message option) \<Rightarrow> ((string \<rightharpoonup> u64) \<Rightarrow> string list) \<Rightarrow> (int \<times> u8 list) list \<Rightarrow> tracker \<Rightarrow> tracker" where
  "track_datagrams parser order ds t = fold (\<lambda>d. parse_dns_response parser order (fst d) (snd d)) ds t"

lemma track_run: "track_datagrams parser order ds t = tracker_run order (concat (map (datagram_answers parser) ds)) t"
  by (induction ds arbitrary: t) (simp_all add: track_datagrams_def parse_run)

section \<open>The kernel's record\<close>

definition dns_record_bytes :: "dns_raw_event \<Rightarrow> u8 list" where
  "dns_record_bytes r = le_bytes16 (dr_len r) @ le_bytes16 (dr_pad r) @ dr_data r"

lemma record_packet:
  assumes "length (dr_data r) = 512" and "unat (dr_len r) \<le> 512"
  shows "dns_packet (dns_record_bytes r) = Some (take (unat (dr_len r)) (dr_data r))"
  using assms by (simp add: dns_packet_def dns_record_bytes_def le_bytes16_def le_word16_bytes Let_def)

lemma memory_record_packet:
  assumes "12 \<le> len" "len \<le> (512 :: u32)"
  shows "dns_packet (dns_record_bytes \<lparr>dr_len = ucast len, dr_pad = 0,
      dr_data = mem_read mem (unat len) data @ replicate (512 - unat len) 0\<rparr>) = Some (mem_read mem (unat len) data)"
proof -
  have le: "unat len \<le> 512" using assms(2) by (simp add: word_le_nat_alt)
  then have "unat (ucast len :: u16) = unat len" by (simp add: unsigned_ucast_eq take_bit_nat_eq_self)
  with le show ?thesis by (subst record_packet) (simp_all add: mem_read_def)
qed

end
