(* ===== verification/Examples.thy ===== *)
theory Examples
  imports Run_Facts Event_Ledger Started_Runs Poll_Drain Agent_Types Loader_Load Core_Read Core_Bitfield Agent_Poll Cluster_View Poll_Setup Dns_Facts "HOL-Library.Product_Lexorder"
    "HOL-Library.List_Lexorder" "HOL-Library.Char_ord"
begin

text \<open>
  A concrete kernel environment, configuration and contexts, on which the properties of the
  root theory are evaluated.
\<close>

definition example_comm :: "u8 list" where
  "example_comm = [99, 117, 114, 108] @ replicate 12 0"

definition blank_connect :: connect_event where
  "blank_connect = \<lparr>cn_type = 0, cn_protocol = 0, cn_pad = 0, cn_pid = 0, cn_cookie = 0, cn_cgroupid = 0,
     cn_original_dst_ip = 0xC0A80001, cn_original_dst_port = 0, cn_pad2 = 0, cn_timestamp_ns = 0,
     cn_comm = replicate 16 0\<rparr>"

definition blank_establish :: establish_event where
  "blank_establish = \<lparr>es_type = 0, es_direction = 0, es_protocol = 0, es_pad = 0, es_pid = 0,
     es_cookie = 0, es_cgroupid = 0, es_src_ip = 0, es_dst_ip = 0, es_src_port = 0, es_dst_port = 0,
     es_original_dst_ip = 0, es_original_dst_port = 0, es_pad2 = 0, es_timestamp_ns = 0,
     es_comm = replicate 16 0\<rparr>"

definition blank_close :: close_event where
  "blank_close = \<lparr>cl_type = 0, cl_direction = 0, cl_protocol = 0, cl_pad = 0, cl_pid = 0, cl_cookie = 0,
     cl_src_ip = 0, cl_dst_ip = 0, cl_src_port = 0, cl_dst_port = 0, cl_original_dst_ip = 0,
     cl_original_dst_port = 0, cl_pad2 = 0, cl_tx_bytes = 0, cl_rx_bytes = 0,
     cl_retransmit_bytes = 0, cl_retransmit_count = 0, cl_pad3 = 0, cl_duration_ns = 0,
     cl_timestamp_ns = 0\<rparr>"

text \<open>The kernel grants everything at time \<open>t\<close>, on CPU 0, for the socket of cookie 42.\<close>

definition example_env :: "u64 \<Rightarrow> kenv" where
  "example_env t = \<lparr>smp_processor_id = 0, bpf_get_socket_cookie = 42, bpf_ktime_get_ns = (\<lambda>_. t),
     bpf_get_current_pid_tgid = 0x0000000700000009, bpf_get_current_cgroup_id = 5,
     bpf_get_current_comm = example_comm, bpf_get_prandom_u32 = 3, ring_reserved = True,
     ring_connect = blank_connect, ring_establish = blank_establish, ring_close = blank_close,
     map_grant = (\<lambda>_. True), lru_victims = (\<lambda>_. []), other_cpus_flow = (\<lambda>_. zero_flow_metrics),
     other_cpus_quic = (\<lambda>_. zero_quic_flow_metrics), sk_storage_granted = True,
     cb_flags_settable = 0x7F, probe_read_ok = True\<rparr>"

definition example_config :: agent_config where
  "example_config = \<lparr>ac_enabled = 1, ac_track_udp = 1, ac_sample_rate = 1, ac_udp_socket_tx = 0,
     ac_reserved = replicate 4 0, ac_aggregation_ns = 5000000000\<rparr>"

definition example_connect :: "u32 \<Rightarrow> bpf_sock_addr" where
  "example_connect proto = \<lparr>sa_user_ip4 = 0x0100600A, sa_user_ip6 = (0, 0, 0, 1),
     sa_user_port = ucast (bpf_htons Little True 443), sa_protocol = proto\<rparr>"

definition example_sock_ops :: "u32 \<Rightarrow> bpf_sock_ops" where
  "example_sock_ops op = \<lparr>so_op = op, so_args1 = 7, so_family = 2, so_remote_ip4 = 0x0200F40A,
     so_local_ip4 = 0x0300F40A, so_remote_ip6 = (0, 0, 0, 0), so_local_ip6 = (0, 0, 0, 0),
     so_remote_port = push_bit 16 (ucast (bpf_htons Little True 8443)), so_local_port = 51234,
     so_is_fullsock = 1, so_bpf_sock_ops_cb_flags = 0, so_sk = Some 0xFFFF888000000000\<rparr>"

text \<open>All sizes left at zero: the loader's defaults.\<close>

definition no_sizes :: map_sizes where
  "no_sizes = \<lparr>sz_connections = 0, sz_flow_aggregates = 0, sz_quic_flows = 0, sz_events_ring_buf = 0,
     sz_dns_ring_buf = 0\<rparr>"

abbreviation example_agent :: agent where
  "example_agent \<equiv> boot_agent no_sizes example_config"

lemma example_env_simps [simp]:
  "smp_processor_id (example_env t) = 0"
  "bpf_get_socket_cookie (example_env t) = 42"
  "bpf_ktime_get_ns (example_env t) i = t"
  "bpf_get_current_comm (example_env t) = example_comm"
  "ring_reserved (example_env t)"
  "map_grant (example_env t) m"
  "lru_victims (example_env t) m = []"
  "other_cpus_flow (example_env t) c = zero_flow_metrics"
  "other_cpus_quic (example_env t) c = zero_quic_flow_metrics"
  "cb_flags_settable (example_env t) = 0x7F"
  "probe_read_ok (example_env t)"
  "other_cpus_zero (example_env t)"
  by (simp_all add: example_env_def other_cpus_zero_def)

lemma example_agent_simps [simp]:
  "get_config example_agent = Some example_config"
  "lookup_connection example_agent k = None"
  "lookup_original_dst example_agent k = None"
  by (simp_all add: get_config_def example_config_def
      lookup_connection_def lookup_original_dst_def
      bpf_map_lookup_elem_def)

lemma example_selected [simp]:
  "connect_selected (example_env t) (example_connect 6) example_agent = Some 6"
  "connect_selected (example_env t) (example_connect 17) example_agent = Some 17"
  by (simp_all add: connect_selected_def Let_def)
    (simp_all add: example_connect_def example_config_def IPPROTO_TCP_def IPPROTO_UDP_def should_sample_def)

lemma example_room [simp]:
  "lru_room (True, []) (cookie_to_original_dst example_agent)"
  "lru_room (True, []) (connections example_agent)"
  by (simp_all add: lru_room_def evict_def boot_agent_sizes no_sizes_def size_default_def)

text \<open>The socket of the sock_ops context is not a sidecar's.\<close>

lemma example_remote_port: "sockops_port (so_remote_port (example_sock_ops op)) = 8443"
  using sockops_port_decodes [of True 8443] by (simp add: example_sock_ops_def)

lemma example_not_sidecar [simp]:
  "not_sidecar (established_conn e (example_sock_ops op) d co)"
  by (simp add: is_sidecar_socket_cookie_def established_conn_fields example_remote_port is_sidecar_port_def)
    (simp add: example_sock_ops_def loopback_def bpf_swab32_def bpf_mvb_def)

lemma example_sock_ops_simps [simp]:
  "so_op (example_sock_ops op) = op" "so_args1 (example_sock_ops op) = 7"
  "so_family (example_sock_ops op) = AF_INET" "so_is_fullsock (example_sock_ops op) = 1"
  "so_sk (example_sock_ops op) = Some 0xFFFF888000000000"
  "so_bpf_sock_ops_cb_flags (example_sock_ops op) = 0"
  by (simp_all add: example_sock_ops_def AF_INET_def)

lemma example_connect_simps [simp]:
  "sa_user_ip4 (example_connect p) = 0x0100600A"
  "sa_user_port (example_connect p) = ucast (bpf_htons Little True 443)"
  by (simp_all add: example_connect_def)

text \<open>An agent that tracks one connection, with its flow.\<close>

definition tracked_agent :: agent where
  "tracked_agent = example_agent\<lparr>connections := bpf_map_write 42 zero_conn_info (empty_bmap 524288),
     flow_aggregates := bpf_map_write (flow_key_of zero_conn_info) (\<lambda>_. zero_flow_metrics) (empty_bmap 131072)\<rparr>"

lemma tracked_agent_simps [simp]:
  "get_config tracked_agent = Some example_config"
  "lookup_connection tracked_agent 42 = Some zero_conn_info"
  "lookup_flow tracked_agent (flow_key_of zero_conn_info) = Some (\<lambda>_. zero_flow_metrics)"
  using get_config_cong [of tracked_agent example_agent]
  by (simp_all add: tracked_agent_def) (simp_all add: lookup_connection_def lookup_flow_def)

text \<open>An IPv4 frame that carries a QUIC version 1 Initial packet.\<close>

definition example_frame :: "u8 list" where
  "example_frame = replicate 12 2 @ [0x08, 0x00] @
     ipv4_header 0x45 (replicate 8 0) [0, 0] [10, 244, 0, 3] [93, 184, 216, 34] [] @
     udp_datagram 50000 443 20 [0, 0] [0xC3, 0, 0, 0, 1, 8, 1, 2, 3, 4, 5, 6]"

lemma example_quic_header: "quic_header [0xC3, 0, 0, 0, 1, 8, 1, 2, 3, 4, 5, 6] = Some (1, 1)"
  by (simp add: quic_header_def le_word32_def known_version_def QUIC_VERSION_1_def)

abbreviation example_quic_key :: quic_flow_key where
  "example_quic_key \<equiv> \<lparr>qk_src_ip = 0x0300F40A, qk_dst_ip = 0x22D8B85D, qk_src_port = 50000, qk_dst_port = 443\<rparr>"

lemma example_frame_parsed: "parse_quic example_frame = Some (Quic_packet example_quic_key 1 1)"
  using parse_ipv4_frame [of "replicate 12 2" "replicate 8 0" "[0, 0]" "[10, 244, 0, 3]" "[93, 184, 216, 34]"
      "0x45" "[]" "[0, 0]" 20 "[0xC3, 0, 0, 0, 1, 8, 1, 2, 3, 4, 5, 6]" 50000 443]
  by (simp add: example_frame_def example_quic_header parse_result_def le_word32_at_def le_word32_def)

text \<open>
  A batch call: the flow keys in the order of their fields, in two buckets by direction. The
  first call returns the outgoing flows when there are any, the next one the rest.
\<close>

definition key_tuple :: "('a :: linorder) flow_key_scheme \<Rightarrow> u32 \<times> u32 \<times> u16 \<times> u16 \<times> u32 \<times> u8 \<times> u8 \<times> u16 \<times> 'a" where
  "key_tuple k = (fk_src_ip k, fk_dst_ip k, fk_src_port k, fk_dst_port k, fk_pid k, fk_protocol k,
     fk_direction k, fk_pad k, flow_key.more k)"

lemma key_tuple_inj: "key_tuple k = key_tuple j \<longleftrightarrow> k = j"
  by (auto simp: key_tuple_def)

instantiation flow_key_ext :: (linorder) linorder
begin

definition "k \<le> j \<longleftrightarrow> key_tuple k \<le> key_tuple j" for k j :: "'a flow_key_scheme"

definition "k < j \<longleftrightarrow> key_tuple k < key_tuple j" for k j :: "'a flow_key_scheme"

instance
  by standard (auto simp: less_eq_flow_key_ext_def less_flow_key_ext_def key_tuple_inj [symmetric])

end

definition example_bucket :: "flow_key \<Rightarrow> nat" where
  "example_bucket k = (if fk_direction k = 0 then 0 else 1)"

definition bucket_keys :: "agent \<Rightarrow> nat \<Rightarrow> flow_key list" where
  "bucket_keys a b = sorted_list_of_set {k \<in> dom (entries (flow_aggregates a)). example_bucket k = b}"

definition example_batch :: batch_call where
  "example_batch i c a =
     (if c = 0 \<and> bucket_keys a 0 \<noteq> []
      then \<lparr>br_keys = bucket_keys a 0, br_cursor = 1, br_err = Batch_ok\<rparr>
      else \<lparr>br_keys = (if c \<le> 1 then bucket_keys a 1 else []), br_cursor = 2, br_err = Key_not_exist\<rparr>)"

lemma bucket_keys:
  assumes "agent_wf a"
  shows "distinct (bucket_keys a b)"
    and "k \<in> set (bucket_keys a b) \<longleftrightarrow> has_flow a k \<and> example_bucket k = b"
  using assms
  by (auto simp: bucket_keys_def has_flow_def lookup_flow_def bpf_map_lookup_elem_def agent_wf_def bmap_wf_def)

lemma example_batch_contract: "batch_contract example_bucket 2 example_batch"
proof -
  have "distinct (br_keys (example_batch i c a)) \<and> (\<forall>k \<in> set (br_keys (example_batch i c a)). has_flow a k)"
    if "agent_wf a" for i c a
    using bucket_keys [OF that] by (simp add: example_batch_def)
  moreover have "has_flow a k \<Longrightarrow> c \<le> example_bucket k \<Longrightarrow>
      br_err (example_batch i c a) = Key_not_exist \<or>
      br_err (example_batch i c a) = Batch_ok \<and> example_bucket k < br_cursor (example_batch i c a) \<Longrightarrow>
      k \<in> set (br_keys (example_batch i c a))" if "agent_wf a" for i c a k
  proof -
    assume *: "has_flow a k" "c \<le> example_bucket k" "br_err (example_batch i c a) = Key_not_exist \<or>
      br_err (example_batch i c a) = Batch_ok \<and> example_bucket k < br_cursor (example_batch i c a)"
    have "example_bucket k = 0 \<or> example_bucket k = 1" by (simp add: example_bucket_def)
    then show "k \<in> set (br_keys (example_batch i c a))"
      using * bucket_keys(2) [OF that, of k "example_bucket k"]
      by (cases "c = 0 \<and> bucket_keys a 0 \<noteq> []") (auto simp: example_batch_def split: if_splits)
  qed
  ultimately show ?thesis
    unfolding batch_contract_def Let_def by (auto simp: example_batch_def)
qed

lemma example_batch_succeeds: "br_err (example_batch i c a) \<noteq> Batch_failed"
  by (simp add: example_batch_def)


abbreviation example_run :: "sys_event list" where
  "example_run \<equiv> [Kernel (example_env 1) (Connect4 (example_connect 17)),
     Kernel (example_env 2) (Udp_sendmsg (\<lambda>_. 100)), Kernel (example_env 3) (Udp_recvmsg_exit (\<lambda>_. 40))]"

abbreviation example_conc_run :: "conc_event list" where
  "example_conc_run \<equiv> [Whole (Kernel (example_env 1) (Connect4 (example_connect 17))),
     Begin 1 (example_env 2) (Udp_sendmsg (\<lambda>_. 100)), Begin 2 (example_env 3) (Udp_recvmsg_exit (\<lambda>_. 60)),
     Begin_packet 1 (example_env 4) example_frame, Finish 2 None, Finish 1 None, Finish_packet 1 None]"

definition example_conc :: concurrent where
  "example_conc = \<lparr>cc_agent = tracked_agent, cc_flows = [], cc_pending = Map.empty, cc_packets = Map.empty\<rparr>"

lemma tracked_agent_wf: "agent_wf tracked_agent"
  by (simp add: tracked_agent_def agent_wf_def bmap_wf_def bpf_map_write_def empty_bmap_def)

lemma example_env_typed: "typed_env (example_env t)"
  by (simp add: typed_env_def typed_quic_def zero_quic_flow_metrics_def example_comm_def)
    (simp add: example_env_def blank_connect_def blank_establish_def)

definition example_verifier :: "program list \<Rightarrow> string option" where
  "example_verifier spec =
     (if P_dns_recvmsg \<in> set spec
      then Some ''program tollwing_dns_recvmsg: load program: permission denied'' else None)"

definition example_memory :: "u64 \<Rightarrow> u8" where
  "example_memory p =
     (if p = 1013 then 53 else if p = 1016 then 2 else if 1240 \<le> p \<and> p < 1242 then [0xD0, 0x07] ! unat (p - 1240)
      else if 2200 \<le> p \<and> p < 2202 then [0xB8, 0x0B] ! unat (p - 2200) else if p = 2112 then 12
      else if 3000 \<le> p \<and> p < 3012 then ucast (p - 2999) else 0)"

definition example_offsets :: sock_offsets where
  "example_offsets = \<lparr>off_skc_dport = 12, off_skc_family = 16, off_sk_receive_queue = 240, off_list_next = 0,
     off_skb_data = 200, off_skb_len = 112\<rparr>"

text \<open>The ring buffer is full.\<close>

lemma example_env_no_room:
  "connect_selected ((example_env t)\<lparr>ring_reserved := False\<rparr>) (example_connect 6) a =
    connect_selected (example_env t) (example_connect 6) a"
proof -
  have "should_sample ((example_env t)\<lparr>ring_reserved := False\<rparr>) = should_sample (example_env t)"
    by (rule ext) (simp add: should_sample_def)
  then show ?thesis unfolding connect_selected_def by (simp only:)
qed

lemma example_no_room_zero [simp]: "other_cpus_zero ((example_env t)\<lparr>ring_reserved := r\<rparr>)"
  by (simp add: other_cpus_zero_def)

text \<open>A kernel with everything, with or without fentry, that accepts some attachments.\<close>

definition example_answers :: "bool \<Rightarrow> (program \<Rightarrow> bool) \<Rightarrow> start_answers" where
  "example_answers fentry accepts = \<lparr>ka_supported = (\<lambda>_. True), ka_fentry = fentry, ka_tcx = True,
     ka_interface = True, ka_new_collection = (\<lambda>_. None), ka_order = (\<lambda>_. optional_programs),
     ka_accepts = accepts, ka_config_written = True, ka_ring_reader = True\<rparr>"

definition example_loader_config :: loader_config where
  "example_loader_config = \<lparr>lc_enabled = True, lc_track_udp = True, lc_sample_rate = 1, lc_aggregation_ns = 0,
     lc_map_sizes = no_sizes\<rparr>"

definition example_loader :: "bool \<Rightarrow> loader" where
  "example_loader fentry = fst (loader_start (example_answers fentry (\<lambda>_. True)) [] (new_loader example_loader_config))"

lemma example_answers_verifier: "verifier {} (ka_new_collection (example_answers fentry accepts))"
  by (simp add: verifier_def example_answers_def)

lemma example_answers_order: "\<forall>i. set (ka_order (example_answers fentry accepts) i) = set optional_programs"
  by (simp add: example_answers_def)

lemma example_answers_simps [simp]:
  "ka_fentry (example_answers fentry accepts) = fentry" "ka_tcx (example_answers fentry accepts)"
  "ka_interface (example_answers fentry accepts)" "ka_accepts (example_answers fentry accepts) = accepts"
  by (simp_all add: example_answers_def)

lemma example_startable:
  "startable {} (example_answers fentry accepts) \<longleftrightarrow> (\<forall>p \<in> set (needed_programs fentry). accepts p)"
  by (simp add: startable_def example_answers_def)

lemma example_start:
  "loader_start (example_answers fentry (\<lambda>_. True)) [] (new_loader example_loader_config) = (example_loader fentry, None)"
  using start_exact [OF example_answers_verifier example_answers_order, of fentry "\<lambda>_. True" "[]"
      "new_loader example_loader_config"]
  by (simp add: example_startable example_loader_def)

lemma example_closed:
  "ld_links (close_loader l) = []" "ld_udp_sendmsg_attached (close_loader (example_loader True))"
  "lc_track_udp (ld_config (close_loader (example_loader True)))"
proof -
  have "example_loader True = started (example_answers True (\<lambda>_. True)) [] (attach_order True True)
      (new_loader example_loader_config)"
    using start_exact [OF example_answers_verifier example_answers_order, of True "\<lambda>_. True" "[]"
        "new_loader example_loader_config"]
    by (simp add: example_startable example_loader_def)
  then show "ld_udp_sendmsg_attached (close_loader (example_loader True))"
    "lc_track_udp (ld_config (close_loader (example_loader True)))"
    by (simp_all add: close_loader_def started_def Let_def udp_sendmsg_attached_def attach_order_def new_loader_def
        set_loader_defaults_def example_loader_config_def)
qed (simp add: close_loader_def)

section \<open>Userspace\<close>

text \<open>Go iterates a map in any order; here the order of the keys.\<close>

definition example_order :: "(string \<rightharpoonup> u64) \<Rightarrow> string list" where
  "example_order m = sorted_list_of_set (dom m)"

lemma example_order: "map_order example_order"
  by (simp add: map_order_def example_order_def)

definition example_tables :: informer where
  "example_tables = on_service \<lparr>kv_name = ''cart'', kv_namespace = ''shop'', kv_cluster_ip = ''10.96.0.1'',
     kv_cluster_ips = [''10.96.0.1'']\<rparr> new_informer"

lemma example_cluster_ip:
  "in_cluster_ip_to_svc example_tables ''10.96.0.1'' = Some \<lparr>rf_namespace = ''shop'', rf_name = ''cart''\<rparr>"
  by (simp add: example_tables_def on_service_def cluster_ips_of_def new_informer_def)

definition example_node :: kube_node where
  "example_node = \<lparr>kn_name = ''node-1'', kn_labels = (\<lambda>_. []), kn_pod_cidr = ''100.64.0.0/24'',
     kn_pod_cidrs = [''100.64.0.0/24'']\<rparr>"

definition example_prefix_parser :: "string \<Rightarrow> ip_prefix option" where
  "example_prefix_parser raw = (if raw = ''100.64.0.0/24'' then Some (Prefix4 0x64400000 24) else None)"

definition example_view :: "intent_cache \<Rightarrow> nat agent_view" where
  "example_view intents = \<lparr>av_comm = (\<lambda>_. ''curl''), av_container = (\<lambda>_. []), av_price = (\<lambda>_ tx rx. unat tx + unat rx),
     av_now = (\<lambda>_. (0, 0)), av_classifier = new_classifier new_zone_resolver, av_intents = intents,
     av_informer = Some example_tables, av_dns_tracker = None\<rparr>"

definition example_flow_info :: flow_info where
  "example_flow_info = \<lparr>fi_src_ip = 0x0300F40A, fi_dst_ip = 0x0501140A, fi_original_dst_ip = 0, fi_src_port = 51234,
     fi_dst_port = 443, fi_original_dst_port = 0, fi_intra_node = False, fi_is_sidecar = False\<rparr>"

definition example_topology :: "topology_op list" where
  "example_topology = [Set_vpc_peering [Prefix4 0x0A140000 16], Set_transit_gateway [Prefix4 0x0A000000 8, Prefix4 0x0A140100 24]]"

definition example_parser :: "u8 list \<Rightarrow> dns_message option" where
  "example_parser pkt = Some \<lparr>dm_response = True, dm_rcode = 0,
     dm_questions = Some [if pkt = [] then ''old.example.com.'' else ''b.s3.amazonaws.com.''],
     dm_answers = [Answer_A 60 (Some 0x0A0B0C0D)]\<rparr>"

lemma addr_text_example: "addr_text (nbo_to_addr 0x0100600A) = ''10.96.0.1''"
  by (simp add: nbo_to_addr_def le_bytes32_def le_word32_def addr_text_def Let_def decimal.simps char_of_def bit_Suc_0_iff)

abbreviation example_intent_key :: "u16 \<Rightarrow> intent_key" where
  "example_intent_key port \<equiv> \<lparr>ik_src_ip = 1, ik_dst_ip = 2, ik_src_port = port, ik_dst_port = 443, ik_pid = 7, ik_protocol = 6, ik_direction = 0\<rparr>"

end
