(* ===== verification/Further_Facts.thy ===== *)
theory Further_Facts
  imports Examples
begin

text \<open>
  Facts beside the properties of the root theory: single steps that the theorems about runs
  generalise, the contracts of the kernel maps in one statement each, and behaviours that a user
  of the agent should know.
\<close>

section \<open>One event and the received bytes\<close>

text \<open>
  The received bytes of one event, in any reachable state: the flow aggregates grow by
  exactly what the program counted, or the update was refused and is counted as a drop.
\<close>

theorem rx_booked:
  assumes "reachable n s" and "possible n (Kernel e ev)"
  shows "flow_booked n fm_rx_bytes (rx_credit (e, ev) (fst s)) (fst s) (step (e, ev) (fst s))"
  using step_books(2) [OF reachable_wf [OF assms(1)]] assms(2) by simp

lemma rx_booked_witness:
  "flow_booked 1 fm_rx_bytes (rx_credit (example_env 1, Tcp_cleanup_rbuf_fentry (\<lambda>_. 10)) example_agent)
     example_agent (step (example_env 1, Tcp_cleanup_rbuf_fentry (\<lambda>_. 10)) example_agent)"
  using rx_booked [of 1 "(example_agent, [])" "example_env 1" "Tcp_cleanup_rbuf_fentry (\<lambda>_. 10)"]
  by (simp add: reachable.boot del: step_simps)

text \<open>
  The received bytes over a run: what is in the flow aggregates or delivered, plus the refused
  updates, is what the receive programs counted for a flow; the number of refused updates is
  the drop counter of the map.
\<close>

theorem rx_ledger:
  assumes "\<forall>ev \<in> set evs. possible n ev"
  shows "\<exists>lost. mset lost \<subseteq># mset (rx_credits n evs (boot_agent sizes cfg, [])) \<and>
    flow_drops n (fold (sys_step n) evs (boot_agent sizes cfg, [])) = of_nat (length lost) \<and>
    accounted_rx n (fold (sys_step n) evs (boot_agent sizes cfg, [])) + sum_list lost =
      sum_list (rx_credits n evs (boot_agent sizes cfg, []))"
proof -
  have "accounted_rx n (boot_agent sizes cfg, []) = 0" "flow_drops n (boot_agent sizes cfg, []) = 0"
    by (simp_all add: accounted_rx_def flow_drops_def flow_total_def delivered_def drops_def cpu_total_def)
  then show ?thesis
    using rx.run_books [of "(boot_agent sizes cfg, [])" evs n] assms by (simp add: rx_credits_def)
qed

lemma rx_ledger_witness:
  "\<exists>lost. mset lost \<subseteq># mset (rx_credits 1 example_run (example_agent, [])) \<and>
    flow_drops 1 (fold (sys_step 1) example_run (example_agent, [])) = of_nat (length lost) \<and>
    accounted_rx 1 (fold (sys_step 1) example_run (example_agent, [])) + sum_list lost =
      sum_list (rx_credits 1 example_run (example_agent, []))"
  by (rule rx_ledger) simp

section \<open>Establish\<close>

text \<open>
  Sampling is decided once: an active connection that \<open>connect\<close> sampled out has no
  correlation entry, and with a sampling rate above 1 its establish changes nothing.
\<close>

theorem sampled_out_establish:
  assumes "get_config a = Some cfg" and "1 < ac_sample_rate cfg"
    and "lookup_original_dst a (bpf_get_socket_cookie e) = None"
    and "so_op s = BPF_SOCK_OPS_ACTIVE_ESTABLISHED_CB"
  shows "tollwing_sockops e s a = (1, a)"
  using assms by (simp add: tollwing_sockops_def)

lemma sampled_out_establish_witness:
  "tollwing_sockops (example_env 1) (example_sock_ops 4)
      (boot_agent no_sizes (example_config\<lparr>ac_sample_rate := 10\<rparr>)) =
    (1, boot_agent no_sizes (example_config\<lparr>ac_sample_rate := 10\<rparr>))"
  by (rule sampled_out_establish [where cfg = "example_config\<lparr>ac_sample_rate := 10\<rparr>"])
    (simp_all add: get_config_def example_config_def lookup_original_dst_def bpf_map_lookup_elem_def
      BPF_SOCK_OPS_ACTIVE_ESTABLISHED_CB_def)

text \<open>
  An incoming connection is tracked without a correlation: no process and no destination
  before DNAT, and the correlation entries of all sockets stay as they are.
\<close>

theorem passive_establish_uncorrelated:
  assumes "get_config a = Some cfg" and "so_family s \<in> {AF_INET, AF_INET6}"
    and "so_op s = BPF_SOCK_OPS_PASSIVE_ESTABLISHED_CB" and "should_sample e (ac_sample_rate cfg)"
    and "connections_room e a"
  shows "cookie_to_original_dst (snd (tollwing_sockops e s a)) = cookie_to_original_dst a \<and>
    (\<exists>ci. lookup_connection (snd (tollwing_sockops e s a)) (bpf_get_socket_cookie e) = Some ci \<and>
      ci_original_dst_ip ci = 0 \<and> ci_original_dst_port ci = 0 \<and> ci_pid ci = 0 \<and> ci_direction ci = 1)"
proof -
  have "snd (tollwing_sockops e s a) = handle_established e s 1 a"
    using assms by (auto simp: tollwing_sockops_def BPF_SOCK_OPS_ACTIVE_ESTABLISHED_CB_def
        BPF_SOCK_OPS_PASSIVE_ESTABLISHED_CB_def)
  then show ?thesis
    using handle_established_connection [OF assms(5), of s 1] handle_established_cookie [of e s 1 a]
    by (simp add: correlate_incoming established_conn_fields no_correlation_def)
qed

lemma passive_establish_uncorrelated_witness:
  "cookie_to_original_dst (snd (tollwing_sockops (example_env 1) (example_sock_ops 5) example_agent)) =
     cookie_to_original_dst example_agent"
  using passive_establish_uncorrelated [of example_agent example_config "example_sock_ops 5" "example_env 1"]
  by (simp add: BPF_SOCK_OPS_PASSIVE_ESTABLISHED_CB_def) (simp add: should_sample_def example_config_def)

section \<open>Two behaviours that userspace has to know\<close>

text \<open>
  The event of \<open>connect6\<close> carries in \<open>original_dst_ip\<close> whatever the reserved ring-buffer
  memory held, not 0 and not anything of this connection.
\<close>

theorem connect6_event_stale_ip:
  assumes "connect_selected e ctx a = Some proto" and "ring_reserved e"
  shows "\<exists>c. events (snd (tollwing_connect6 e ctx a)) = events a @ [Connect c] \<and>
    cn_original_dst_ip c = cn_original_dst_ip (ring_connect e) \<and>
    cn_original_dst_port c = connect_port (sa_user_port ctx)"
  using assms
  by (simp add: tollwing_connect6_def Let_def emit_event_def connect6_event_def connect6_dst_def)

lemma connect6_event_stale_ip_witness:
  "\<exists>c. events (snd (tollwing_connect6 (example_env 1) (example_connect 6) example_agent)) = [Connect c] \<and>
    cn_original_dst_ip c = 0xC0A80001"
proof -
  have "events example_agent = []" by simp
  moreover have "cn_original_dst_ip (ring_connect (example_env 1)) = 0xC0A80001"
    by (simp add: example_env_def blank_connect_def)
  ultimately show ?thesis
    using connect6_event_stale_ip [of "example_env 1" "example_connect 6" example_agent 6] by auto
qed

text \<open>
  A UDP socket that connects again keeps the entry of its first \<open>connect\<close>, so that its
  later bytes are booked to the first destination, while its correlation entry names the second.
\<close>

theorem udp_reconnect_keeps_first:
  assumes "connect_selected e ctx a = Some IPPROTO_UDP" and "cookie_room e a"
    and "lookup_connection a (bpf_get_socket_cookie e) = Some first"
    and "bpf_get_socket_cookie e \<notin> set (lru_victims e M_connections)"
  shows "lookup_connection (snd (tollwing_connect4 e ctx a)) (bpf_get_socket_cookie e) = Some first \<and>
    lookup_original_dst (snd (tollwing_connect4 e ctx a)) (bpf_get_socket_cookie e) = Some (connect4_dst e ctx)"
  using connect4_keeps [OF assms(4,3)] connect4_captures [OF assms(1,2)] by simp

lemma udp_reconnect_keeps_first_witness:
  "lookup_connection (snd (tollwing_connect4 (example_env 1) (example_connect 17) tracked_agent)) 42 = Some zero_conn_info"
proof -
  have "connect_selected (example_env 1) (example_connect 17) tracked_agent = Some IPPROTO_UDP"
    by (simp add: connect_selected_def Let_def)
      (simp add: example_connect_def example_config_def IPPROTO_TCP_def IPPROTO_UDP_def should_sample_def)
  moreover have "lru_room (True, []) (cookie_to_original_dst tracked_agent)"
    using example_room(1) by (simp add: tracked_agent_def)
  ultimately show ?thesis
    using udp_reconnect_keeps_first [of "example_env 1" "example_connect 17" tracked_agent zero_conn_info] by simp
qed

section \<open>Packets and ports\<close>

text \<open>
  On every byte string whatsoever, in every state, the packet program loads only from
  inside the packet and lets it pass.
\<close>

theorem quic_egress_memory_safe: "\<exists>b. tollwing_quic_egress e pkt a = Some (TC_ACT_OK, b)"
  by (rule quic_egress_cases [of e pkt a]) auto

text \<open>
  A parsed packet of a known flow adds its wire length and one packet to this CPU's
  metrics, keeps the last version that was not 0, and remembers the header form; other flows
  and CPUs keep theirs.
\<close>

theorem quic_egress_counts:
  assumes "get_config a = Some cfg" and "ac_udp_socket_tx cfg = 0"
    and "parse_quic pkt = Some (Quic_packet key v h)" and "lookup_quic a key = Some vals"
  shows "\<exists>b. tollwing_quic_egress e pkt a = Some (TC_ACT_OK, b) \<and>
    (\<forall>k. k \<noteq> key \<longrightarrow> lookup_quic b k = lookup_quic a k) \<and>
    (\<exists>vals'. lookup_quic b key = Some vals' \<and> (\<forall>c. c \<noteq> smp_processor_id e \<longrightarrow> vals' c = vals c) \<and>
      qm_tx_bytes (vals' (smp_processor_id e)) = qm_tx_bytes (vals (smp_processor_id e)) + of_nat (length pkt) \<and>
      qm_pkt_count (vals' (smp_processor_id e)) = qm_pkt_count (vals (smp_processor_id e)) + 1 \<and>
      qm_quic_version (vals' (smp_processor_id e)) =
        (if v \<noteq> 0 then v else qm_quic_version (vals (smp_processor_id e))) \<and>
      qm_is_long_header (vals' (smp_processor_id e)) = (if h = 1 then 1 else 0))"
  using assms by (auto simp: tollwing_quic_egress_def record_quic_def Let_def lookup_quic_def)

lemma quic_egress_counts_witness:
  "\<exists>b. tollwing_quic_egress (example_env 1) example_frame (example_agent\<lparr>quic_flows := bpf_map_write
      example_quic_key
      (\<lambda>_. zero_quic_flow_metrics) (empty_bmap 65536)\<rparr>) = Some (TC_ACT_OK, b)"
  using quic_egress_counts [of "example_agent\<lparr>quic_flows := bpf_map_write
      example_quic_key
      (\<lambda>_. zero_quic_flow_metrics) (empty_bmap 65536)\<rparr>" example_config example_frame
      example_quic_key 1 1
      "\<lambda>_. zero_quic_flow_metrics" "example_env 1"]
    get_config_cong [of "example_agent\<lparr>quic_flows := m\<rparr>" example_agent for m]
  by (simp add: example_frame_parsed lookup_quic_def) (simp add: example_config_def, blast)

text \<open>
  Both places where the kernel keeps a port in a 32-bit field decode to the port: the low
  half in network order at \<open>connect\<close>, the high half in sock_ops.
\<close>

theorem ports_decode:
  "connect_port (ucast (bpf_htons Little c port)) = port \<and>
   sockops_port (push_bit 16 (ucast (bpf_htons Little c port))) = port"
  by (simp only: connect_port_decodes sockops_port_decodes)

section \<open>Maps, drop counters, drain\<close>

text \<open>
  The poller's drain is exact: for every list of keys, what it delivers and what stays add
  up to what was there, for transmitted, received and retransmitted bytes and for connections
  and retransmissions; the listed keys are gone and every other flow keeps its metrics.
\<close>

theorem poll_is_exact:
  assumes "agent_wf a" and "summed_into g f"
  shows "flow_total n g (fst (poll_iterate n keys (a, []))) + delivered f (snd (poll_iterate n keys (a, []))) =
      flow_total n g a \<and>
    (\<forall>k. lookup_flow (fst (poll_iterate n keys (a, []))) k = (if k \<in> set keys then None else lookup_flow a k))"
  using poll_iterate_moves [of "(a, [])" g f n keys] poll_iterate_lookup [of n keys "(a, [])"] assms
  by (simp add: delivered_def)

lemma poll_is_exact_witness:
  "lookup_flow (fst (poll_iterate 4 [flow_key_of zero_conn_info] (example_agent, []))) (flow_key_of zero_conn_info) = None"
  using poll_is_exact [OF _ summed_into_fields(1), of example_agent 4 "[flow_key_of zero_conn_info]"] by simp

text \<open>
  Inserting with \<open>BPF_NOEXIST\<close> into a hash map succeeds exactly when the key is new, the
  kernel grants the element and the map is not full; then the map holds the new entry and all
  old ones, otherwise it is unchanged.
\<close>

theorem hash_insert_contract:
  "hash_update grant BPF_NOEXIST k v m =
    (if entries m k = None \<and> grant \<and> card (dom (entries m)) < max_entries m
     then (None, m\<lparr>entries := (entries m)(k \<mapsto> v)\<rparr>)
     else (Some (if entries m k \<noteq> None then E_EXIST else if \<not> grant then E_NOMEM else E_2BIG), m))"
  by (auto simp: hash_update_def check_flags_def bpf_map_write_def split: option.split)

text \<open>
  An update of an LRU map invents no entry: what is in the map afterwards was there before
  or is the new value under its key, and the map stays within its bound. When it reports
  success the new value is there.
\<close>

theorem lru_update_contract:
  assumes "bmap_wf m"
  shows "bmap_wf (snd (lru_update d fl k v m)) \<and>
    (\<forall>j w. bpf_map_lookup_elem (snd (lru_update d fl k v m)) j = Some w \<longrightarrow>
       bpf_map_lookup_elem m j = Some w \<or> j = k \<and> w = v) \<and>
    (fst (lru_update d fl k v m) = None \<longrightarrow> bpf_map_lookup_elem (snd (lru_update d fl k v m)) k = Some v)"
  using lru.snd_wf [OF assms, of d fl k v] lru.no_invention [of d fl k v m]
    lru.upd_stored [of d fl k v m "snd (lru_update d fl k v m)"]
  by (auto simp: prod_eq_iff)

lemma lru_update_contract_witness:
  "bmap_wf (snd (lru_update (True, [3]) BPF_ANY (1 :: nat) (7 :: nat) (bpf_map_write 3 5 (empty_bmap 8))))"
proof -
  have "bmap_wf (bpf_map_write (3 :: nat) (5 :: nat) (empty_bmap 8))"
    by (simp add: bmap_wf_def bpf_map_write_def empty_bmap_def)
  from lru_update_contract [OF this, of "(True, [3])" BPF_ANY 1 7] show ?thesis by blast
qed

text \<open>
  A counted drop adds one to the sum over the CPUs of its own slot and to no other, on
  whatever CPU the program ran.
\<close>

theorem drop_counted_once:
  assumes "smp_processor_id e < n"
  shows "drops n s (count_drop e (slot_index t) a) = drops n s a + (if s = t then 1 else 0)"
  using assms by (rule drops_count_drop)

lemma drop_counted_once_witness:
  "drops 4 DROP_SLOT_QUIC_FLOWS (count_drop (example_env 1) (slot_index DROP_SLOT_QUIC_FLOWS) example_agent) =
    drops 4 DROP_SLOT_QUIC_FLOWS example_agent + 1"
  using drop_counted_once [of "example_env 1" 4 DROP_SLOT_QUIC_FLOWS DROP_SLOT_QUIC_FLOWS] by simp

section \<open>Ring buffer and bitfields\<close>

text \<open>
  The ring buffer carries events faithfully: the bytes of a submitted event, at their C
  offsets and with anything in the compiler's padding, are dispatched on their type byte and
  cast by userspace to the same event.
\<close>

theorem events_cross_the_ring:
  assumes "typed_event ev" and "length hole = 4"
  shows "read_event (event_bytes hole ev) = Some ev"
  using assms by (rule read_event_bytes)

lemma events_cross_the_ring_witness:
  "read_event (event_bytes [1, 2, 3, 4] (Connect (connect4_event (example_env 1) (example_connect 6) 6))) =
    Some (Connect (connect4_event (example_env 1) (example_connect 6) 6))"
  by (rule events_cross_the_ring) (simp_all add: connect4_event_def example_comm_def)

text \<open>The other bits of the storage unit, those of the neighbouring bitfields, keep their values.\<close>

theorem bitfield_write_isolated:
  assumes "field_ok f s" and "load_unit (byte_size f) s (byte_offset f) = Some val"
    and "BPF_CORE_WRITE_BITFIELD f v s = Some s'"
    and "n < 8 * byte_size f" and "n < rshift_u64 f - lshift_u64 f \<or> 64 - lshift_u64 f \<le> n"
  shows "\<exists>val'. load_unit (byte_size f) s' (byte_offset f) = Some val' \<and> bit val' n = bit val n"
  using assms by (rule write_keeps_other_bits)

lemma bitfield_write_isolated_witness:
  "\<exists>val'. load_unit 1 (the (BPF_CORE_WRITE_BITFIELD
      \<lparr>byte_offset = 0, byte_size = 1, lshift_u64 = 58, rshift_u64 = 62, field_signed = False\<rparr> 0 [0xFF])) 0 = Some val' \<and>
    bit val' 7"
proof -
  let ?f = "\<lparr>byte_offset = 0, byte_size = 1, lshift_u64 = 58, rshift_u64 = 62, field_signed = False\<rparr>"
  have ok: "field_ok ?f [0xFF]" by (simp add: field_ok_def)
  have val: "load_unit (byte_size ?f) [0xFF] (byte_offset ?f) = Some 0xFF"
    by (simp add: load_unit_def at8_def)
  have w: "BPF_CORE_WRITE_BITFIELD ?f 0 [0xFF] = Some (the (BPF_CORE_WRITE_BITFIELD ?f 0 [0xFF]))"
    using val by (simp add: BPF_CORE_WRITE_BITFIELD_def)
  have "bit (0xFF :: u64) 7" by simp
  with bitfield_write_isolated [OF ok val w, of 7] show ?thesis by simp
qed

section \<open>The loader\<close>

text \<open>
  With fentry support the announced fall back to kprobe cannot happen: the pruning has
  removed the kprobe programs, so that a single refused fentry attachment ends the start.
\<close>

theorem no_kprobe_fallback:
  assumes "set coll \<subseteq> set (prune_optional_programs True ht spec)"
    and "\<not> accepts P_tcp_sendmsg_fentry \<or> \<not> accepts P_tcp_cleanup_rbuf_fentry"
  shows "start_attach True ht hi accepts coll = None"
  using assms by (rule no_fallback)

lemma no_kprobe_fallback_witness:
  "start_attach True True True (\<lambda>p. p \<noteq> P_tcp_cleanup_rbuf_fentry)
     (prune_optional_programs True True all_programs) = None"
  by (rule no_kprobe_fallback [OF subset_refl]) simp

section \<open>Single programs and the attach sequence\<close>

text \<open>
  The seed of the flow: the establish opens, under the very key that the byte-counting
  programs use for the connection, an entry with one connection and no bytes, or adds one
  connection to the entry on this CPU and leaves its bytes alone; unless the update is refused.
\<close>

theorem establish_seeds_flow:
  assumes "map_grant e M_flow_aggregates"
    and "card (dom (entries (flow_aggregates a))) < max_entries (flow_aggregates a)"
  shows "\<exists>ci vals. ci = established_conn e s d (fst (correlate e d a)) \<and>
    lookup_flow (handle_established e s d a) (flow_key_of ci) = Some vals \<and>
    (case lookup_flow a (flow_key_of ci) of
       None \<Rightarrow> vals (smp_processor_id e) = zero_flow_metrics
         \<lparr>fm_conn_count := 1, fm_last_updated_ns := bpf_ktime_get_ns e 0\<rparr>
     | Some old \<Rightarrow> vals (smp_processor_id e) = (old (smp_processor_id e))
         \<lparr>fm_conn_count := fm_conn_count (old (smp_processor_id e)) + 1,
          fm_last_updated_ns := bpf_ktime_get_ns e 0\<rparr>)"
proof -
  define ci where "ci = established_conn e s d (fst (correlate e d a))"
  define b where "b = snd (detect_sidecar e s (bpf_sock_ops_cb_flags_set e s
    (so_bpf_sock_ops_cb_flags s OR BPF_SOCK_OPS_STATE_CB_FLAG)
    (update_connections e BPF_ANY (bpf_get_socket_cookie e) ci (snd (correlate e d a)))))"
  have same: "flow_aggregates b = flow_aggregates a" by (simp add: b_def update_connections_def)
  have "flow_aggregates (handle_established e s d a) = flow_aggregates (seed_flow e s d ci b)"
    by (simp add: handle_established_def Let_def split_beta ci_def b_def)
  then have flow: "lookup_flow (handle_established e s d a) k = lookup_flow (seed_flow e s d ci b) k" for k
    by (simp add: lookup_flow_def)
  have key: "lookup_flow b k = lookup_flow a k" for k using same by (simp add: lookup_flow_def)
  note seed = seed_flow_def Let_def seed_flow_key [of e s d "fst (correlate e d a)", folded ci_def, symmetric]
  show ?thesis
  proof (cases "lookup_flow a (flow_key_of ci)")
    case (Some old)
    then have "lookup_flow (seed_flow e s d ci b) (flow_key_of ci) = Some (old(smp_processor_id e :=
        (old (smp_processor_id e))\<lparr>fm_conn_count := fm_conn_count (old (smp_processor_id e)) + 1,
          fm_last_updated_ns := bpf_ktime_get_ns e 0\<rparr>))"
      using key [of "flow_key_of ci"] by (simp add: seed) (simp add: write_flow_def lookup_flow_def)
    then show ?thesis using Some by (simp add: ci_def [symmetric] flow)
  next
    case None
    then have "check_flags BPF_NOEXIST (entries (flow_aggregates b) (flow_key_of ci)) = None"
      "entries (flow_aggregates b) (flow_key_of ci) = None"
      using same by (simp_all add: check_flags_def lookup_flow_def bpf_map_lookup_elem_def)
    then have "lookup_flow (seed_flow e s d ci b) (flow_key_of ci) = Some ((other_cpus_flow e)(smp_processor_id e :=
        zero_flow_metrics\<lparr>fm_conn_count := 1, fm_last_updated_ns := bpf_ktime_get_ns e 0\<rparr>))"
      using None key [of "flow_key_of ci"] assms same
      by (simp add: seed) (simp add: insert_flow_def hash_update_def lookup_flow_def)
    then show ?thesis using None by (simp add: ci_def [symmetric] flow)
  qed
qed

lemma establish_seeds_flow_witness:
  "\<exists>ci vals. ci = established_conn (example_env 1) (example_sock_ops 5) 1 (fst (correlate (example_env 1) 1 example_agent)) \<and>
    lookup_flow (handle_established (example_env 1) (example_sock_ops 5) 1 example_agent) (flow_key_of ci) = Some vals"
proof -
  have "card (dom (entries (flow_aggregates example_agent))) < max_entries (flow_aggregates example_agent)"
    by (simp add: boot_agent_sizes no_sizes_def size_default_def)
  from establish_seeds_flow [OF _ this, of "example_env 1" "example_sock_ops 5" 1] show ?thesis by auto
qed

text \<open>
  State changes: any transition but the one to \<open>TCP_CLOSE\<close> changes nothing. At
  \<open>TCP_CLOSE\<close> the entry always goes, and its counters are in a close event, or the ring buffer
  was full and the events slot of the drop counters says so.
\<close>

theorem close_reports_or_drops:
  assumes "lookup_connection a (bpf_get_socket_cookie e) = Some ci" and "smp_processor_id e < n"
  shows "if sint (so_args1 s) \<noteq> TCP_CLOSE then handle_state_change e s a = a
    else lookup_connection (handle_state_change e s a) (bpf_get_socket_cookie e) = None \<and>
      (if ring_reserved e
       then \<exists>cl. events (handle_state_change e s a) = events a @ [Close cl] \<and>
         cl_tx_bytes cl = ci_tx_bytes ci \<and> cl_rx_bytes cl = ci_rx_bytes ci \<and>
         cl_retransmit_bytes cl = ci_retransmit_bytes ci \<and> cl_retransmit_count cl = ci_retransmit_count ci
       else events (handle_state_change e s a) = events a \<and>
         drops n DROP_SLOT_EVENTS_RINGBUF (handle_state_change e s a) = drops n DROP_SLOT_EVENTS_RINGBUF a + 1)"
proof (cases "sint (so_args1 s) = TCP_CLOSE")
  case False
  then show ?thesis by (simp add: state_change_ignored)
next
  case True
  have "drops n DROP_SLOT_EVENTS_RINGBUF (delete_connection k b) = drops n DROP_SLOT_EVENTS_RINGBUF b" for k b
    by (rule drops_cong) simp
  then show ?thesis
    using True state_change_closes [OF True assms(1)]
      drops_count_drop [OF assms(2), of DROP_SLOT_EVENTS_RINGBUF DROP_SLOT_EVENTS_RINGBUF a]
    by (simp add: emit_event_def close_event_of_def Let_def)
qed

lemma close_reports_or_drops_witness:
  "lookup_connection (handle_state_change (example_env 9) (example_sock_ops 10)
      tracked_agent) 42 = None"
  using close_reports_or_drops [of tracked_agent
      "example_env 9" zero_conn_info 1 "example_sock_ops 10"]
  by (simp add: TCP_CLOSE_def split: if_splits)

text \<open>
  The release of a socket: the correlation entry always goes, whatever the configuration;
  the connection entry goes exactly for the sockets that are not TCP, whose close is reported
  by the state callback; no other socket's entry is touched.
\<close>

theorem release_cleans_up:
  "lookup_original_dst (snd (tollwing_sock_release e protocol a)) k =
      (if k = bpf_get_socket_cookie e then None else lookup_original_dst a k) \<and>
    lookup_connection (snd (tollwing_sock_release e protocol a)) k =
      (if k = bpf_get_socket_cookie e \<and> protocol \<noteq> IPPROTO_TCP then None else lookup_connection a k)"
  by (simp add: tollwing_sock_release_def Let_def)
    (simp add: lookup_original_dst_def lookup_connection_def delete_connection_def delete_cookie_def)

text \<open>
  The DNS capture: a datagram of 12 to 512 bytes on a socket whose peer port is 53 becomes
  one record with its length and its bytes, padded with zeros to 512; a full ring buffer is
  counted in the DNS slot, a failed read and every other datagram leave the state alone.
\<close>

theorem dns_capture:
  "tollwing_dns_recvmsg e ctx a =
    (0, if \<not> dns_captured ctx then a
        else if \<not> ring_reserved e then count_drop e (slot_index DROP_SLOT_DNS_RINGBUF) a
        else if \<not> probe_read_ok e then a
        else a\<lparr>dns_events := dns_events a @
          [\<lparr>dr_len = ucast (skb_len_at ctx (sk_receive_queue_next ctx)), dr_pad = 0,
            dr_data = kernel_bytes ctx (skb_data_at ctx (sk_receive_queue_next ctx))
                (unat (skb_len_at ctx (sk_receive_queue_next ctx))) @
              replicate (512 - unat (skb_len_at ctx (sk_receive_queue_next ctx))) 0\<rparr>]\<rparr>)"
  using dns_captured_outcome [of ctx e a] dns_not_captured [of ctx e a] by simp

text \<open>
  Every send and every receive of a TCP socket is counted by one program: in whatever way
  the kernel answers the attachments, a start that succeeds has attached either the two fentry
  programs or the two kprobe programs, and tells the configuration about \<open>udp_sendmsg\<close> what was
  attached.
\<close>

theorem one_byte_counter_per_call:
  assumes "set coll \<subseteq> set (prune_optional_programs hf ht spec)"
    and "start_attach hf ht hi accepts coll = Some ls"
  shows "set ls \<inter> {P_tcp_sendmsg, P_tcp_sendmsg_fentry, P_tcp_cleanup_rbuf, P_tcp_cleanup_rbuf_fentry} =
      (if hf then {P_tcp_sendmsg_fentry, P_tcp_cleanup_rbuf_fentry} else {P_tcp_sendmsg, P_tcp_cleanup_rbuf}) \<and>
    (udp_sendmsg_attached ls \<longleftrightarrow> hf \<and> P_udp_sendmsg \<in> set coll \<and> accepts P_udp_sendmsg)"
  using start_byte_programs [OF assms] start_udp_sendmsg [OF assms] by simp

lemma one_byte_counter_per_call_witness:
  "\<exists>ls. start_attach True True True (\<lambda>_. True) (prune_optional_programs True True all_programs) = Some ls \<and>
    set ls \<inter> {P_tcp_sendmsg, P_tcp_sendmsg_fentry, P_tcp_cleanup_rbuf, P_tcp_cleanup_rbuf_fentry} =
      {P_tcp_sendmsg_fentry, P_tcp_cleanup_rbuf_fentry}"
proof -
  obtain ls where "start_attach True True True (\<lambda>_. True) (prune_optional_programs True True all_programs) = Some ls"
    by (simp add: start_attach_def attach_cgroup_programs_def require_def attach_def optional_def
        attach_byte_counting_hooks_def prune_optional_programs_def remove_programs_def all_programs_def Let_def)
  with one_byte_counter_per_call [OF subset_refl this] show ?thesis by simp
qed

text \<open>
  A retransmission is recorded twice alike: on the connection, and on this CPU's metrics of
  its flow when the flow is there; transmitted and received bytes do not change. A loss probe
  counts the cached segment size, 1460 when it is 0.
\<close>

theorem retransmit_recorded:
  assumes "get_config a \<noteq> None" and "lookup_connection a (bpf_get_socket_cookie e) = Some ci"
    and "lookup_flow a (flow_key_of ci) = Some vals" and "ev = Tcp_retransmit len \<or> ev = Tcp_loss_probe len"
    and "retransmit_amount ev \<noteq> 0"
  shows "lookup_connection (step (e, ev) a) (bpf_get_socket_cookie e) =
      Some (ci\<lparr>ci_retransmit_bytes := ci_retransmit_bytes ci + ucast (retransmit_amount ev),
               ci_retransmit_count := ci_retransmit_count ci + 1\<rparr>) \<and>
    lookup_flow (step (e, ev) a) (flow_key_of ci) =
      Some (vals(smp_processor_id e := (vals (smp_processor_id e))
        \<lparr>fm_retransmit_bytes := fm_retransmit_bytes (vals (smp_processor_id e)) + ucast (retransmit_amount ev),
         fm_retransmit_count := fm_retransmit_count (vals (smp_processor_id e)) + 1,
         fm_last_updated_ns := bpf_ktime_get_ns e 0\<rparr>))"
proof -
  let ?m = "retransmit_amount ev"
  have flow: "lookup_flow (bump_flow e (flow_key_of ci) f (write_connection k c a)) (flow_key_of ci) =
      Some (vals(smp_processor_id e := (f (vals (smp_processor_id e)))\<lparr>fm_last_updated_ns := bpf_ktime_get_ns e 0\<rparr>))"
    for f k c
    using assms(3) by (simp add: bump_flow_def lookup_flow_def write_flow_def write_connection_def)
  have conn: "lookup_connection (bump_flow e fk f (write_connection k c a)) k = Some c" for fk f k c
    by (simp add: lookup_connection_def)
  show ?thesis
    using assms(4)
  proof
    assume ev: "ev = Tcp_retransmit len"
    then show ?thesis
      using assms(1,2,5)
      by (auto simp: tollwing_tcp_retransmit_def Let_def flow conn) (simp_all add: add_retransmit_def bump_retransmit_def)
  next
    assume ev: "ev = Tcp_loss_probe len"
    then show ?thesis
      using assms(1,2)
      by (auto simp: tollwing_tcp_loss_probe_def Let_def flow conn) (simp_all add: add_retransmit_def bump_retransmit_def)
  qed
qed

lemma retransmit_recorded_witness:
  "lookup_connection (step (example_env 1, Tcp_loss_probe 0) tracked_agent) 42 =
      Some (zero_conn_info\<lparr>ci_retransmit_bytes := 1460, ci_retransmit_count := 1\<rparr>)"
  using retransmit_recorded [of tracked_agent "example_env 1" zero_conn_info "\<lambda>_. zero_flow_metrics" "Tcp_loss_probe 0" 0]
  by (simp del: step_simps) (simp add: zero_conn_info_def)

section \<open>Phases, conventions, races\<close>

text \<open>
  Phase one: a selected \<open>connect\<close> records, under the socket's cookie, the destination
  before DNAT, its port decoded to host order, and the calling process.
\<close>

theorem connect4_records_pre_dnat:
  assumes "connect_selected e ctx a = Some proto" and "cookie_room e a"
    and "sa_user_port ctx = ucast (bpf_htons Little c port)"
  shows "\<exists>dst. lookup_original_dst (snd (tollwing_connect4 e ctx a)) (bpf_get_socket_cookie e) = Some dst \<and>
    od_ip dst = sa_user_ip4 ctx \<and> od_port dst = port \<and> od_pid dst = current_pid e \<and>
    od_cgroupid dst = bpf_get_current_cgroup_id e \<and> od_comm dst = bpf_get_current_comm e"
  using connect4_captures [OF assms(1,2)] connect_port_decodes [of c port] assms(3)
  by (simp add: connect4_dst_def)

lemma connect4_records_pre_dnat_witness:
  "\<exists>dst. lookup_original_dst (snd (tollwing_connect4 (example_env 1) (example_connect 6) example_agent))
      (bpf_get_socket_cookie (example_env 1)) = Some dst \<and>
    od_ip dst = sa_user_ip4 (example_connect 6) \<and> od_port dst = 443 \<and> od_pid dst = current_pid (example_env 1) \<and>
    od_cgroupid dst = bpf_get_current_cgroup_id (example_env 1) \<and> od_comm dst = bpf_get_current_comm (example_env 1)"
  by (rule connect4_records_pre_dnat [where proto = 6 and c = True]) simp_all

text \<open>
  Phase two: an active establish takes over what phase one left for the socket, uses it
  up, records the destination after DNAT with the decoded ports, and arms the state callback
  without clearing callback flags that were set.
\<close>

theorem active_establish_correlates:
  assumes "get_config a \<noteq> None" and "so_family s \<in> {AF_INET, AF_INET6}"
    and "so_op s = BPF_SOCK_OPS_ACTIVE_ESTABLISHED_CB"
    and "lookup_original_dst a (bpf_get_socket_cookie e) = Some orig"
    and "connections_room e a" and "so_is_fullsock s \<noteq> 0"
    and "so_remote_port s = push_bit 16 (ucast (bpf_htons Little c port))"
  shows "(\<exists>ci. lookup_connection (snd (tollwing_sockops e s a)) (bpf_get_socket_cookie e) = Some ci \<and>
      ci_original_dst_ip ci = od_ip orig \<and> ci_original_dst_port ci = od_port orig \<and>
      ci_pid ci = od_pid orig \<and> ci_cgroupid ci = od_cgroupid orig \<and>
      ci_src_ip ci = so_local_ip4 s \<and> ci_dst_ip ci = so_remote_ip4 s \<and> ci_dst_port ci = port \<and>
      ci_protocol ci = IPPROTO_TCP \<and> ci_direction ci = 0 \<and> ci_tx_bytes ci = 0 \<and> ci_rx_bytes ci = 0) \<and>
    lookup_original_dst (snd (tollwing_sockops e s a)) (bpf_get_socket_cookie e) = None \<and>
    sk_cb_flags (snd (tollwing_sockops e s a)) (bpf_get_socket_cookie e) =
      (so_bpf_sock_ops_cb_flags s OR BPF_SOCK_OPS_STATE_CB_FLAG) AND cb_flags_settable e"
proof -
  have fam: "so_family s = AF_INET \<or> so_family s = AF_INET6" using assms(2) by auto
  note est = active_establish [OF assms(1,3) fam assms(4)]
  have p: "sockops_port (so_remote_port s) = port" by (simp only: assms(7) sockops_port_decodes)
  have "lookup_original_dst (handle_established e s 0 a) (bpf_get_socket_cookie e) = None"
    using correlate_found(2) [OF assms(4)]
    by (simp only: lookup_original_dst_def handle_established_cookie)
  moreover have "snd (tollwing_sockops e s a) = handle_established e s 0 a" using est(1) by simp
  ultimately show ?thesis
    using handle_established_connection [OF assms(5), of s 0] handle_established_armed [OF assms(6), of e 0 a]
    by (simp add: est(2) established_conn_fields p correlation_of_def)
qed

lemma active_establish_correlates_witness:
  "lookup_original_dst (snd (tollwing_sockops (example_env 2) (example_sock_ops 4)
      (example_agent\<lparr>cookie_to_original_dst := bpf_map_write 42 (connect4_dst (example_env 1) (example_connect 6))
         (empty_bmap 65536)\<rparr>))) 42 = None"
  using active_establish_correlates [where e = "example_env 2" and s = "example_sock_ops 4" and c = True and
      port = 8443 and orig = "connect4_dst (example_env 1) (example_connect 6)" and
      a = "example_agent\<lparr>cookie_to_original_dst := bpf_map_write 42
        (connect4_dst (example_env 1) (example_connect 6)) (empty_bmap 65536)\<rparr>"]
    get_config_cong [of "example_agent\<lparr>cookie_to_original_dst := m\<rparr>" example_agent for m]
  by (simp add: lookup_original_dst_def BPF_SOCK_OPS_ACTIVE_ESTABLISHED_CB_def)
    (simp add: example_sock_ops_def)

text \<open>
  The kprobe and the fentry program of \<open>tcp_sendmsg\<close> do the same to the whole state when
  the register of the third parameter holds the \<open>size\<close> argument and it is below \<open>2^32\<close>; so do
  those of \<open>tcp_cleanup_rbuf\<close>, for every value.
\<close>

theorem kprobe_is_fentry:
  assumes "PT_REGS_PARM ab 3 regs = ctx 2" and "unat (ctx 2) < 2 ^ 32" and "PT_REGS_PARM ab 2 regs = ctx 1"
  shows "tollwing_tcp_sendmsg e ab regs a = tollwing_tcp_sendmsg_fentry e ctx a \<and>
    tollwing_tcp_cleanup_rbuf e ab regs a = tollwing_tcp_cleanup_rbuf_fentry e ctx a"
  using assms by (rule kprobe_fentry)

lemma kprobe_is_fentry_witness:
  "tollwing_tcp_sendmsg (example_env 1) x86_abi (\<lambda>_. 1400) example_agent =
    tollwing_tcp_sendmsg_fentry (example_env 1) (\<lambda>_. 1400) example_agent"
  using kprobe_is_fentry [of x86_abi "\<lambda>_. 1400" "\<lambda>_. 1400" "example_env 1" example_agent]
  by (simp add: PT_REGS_PARM_def)

text \<open>
  The DNS capture on kernel memory: for a socket in memory with peer port 53 and a buffer of 12
  to 512 bytes at the head of its receive queue, the record that the program submits, reading
  through \<open>BPF_CORE_READ\<close>, holds the bytes at the buffer's data pointer, padded with zeros.
\<close>

theorem dns_reads_the_socket:
  assumes "dns_socket mem offs sk family skb data len" and "family = AF_INET \<or> family = AF_INET6"
    and "skb \<noteq> 0" "skb \<noteq> sk + off_sk_receive_queue offs" "data \<noteq> 0" "12 \<le> len" "len \<le> 512"
    and "ring_reserved e" "probe_read_ok e"
  shows "dns_events (snd (tollwing_dns_recvmsg e (dns_ctx_of (mem_read mem) mem offs sk) a)) =
    dns_events a @ [\<lparr>dr_len = ucast len, dr_pad = 0,
      dr_data = mem_read mem (unat len) data @ replicate (512 - unat len) 0\<rparr>]"
  using assms by (rule dns_memory_captured)

lemma dns_reads_the_socket_witness:
  "dns_events (snd (tollwing_dns_recvmsg (example_env 1)
      (dns_ctx_of (mem_read example_memory) example_memory example_offsets 1000) example_agent)) =
    [\<lparr>dr_len = 12, dr_pad = 0, dr_data = [1, 2, 3, 4, 5, 6, 7, 8, 9, 10, 11, 12] @ replicate 500 0\<rparr>]"
proof -
  have "dns_socket example_memory example_offsets 1000 2 2000 3000 12"
    by (simp add: dns_socket_def example_offsets_def mem_read_def example_memory_def upt_rec explicit_bytes)
  from dns_reads_the_socket [OF this, of "example_env 1" example_agent] show ?thesis
    by (simp add: AF_INET_def example_offsets_def) (simp add: mem_read_def example_memory_def upt_rec)
qed

text \<open>
  The same for IPv6 with the UDP header next: the flow key holds the first four bytes of
  each address.
\<close>

theorem quic_ipv6_frame_parsed:
  assumes "length macs = 12" and "length front = 6" and "length src = 16" and "length dst = 16"
    and "length ucsum = 2" and "9 \<le> unat len" and "pl \<noteq> []"
  shows "parse_quic (macs @ [0x86, 0xDD] @ ipv6_header front hops src dst @
            udp_datagram sp dp len ucsum pl) =
    Some (case quic_header pl of
        None \<Rightarrow> Pass
      | Some (v, h) \<Rightarrow> Quic_packet \<lparr>qk_src_ip = le_word32_at src 0, qk_dst_ip = le_word32_at dst 0,
                                    qk_src_port = sp, qk_dst_port = dp\<rparr> v h)"
  using parse_ipv6_frame [OF assms] by (simp add: parse_result_def)

lemma quic_ipv6_frame_parsed_witness:
  "parse_quic (replicate 12 2 @ [0x86, 0xDD] @
      ipv6_header (replicate 6 0) 64 ([0x20, 0x01, 0x0D, 0xB8] @ replicate 12 0) (replicate 16 1) @
      udp_datagram 50000 443 9 [0, 0] [0x40]) =
    Some (Quic_packet \<lparr>qk_src_ip = 0xB80D0120, qk_dst_ip = 0x01010101, qk_src_port = 50000, qk_dst_port = 443\<rparr> 0 2)"
proof -
  have q: "quic_header [0x40] = Some (0, 2)" by (simp add: quic_header_def)
  have d: "le_word32_at (replicate 16 1) 0 = 0x01010101" "le_word32_at ([0x20, 0x01, 0x0D, 0xB8] @ replicate 12 0) 0 = 0xB80D0120"
    by (simp_all add: le_word32_at_def le_word32_def)
  show ?thesis
    using quic_ipv6_frame_parsed [of "replicate 12 2" "replicate 6 0" "[0x20, 0x01, 0x0D, 0xB8] @ replicate 12 0"
        "replicate 16 1" "[0, 0]" 9 "[0x40]" 64 50000 443]
    by (simp only: q d length_replicate option.case prod.case) simp
qed

text \<open>
  What a drain between lookup and update does: the program has added the bytes to its
  connection and was going to add them to the flow; they are in no snapshot, no flow, and no
  drop counter moves.
\<close>

theorem drain_race_loses_increment:
  assumes "pending_ok n s" and "cc_pending s i = None"
    and "inserts_flow ev \<or> bumps_flow ev" and "counted_call e ev (cc_agent s) = Some conn"
    and "has_flow (cc_agent s) (flow_key_of conn)"
  shows "let run = [Begin i e ev, Whole (Poll_flow (flow_key_of conn)), Finish i None];
             t = fold (conc_step n) run s in
    sum_list (run_log conc_credit (conc_step n) run s) = tx_amount ev conn \<and>
    sum_list (run_log conc_rx_credit (conc_step n) run s) = rx_amount ev conn \<and>
    lookup_connection (cc_agent t) (bpf_get_socket_cookie e) = Some conn \<and>
    conc_accounted n t = conc_accounted n s \<and> conc_rx_accounted n t = conc_rx_accounted n s \<and>
    conc_drops n t = conc_drops n s"
  using drain_between(1) [OF assms(3,2,4,5), of n] drain_between_books [OF assms(3,2,4,5), of n]
    pending_okD(1) [OF assms(1)]
  unfolding Let_def by blast

lemma drain_race_loses_increment_witness:
  "let conn = tally (Tcp_sendmsg_fentry (\<lambda>_. 100)) zero_conn_info;
       run = [Begin 0 (example_env 1) (Tcp_sendmsg_fentry (\<lambda>_. 100)), Whole (Poll_flow (flow_key_of conn)),
         Finish 0 None];
       t = fold (conc_step 1) run example_conc in
    sum_list (run_log conc_credit (conc_step 1) run example_conc) = tx_amount (Tcp_sendmsg_fentry (\<lambda>_. 100)) conn \<and>
    sum_list (run_log conc_rx_credit (conc_step 1) run example_conc) = rx_amount (Tcp_sendmsg_fentry (\<lambda>_. 100)) conn \<and>
    lookup_connection (cc_agent t) (bpf_get_socket_cookie (example_env 1)) = Some conn \<and>
    conc_accounted 1 t = conc_accounted 1 example_conc \<and> conc_rx_accounted 1 t = conc_rx_accounted 1 example_conc \<and>
    conc_drops 1 t = conc_drops 1 example_conc"
  unfolding Let_def
proof (rule drain_race_loses_increment [unfolded Let_def])
  show "pending_ok 1 example_conc" by (simp add: pending_ok_def example_conc_def tracked_agent_wf)
  show "cc_pending example_conc 0 = None" by (simp add: example_conc_def)
  show "inserts_flow (Tcp_sendmsg_fentry (\<lambda>_. 100)) \<or> bumps_flow (Tcp_sendmsg_fentry (\<lambda>_. 100))" by simp
  show "counted_call (example_env 1) (Tcp_sendmsg_fentry (\<lambda>_. 100)) (cc_agent example_conc) =
      Some (tally (Tcp_sendmsg_fentry (\<lambda>_. 100)) zero_conn_info)"
    by (simp add: example_conc_def counted_call_def zero_conn_info_def is_sidecar_socket_cookie_def
        is_sidecar_port_def c_int_def loopback_def bpf_swab32_def bpf_mvb_def)
  show "has_flow (cc_agent example_conc) (flow_key_of (tally (Tcp_sendmsg_fentry (\<lambda>_. 100)) zero_conn_info))"
    by (simp add: example_conc_def has_flow_def)
qed

text \<open>
  Taking programs apart changes nothing by itself: a run in which every program finishes before
  anything else happens is the run of whole programs of the sequential system.
\<close>

theorem apart_runs_are_sequential:
  assumes "\<forall>(e, ev) \<in> set is. counting ev" and "cc_pending s i = None" and "cc_packets s i = None"
  shows "fold (conc_step n) (apart i is) s =
    (let (a, fl) = fold (sys_step n) (map (\<lambda>(e, ev). Kernel e ev) is) (cc_agent s, cc_flows s)
     in s\<lparr>cc_agent := a, cc_flows := fl\<rparr>)"
  using assms by (rule apart_is_sequential)

lemma apart_runs_are_sequential_witness:
  "fold (conc_step 1) (apart 3 [(example_env 1, Tcp_sendmsg_fentry (\<lambda>_. 100)), (example_env 2, Quic_egress example_frame)])
      example_conc =
    (let (a, fl) = fold (sys_step 1) [Kernel (example_env 1) (Tcp_sendmsg_fentry (\<lambda>_. 100)),
        Kernel (example_env 2) (Quic_egress example_frame)] (cc_agent example_conc, cc_flows example_conc)
     in example_conc\<lparr>cc_agent := a, cc_flows := fl\<rparr>)"
  using apart_runs_are_sequential [of "[(example_env 1, Tcp_sendmsg_fentry (\<lambda>_. 100)),
        (example_env 2, Quic_egress example_frame)]" example_conc 3 1]
  by (simp add: example_conc_def del: sys_step.simps)

text \<open>
  Loading the collection: whatever programs the verifier rejects, in whatever order they are
  named, the load succeeds exactly when they are all optional and at most five, and then the
  loaded programs are the others, in their order; else it ends with an error.
\<close>

theorem load_tolerates_five:
  assumes "verifier rejected new_collection" and "\<forall>k. set (order k) = set optional_programs"
  shows "let spec = prune_optional_programs have_fentry have_tcx all_programs in
    if set spec \<inter> rejected \<subseteq> set optional_programs \<and> card (set spec \<inter> rejected) \<le> 5
    then load_collection_with_fallback new_collection order spec = Inr (filter (\<lambda>p. p \<notin> rejected) spec)
    else \<exists>err. load_collection_with_fallback new_collection order spec = Inl err"
  using load_exact [OF assms subset_refl, of have_fentry have_tcx 5]
  unfolding load_collection_with_fallback_def Let_def .

lemma load_tolerates_five_witness:
  "load_collection_with_fallback example_verifier (\<lambda>_. optional_programs) (prune_optional_programs True False all_programs) =
    Inr [P_connect4, P_connect6, P_sockops, P_sock_release, P_tcp_sendmsg_fentry, P_tcp_cleanup_rbuf_fentry,
      P_tcp_retransmit, P_tcp_loss_probe, P_udp_sendmsg, P_udp_recvmsg_exit]"
proof -
  have "verifier {P_dns_recvmsg} example_verifier"
    unfolding verifier_def example_verifier_def
    by (auto intro!: exI [of _ "''load program: permission denied''"] simp: sublist_Cons_right)
  from load_tolerates_five [OF this, of "\<lambda>_. optional_programs" True False] show ?thesis
    by (simp add: Let_def prune_optional_programs_def remove_programs_def all_programs_def optional_programs_def)
qed

text \<open>
  Writing a relocated bitfield and reading it back gives the low bits of the value,
  sign-extended for a signed field; the bytes outside the storage unit are untouched.
\<close>

theorem bitfield_write_then_read:
  assumes "field_ok f s"
  shows "\<exists>s'. BPF_CORE_WRITE_BITFIELD f v s = Some s' \<and> length s' = length s \<and>
    BPF_CORE_READ_BITFIELD f s' =
      Some (if field_signed f then signed_take_bit (63 - rshift_u64 f) v
            else take_bit (64 - rshift_u64 f) v) \<and>
    (\<forall>i. i < byte_offset f \<or> byte_offset f + byte_size f \<le> i \<longrightarrow> s' ! i = s ! i)"
  using assms by (rule write_then_read)

lemma bitfield_write_then_read_witness:
  "\<exists>s'. BPF_CORE_WRITE_BITFIELD \<lparr>byte_offset = 1, byte_size = 2, lshift_u64 = 50, rshift_u64 = 60, field_signed = False\<rparr>
      13 [1, 2, 3, 4] = Some s' \<and> s' ! 0 = 1 \<and> s' ! 3 = 4"
proof -
  have "field_ok \<lparr>byte_offset = 1, byte_size = 2, lshift_u64 = 50, rshift_u64 = 60, field_signed = False\<rparr> [1, 2, 3, 4]"
    by (simp add: field_ok_def)
  from bitfield_write_then_read [OF this, of 13] show ?thesis by auto
qed

section \<open>Received bytes, hashed keys\<close>

text \<open>
  The received bytes when programs overlap: what is in the flow aggregates or delivered, the
  refused updates (as many as the drop counter of the map shows) and the increments through
  pointers to removed elements add up to what the receive programs counted for a flow.
\<close>

theorem concurrent_rx_ledger:
  assumes "\<forall>ev \<in> set evs. conc_possible n ev"
  shows "let s = conc_initial sizes cfg; t = fold (conc_step n) evs s in
    \<exists>lost. conc_rx_drops n t = of_nat (length lost) \<and>
      mset lost \<subseteq># mset (run_log (\<lambda>ev s. conc_rx_credit ev s - conc_rx_raced ev s) (conc_step n) evs s) \<and>
      conc_rx_accounted n t + sum_list lost + sum_list (run_log conc_rx_raced (conc_step n) evs s) =
        sum_list (run_log conc_rx_credit (conc_step n) evs s)"
  using conc_rx.run_books [OF conc_initial_ok assms, of sizes cfg]
  by (auto simp: Let_def conc_initial_totals run_log_diff intro: books_with_races)

lemma concurrent_rx_ledger_witness:
  "let s = conc_initial no_sizes example_config; t = fold (conc_step 1) example_conc_run s in
    \<exists>lost. conc_rx_drops 1 t = of_nat (length lost) \<and>
      mset lost \<subseteq># mset (run_log (\<lambda>ev s. conc_rx_credit ev s - conc_rx_raced ev s) (conc_step 1) example_conc_run s) \<and>
      conc_rx_accounted 1 t + sum_list lost + sum_list (run_log conc_rx_raced (conc_step 1) example_conc_run s) =
        sum_list (run_log conc_rx_credit (conc_step 1) example_conc_run s)"
  by (rule concurrent_rx_ledger) (simp add: zero_quic_flow_metrics_def)

text \<open>
  The keys of the per-CPU hash maps are their fields: they have no padding that the
  compiler could leave uninitialised, two keys have the same bytes, and so are one entry for
  the kernel, exactly when their fields agree, and userspace reads the key that was written.
\<close>

theorem hashed_keys_are_their_fields:
  "no_padding c_flow_key \<and> length (flow_key_bytes k) = struct_size c_flow_key \<and>
   (flow_key_bytes k = flow_key_bytes k' \<longleftrightarrow> k = k') \<and> cast_flow_key (flow_key_bytes k) = k \<and>
   no_padding c_quic_flow_key \<and> length (quic_key_bytes q) = struct_size c_quic_flow_key \<and>
   (quic_key_bytes q = quic_key_bytes q' \<longleftrightarrow> q = q') \<and> cast_quic_key (quic_key_bytes q) = q"
  using keys_no_padding by (simp add: key_bytes_back key_bytes_length key_bytes_inj)

end
