(* ===== verification/Userspace_Facts.thy ===== *)
theory Userspace_Facts
  imports Further_Facts
begin

text \<open>
  Behaviours of the userspace packages that a reader of the code would not expect.
\<close>

section \<open>The DNS cache\<close>

text \<open>A ring of two slots, filled by a run of four answers and two more: three addresses are cached.\<close>

definition small_tracker :: tracker where
  "small_tracker = (new_tracker \<lparr>dc_min_ttl = 0, dc_max_ttl = 0\<rparr> 0)\<lparr>tr_ring := [No_addr, No_addr], tr_service_mapper := []\<rparr>"

definition answer_of :: "u32 \<Rightarrow> tracker_op" where
  "answer_of a = Dns_answered 0 (Addr4 a) ''a'' 60"

lemma ring_is_not_the_capacity:
  "card (dom (tr_cache (tracker_run example_order (map answer_of [1, 2, 1, 1, 3, 4]) small_tracker))) = 3 \<and>
    length (tr_ring (tracker_run example_order (map answer_of [1, 2, 1, 1, 3, 4]) small_tracker)) = 2"
  by (simp add: answer_of_def small_tracker_def new_tracker_def cache_insert_def Let_def addr_valid_def)

text \<open>The eviction looks at the slot, not at what was just stored: the new answer itself can go.\<close>

lemma fresh_answer_lost:
  assumes "addr_valid addr" "domain \<noteq> []" and "tr_ring t ! tr_ring_pos t = addr"
    and "length (tr_ring t) < card (insert addr (dom (tr_cache t)))"
  shows "fst (tracker_lookup addr later (cache_insert order now addr domain ttl t)) = []"
  using assms by (simp add: cache_insert_def Let_def tracker_lookup_def)

text \<open>The rules are tried in order, and an AWS rule also matches its name in front: a database named \<open>sqs\<close>.\<close>

lemma database_called_sqs:
  "service_lookup builtin_rules ''sqs.abc.us-east-1.rds.amazonaws.com'' = ''SQS''"
  by (simp add: service_lookup_def to_lower_def builtin_rules_def rule_matches_def has_suffix_def has_prefix_def
      aws_tail_def Let_def)

section \<open>Zones and addresses\<close>

text \<open>A bare region loses its last part, against the comment of \<open>regionFromZone\<close>.\<close>

lemma bare_region: "region_from_zone ''us-east-1'' = ''us-east''"
  by (simp add: region_from_zone_def eval_nat_numeral ascii_lower_def)

text \<open>The agent's function slices out of range on a zone of one letter.\<close>

lemma one_letter_zone: "ascii_lower c \<Longrightarrow> agent_region_from_zone [c] = None"
  by (simp add: agent_region_from_zone_def)

text \<open>Zones of nested prefixes depend on the order in which a Go map was iterated.\<close>

lemma nested_zones_depend_on_order:
  assumes "a \<notin> zr_local_ips z" "zr_ip_zone z a = None" and "prefix_contains p a" "prefix_contains q a"
  shows "resolve_zone (set_cidr_zones [(p, zone), (q, zone')] z) a = zone \<and>
    resolve_zone (set_cidr_zones [(q, zone'), (p, zone)] z) a = zone'"
  using assms by (simp add: resolve_zone_def set_cidr_zones_def)

text \<open>The shared address space of RFC 6598 is not private here: it is charged as internet traffic.\<close>

lemma shared_space_not_private: "\<not> is_private 0x64400001"
  by (simp add: is_private_def addr_is_private_def is_loopback_def is_link_local_unicast_def)

section \<open>The poll\<close>

text \<open>Without hints from the agent the service mesh type is never given.\<close>

lemma tree_lookup_unmatched: "\<not> snd (tree_lookup es addr) \<Longrightarrow> fst (tree_lookup es addr) = Unknown"
  by (induction es) (auto split: if_splits)

lemma mesh_type_never_given:
  assumes "topology_current ops (av_classifier v)"
  shows "cfl_traffic_type (fst (classify_flow v now f sd)) \<noteq> ServiceMeshInternal"
proof -
  have tree: "fst (tree_lookup (cf_prefix_tree (av_classifier v)) addr) \<noteq> ServiceMeshInternal" for addr
    using tree_types [OF assms, of addr "fst (tree_lookup (cf_prefix_tree (av_classifier v)) addr)"]
      tree_lookup_unmatched [of "cf_prefix_tree (av_classifier v)" addr]
    by (cases "snd (tree_lookup (cf_prefix_tree (av_classifier v)) addr)") (auto simp: prod_eq_iff)
  then show ?thesis
    by (simp add: classify_def poll_flow_info_def classify_private_def classify_external_def classify_internal_def
        Let_def split_beta)
qed

text \<open>A connection that closes before the next poll is no longer named.\<close>

lemma closed_before_the_poll:
  assumes "f = sum_per_cpu (flow_key_of ci) vals"
  shows "dialed_service tables (handle_events (evs @ [Close (close_event_of e ci)]) c) f = ([], [])"
  using closed_forgotten [of ci evs e c] assms by (simp add: dialed_service_def snapshot_key_sum)

section \<open>The tables of the cluster\<close>

text \<open>The delete of a pod takes its address with it, also when another pod has the address by now.\<close>

lemma reused_pod_ip_forgotten:
  assumes "kp_pod_ip old = kp_pod_ip new"
  shows "in_pod_ip_to_meta (on_pod_delete (Deleted_object old) (fst (on_pod pa new t))) (kp_pod_ip new) = None"
  using assms by (simp add: on_pod_delete_def)

text \<open>The identifiers of restarted containers stay in the table after the pod is gone.\<close>

lemma container_table: "fold (\<lambda>cid m. m(cid := v)) cids m c = (if c \<in> set cids then v else m c)"
  by (induction cids arbitrary: m) simp_all

lemma restarted_container_kept:
  assumes "cid \<in> set (container_ids before)" "cid \<notin> set (container_ids after)"
  shows "in_container_to_pod (on_pod_delete (Deleted_object after) (fst (on_pod pa after (fst (on_pod pa before t))))) cid
    = Some (meta_of before t)"
  using assms by (simp add: on_pod_delete_def on_pod_def Let_def container_table)

text \<open>Without local addresses, which the agent never registers, the zone of the node itself is not used.\<close>

lemma local_zone_unused: "zr_local_ips z = {} \<Longrightarrow> resolve_zone (z\<lparr>zr_local_zone := zone\<rparr>) a = resolve_zone z a"
  by (simp add: resolve_zone_def split: option.split)

end
