(* ===== verification/Kernel_Abi.thy ===== *)
theory Kernel_Abi
  imports Pt_Regs
begin

text \<open>
  The numbers and signatures by which the programs call the kernel: the helper table of
  \<open>include/bpf/bpf_helper_defs.h\<close>, one entry per declaration with the name after its
  \<open>bpf_\<close> prefix, and the \<open>enum bpf_func_id\<close> of the two vmlinux headers, with the names after
  \<open>BPF_FUNC_\<close>. A program built against one header and loaded on the other architecture calls
  the helper it names only if the three agree.
\<close>

section \<open>Helper declarations\<close>

datatype c_type = Void | Scalar string | Ptr string | Const_ptr string | Variadic

record helper =
  h_name :: string
  h_ret :: c_type
  h_args :: "c_type list"
  h_id :: nat

abbreviation bpf_helper :: "c_type \<Rightarrow> string \<Rightarrow> c_type list \<Rightarrow> nat \<Rightarrow> helper" where
  "bpf_helper ret name args i \<equiv> \<lparr>h_name = name, h_ret = ret, h_args = args, h_id = i\<rparr>"

definition helpers_1_7 :: "helper list" where
  "helpers_1_7 =
    [bpf_helper (Ptr ''void'') ''map_lookup_elem'' [Ptr ''void'', Const_ptr ''void''] 1,
     bpf_helper (Scalar ''long'') ''map_update_elem'' [Ptr ''void'', Const_ptr ''void'', Const_ptr ''void'', Scalar ''__u64''] 2,
     bpf_helper (Scalar ''long'') ''map_delete_elem'' [Ptr ''void'', Const_ptr ''void''] 3,
     bpf_helper (Scalar ''long'') ''probe_read'' [Ptr ''void'', Scalar ''__u32'', Const_ptr ''void''] 4,
     bpf_helper (Scalar ''__u64'') ''ktime_get_ns'' [] 5,
     bpf_helper (Scalar ''long'') ''trace_printk'' [Const_ptr ''char'', Scalar ''__u32'', Variadic] 6,
     bpf_helper (Scalar ''__u32'') ''get_prandom_u32'' [] 7]"

definition helpers_8_12 :: "helper list" where
  "helpers_8_12 =
    [bpf_helper (Scalar ''__u32'') ''get_smp_processor_id'' [] 8,
     bpf_helper (Scalar ''long'') ''skb_store_bytes'' [Ptr ''struct __sk_buff'', Scalar ''__u32'', Const_ptr ''void'', Scalar ''__u32'', Scalar ''__u64''] 9,
     bpf_helper (Scalar ''long'') ''l3_csum_replace'' [Ptr ''struct __sk_buff'', Scalar ''__u32'', Scalar ''__u64'', Scalar ''__u64'', Scalar ''__u64''] 10,
     bpf_helper (Scalar ''long'') ''l4_csum_replace'' [Ptr ''struct __sk_buff'', Scalar ''__u32'', Scalar ''__u64'', Scalar ''__u64'', Scalar ''__u64''] 11,
     bpf_helper (Scalar ''long'') ''tail_call'' [Ptr ''void'', Ptr ''void'', Scalar ''__u32''] 12]"

definition helpers_13_19 :: "helper list" where
  "helpers_13_19 =
    [bpf_helper (Scalar ''long'') ''clone_redirect'' [Ptr ''struct __sk_buff'', Scalar ''__u32'', Scalar ''__u64''] 13,
     bpf_helper (Scalar ''__u64'') ''get_current_pid_tgid'' [] 14,
     bpf_helper (Scalar ''__u64'') ''get_current_uid_gid'' [] 15,
     bpf_helper (Scalar ''long'') ''get_current_comm'' [Ptr ''void'', Scalar ''__u32''] 16,
     bpf_helper (Scalar ''__u32'') ''get_cgroup_classid'' [Ptr ''struct __sk_buff''] 17,
     bpf_helper (Scalar ''long'') ''skb_vlan_push'' [Ptr ''struct __sk_buff'', Scalar ''__be16'', Scalar ''__u16''] 18,
     bpf_helper (Scalar ''long'') ''skb_vlan_pop'' [Ptr ''struct __sk_buff''] 19]"

definition helpers_20_22 :: "helper list" where
  "helpers_20_22 =
    [bpf_helper (Scalar ''long'') ''skb_get_tunnel_key'' [Ptr ''struct __sk_buff'', Ptr ''struct bpf_tunnel_key'', Scalar ''__u32'', Scalar ''__u64''] 20,
     bpf_helper (Scalar ''long'') ''skb_set_tunnel_key'' [Ptr ''struct __sk_buff'', Ptr ''struct bpf_tunnel_key'', Scalar ''__u32'', Scalar ''__u64''] 21,
     bpf_helper (Scalar ''__u64'') ''perf_event_read'' [Ptr ''void'', Scalar ''__u64''] 22]"

definition helpers_23_26 :: "helper list" where
  "helpers_23_26 =
    [bpf_helper (Scalar ''long'') ''redirect'' [Scalar ''__u32'', Scalar ''__u64''] 23,
     bpf_helper (Scalar ''__u32'') ''get_route_realm'' [Ptr ''struct __sk_buff''] 24,
     bpf_helper (Scalar ''long'') ''perf_event_output'' [Ptr ''void'', Ptr ''void'', Scalar ''__u64'', Ptr ''void'', Scalar ''__u64''] 25,
     bpf_helper (Scalar ''long'') ''skb_load_bytes'' [Const_ptr ''void'', Scalar ''__u32'', Ptr ''void'', Scalar ''__u32''] 26]"

definition helpers_27_31 :: "helper list" where
  "helpers_27_31 =
    [bpf_helper (Scalar ''long'') ''get_stackid'' [Ptr ''void'', Ptr ''void'', Scalar ''__u64''] 27,
     bpf_helper (Scalar ''__s64'') ''csum_diff'' [Ptr ''__be32'', Scalar ''__u32'', Ptr ''__be32'', Scalar ''__u32'', Scalar ''__wsum''] 28,
     bpf_helper (Scalar ''long'') ''skb_get_tunnel_opt'' [Ptr ''struct __sk_buff'', Ptr ''void'', Scalar ''__u32''] 29,
     bpf_helper (Scalar ''long'') ''skb_set_tunnel_opt'' [Ptr ''struct __sk_buff'', Ptr ''void'', Scalar ''__u32''] 30,
     bpf_helper (Scalar ''long'') ''skb_change_proto'' [Ptr ''struct __sk_buff'', Scalar ''__be16'', Scalar ''__u64''] 31]"

definition helpers_32_38 :: "helper list" where
  "helpers_32_38 =
    [bpf_helper (Scalar ''long'') ''skb_change_type'' [Ptr ''struct __sk_buff'', Scalar ''__u32''] 32,
     bpf_helper (Scalar ''long'') ''skb_under_cgroup'' [Ptr ''struct __sk_buff'', Ptr ''void'', Scalar ''__u32''] 33,
     bpf_helper (Scalar ''__u32'') ''get_hash_recalc'' [Ptr ''struct __sk_buff''] 34,
     bpf_helper (Scalar ''__u64'') ''get_current_task'' [] 35,
     bpf_helper (Scalar ''long'') ''probe_write_user'' [Ptr ''void'', Const_ptr ''void'', Scalar ''__u32''] 36,
     bpf_helper (Scalar ''long'') ''current_task_under_cgroup'' [Ptr ''void'', Scalar ''__u32''] 37,
     bpf_helper (Scalar ''long'') ''skb_change_tail'' [Ptr ''struct __sk_buff'', Scalar ''__u32'', Scalar ''__u64''] 38]"

definition helpers_39_45 :: "helper list" where
  "helpers_39_45 =
    [bpf_helper (Scalar ''long'') ''skb_pull_data'' [Ptr ''struct __sk_buff'', Scalar ''__u32''] 39,
     bpf_helper (Scalar ''__s64'') ''csum_update'' [Ptr ''struct __sk_buff'', Scalar ''__wsum''] 40,
     bpf_helper (Void) ''set_hash_invalid'' [Ptr ''struct __sk_buff''] 41,
     bpf_helper (Scalar ''long'') ''get_numa_node_id'' [] 42,
     bpf_helper (Scalar ''long'') ''skb_change_head'' [Ptr ''struct __sk_buff'', Scalar ''__u32'', Scalar ''__u64''] 43,
     bpf_helper (Scalar ''long'') ''xdp_adjust_head'' [Ptr ''struct xdp_md'', Scalar ''int''] 44,
     bpf_helper (Scalar ''long'') ''probe_read_str'' [Ptr ''void'', Scalar ''__u32'', Const_ptr ''void''] 45]"

definition helpers_46_50 :: "helper list" where
  "helpers_46_50 =
    [bpf_helper (Scalar ''__u64'') ''get_socket_cookie'' [Ptr ''void''] 46,
     bpf_helper (Scalar ''__u32'') ''get_socket_uid'' [Ptr ''struct __sk_buff''] 47,
     bpf_helper (Scalar ''long'') ''set_hash'' [Ptr ''struct __sk_buff'', Scalar ''__u32''] 48,
     bpf_helper (Scalar ''long'') ''setsockopt'' [Ptr ''void'', Scalar ''int'', Scalar ''int'', Ptr ''void'', Scalar ''int''] 49,
     bpf_helper (Scalar ''long'') ''skb_adjust_room'' [Ptr ''struct __sk_buff'', Scalar ''__s32'', Scalar ''__u32'', Scalar ''__u64''] 50]"

definition helpers_51_54 :: "helper list" where
  "helpers_51_54 =
    [bpf_helper (Scalar ''long'') ''redirect_map'' [Ptr ''void'', Scalar ''__u64'', Scalar ''__u64''] 51,
     bpf_helper (Scalar ''long'') ''sk_redirect_map'' [Ptr ''struct __sk_buff'', Ptr ''void'', Scalar ''__u32'', Scalar ''__u64''] 52,
     bpf_helper (Scalar ''long'') ''sock_map_update'' [Ptr ''struct bpf_sock_ops'', Ptr ''void'', Ptr ''void'', Scalar ''__u64''] 53,
     bpf_helper (Scalar ''long'') ''xdp_adjust_meta'' [Ptr ''struct xdp_md'', Scalar ''int''] 54]"

definition helpers_55_58 :: "helper list" where
  "helpers_55_58 =
    [bpf_helper (Scalar ''long'') ''perf_event_read_value'' [Ptr ''void'', Scalar ''__u64'', Ptr ''struct bpf_perf_event_value'', Scalar ''__u32''] 55,
     bpf_helper (Scalar ''long'') ''perf_prog_read_value'' [Ptr ''struct bpf_perf_event_data'', Ptr ''struct bpf_perf_event_value'', Scalar ''__u32''] 56,
     bpf_helper (Scalar ''long'') ''getsockopt'' [Ptr ''void'', Scalar ''int'', Scalar ''int'', Ptr ''void'', Scalar ''int''] 57,
     bpf_helper (Scalar ''long'') ''override_return'' [Ptr ''struct pt_regs'', Scalar ''__u64''] 58]"

definition helpers_59_62 :: "helper list" where
  "helpers_59_62 =
    [bpf_helper (Scalar ''long'') ''sock_ops_cb_flags_set'' [Ptr ''struct bpf_sock_ops'', Scalar ''int''] 59,
     bpf_helper (Scalar ''long'') ''msg_redirect_map'' [Ptr ''struct sk_msg_md'', Ptr ''void'', Scalar ''__u32'', Scalar ''__u64''] 60,
     bpf_helper (Scalar ''long'') ''msg_apply_bytes'' [Ptr ''struct sk_msg_md'', Scalar ''__u32''] 61,
     bpf_helper (Scalar ''long'') ''msg_cork_bytes'' [Ptr ''struct sk_msg_md'', Scalar ''__u32''] 62]"

definition helpers_63_67 :: "helper list" where
  "helpers_63_67 =
    [bpf_helper (Scalar ''long'') ''msg_pull_data'' [Ptr ''struct sk_msg_md'', Scalar ''__u32'', Scalar ''__u32'', Scalar ''__u64''] 63,
     bpf_helper (Scalar ''long'') ''bind'' [Ptr ''struct bpf_sock_addr'', Ptr ''struct sockaddr'', Scalar ''int''] 64,
     bpf_helper (Scalar ''long'') ''xdp_adjust_tail'' [Ptr ''struct xdp_md'', Scalar ''int''] 65,
     bpf_helper (Scalar ''long'') ''skb_get_xfrm_state'' [Ptr ''struct __sk_buff'', Scalar ''__u32'', Ptr ''struct bpf_xfrm_state'', Scalar ''__u32'', Scalar ''__u64''] 66,
     bpf_helper (Scalar ''long'') ''get_stack'' [Ptr ''void'', Ptr ''void'', Scalar ''__u32'', Scalar ''__u64''] 67]"

definition helpers_68_72 :: "helper list" where
  "helpers_68_72 =
    [bpf_helper (Scalar ''long'') ''skb_load_bytes_relative'' [Const_ptr ''void'', Scalar ''__u32'', Ptr ''void'', Scalar ''__u32'', Scalar ''__u32''] 68,
     bpf_helper (Scalar ''long'') ''fib_lookup'' [Ptr ''void'', Ptr ''struct bpf_fib_lookup'', Scalar ''int'', Scalar ''__u32''] 69,
     bpf_helper (Scalar ''long'') ''sock_hash_update'' [Ptr ''struct bpf_sock_ops'', Ptr ''void'', Ptr ''void'', Scalar ''__u64''] 70,
     bpf_helper (Scalar ''long'') ''msg_redirect_hash'' [Ptr ''struct sk_msg_md'', Ptr ''void'', Ptr ''void'', Scalar ''__u64''] 71,
     bpf_helper (Scalar ''long'') ''sk_redirect_hash'' [Ptr ''struct __sk_buff'', Ptr ''void'', Ptr ''void'', Scalar ''__u64''] 72]"

definition helpers_73_77 :: "helper list" where
  "helpers_73_77 =
    [bpf_helper (Scalar ''long'') ''lwt_push_encap'' [Ptr ''struct __sk_buff'', Scalar ''__u32'', Ptr ''void'', Scalar ''__u32''] 73,
     bpf_helper (Scalar ''long'') ''lwt_seg6_store_bytes'' [Ptr ''struct __sk_buff'', Scalar ''__u32'', Const_ptr ''void'', Scalar ''__u32''] 74,
     bpf_helper (Scalar ''long'') ''lwt_seg6_adjust_srh'' [Ptr ''struct __sk_buff'', Scalar ''__u32'', Scalar ''__s32''] 75,
     bpf_helper (Scalar ''long'') ''lwt_seg6_action'' [Ptr ''struct __sk_buff'', Scalar ''__u32'', Ptr ''void'', Scalar ''__u32''] 76,
     bpf_helper (Scalar ''long'') ''rc_repeat'' [Ptr ''void''] 77]"

definition helpers_78_83 :: "helper list" where
  "helpers_78_83 =
    [bpf_helper (Scalar ''long'') ''rc_keydown'' [Ptr ''void'', Scalar ''__u32'', Scalar ''__u64'', Scalar ''__u32''] 78,
     bpf_helper (Scalar ''__u64'') ''skb_cgroup_id'' [Ptr ''struct __sk_buff''] 79,
     bpf_helper (Scalar ''__u64'') ''get_current_cgroup_id'' [] 80,
     bpf_helper (Ptr ''void'') ''get_local_storage'' [Ptr ''void'', Scalar ''__u64''] 81,
     bpf_helper (Scalar ''long'') ''sk_select_reuseport'' [Ptr ''struct sk_reuseport_md'', Ptr ''void'', Ptr ''void'', Scalar ''__u64''] 82,
     bpf_helper (Scalar ''__u64'') ''skb_ancestor_cgroup_id'' [Ptr ''struct __sk_buff'', Scalar ''int''] 83]"

definition helpers_84_90 :: "helper list" where
  "helpers_84_90 =
    [bpf_helper (Ptr ''struct bpf_sock'') ''sk_lookup_tcp'' [Ptr ''void'', Ptr ''struct bpf_sock_tuple'', Scalar ''__u32'', Scalar ''__u64'', Scalar ''__u64''] 84,
     bpf_helper (Ptr ''struct bpf_sock'') ''sk_lookup_udp'' [Ptr ''void'', Ptr ''struct bpf_sock_tuple'', Scalar ''__u32'', Scalar ''__u64'', Scalar ''__u64''] 85,
     bpf_helper (Scalar ''long'') ''sk_release'' [Ptr ''void''] 86,
     bpf_helper (Scalar ''long'') ''map_push_elem'' [Ptr ''void'', Const_ptr ''void'', Scalar ''__u64''] 87,
     bpf_helper (Scalar ''long'') ''map_pop_elem'' [Ptr ''void'', Ptr ''void''] 88,
     bpf_helper (Scalar ''long'') ''map_peek_elem'' [Ptr ''void'', Ptr ''void''] 89,
     bpf_helper (Scalar ''long'') ''msg_push_data'' [Ptr ''struct sk_msg_md'', Scalar ''__u32'', Scalar ''__u32'', Scalar ''__u64''] 90]"

definition helpers_91_98 :: "helper list" where
  "helpers_91_98 =
    [bpf_helper (Scalar ''long'') ''msg_pop_data'' [Ptr ''struct sk_msg_md'', Scalar ''__u32'', Scalar ''__u32'', Scalar ''__u64''] 91,
     bpf_helper (Scalar ''long'') ''rc_pointer_rel'' [Ptr ''void'', Scalar ''__s32'', Scalar ''__s32''] 92,
     bpf_helper (Scalar ''long'') ''spin_lock'' [Ptr ''struct bpf_spin_lock''] 93,
     bpf_helper (Scalar ''long'') ''spin_unlock'' [Ptr ''struct bpf_spin_lock''] 94,
     bpf_helper (Ptr ''struct bpf_sock'') ''sk_fullsock'' [Ptr ''struct bpf_sock''] 95,
     bpf_helper (Ptr ''struct bpf_tcp_sock'') ''tcp_sock'' [Ptr ''struct bpf_sock''] 96,
     bpf_helper (Scalar ''long'') ''skb_ecn_set_ce'' [Ptr ''struct __sk_buff''] 97,
     bpf_helper (Ptr ''struct bpf_sock'') ''get_listener_sock'' [Ptr ''struct bpf_sock''] 98]"

definition helpers_99_104 :: "helper list" where
  "helpers_99_104 =
    [bpf_helper (Ptr ''struct bpf_sock'') ''skc_lookup_tcp'' [Ptr ''void'', Ptr ''struct bpf_sock_tuple'', Scalar ''__u32'', Scalar ''__u64'', Scalar ''__u64''] 99,
     bpf_helper (Scalar ''long'') ''tcp_check_syncookie'' [Ptr ''void'', Ptr ''void'', Scalar ''__u32'', Ptr ''struct tcphdr'', Scalar ''__u32''] 100,
     bpf_helper (Scalar ''long'') ''sysctl_get_name'' [Ptr ''struct bpf_sysctl'', Ptr ''char'', Scalar ''unsigned long'', Scalar ''__u64''] 101,
     bpf_helper (Scalar ''long'') ''sysctl_get_current_value'' [Ptr ''struct bpf_sysctl'', Ptr ''char'', Scalar ''unsigned long''] 102,
     bpf_helper (Scalar ''long'') ''sysctl_get_new_value'' [Ptr ''struct bpf_sysctl'', Ptr ''char'', Scalar ''unsigned long''] 103,
     bpf_helper (Scalar ''long'') ''sysctl_set_new_value'' [Ptr ''struct bpf_sysctl'', Const_ptr ''char'', Scalar ''unsigned long''] 104]"

definition helpers_105_109 :: "helper list" where
  "helpers_105_109 =
    [bpf_helper (Scalar ''long'') ''strtol'' [Const_ptr ''char'', Scalar ''unsigned long'', Scalar ''__u64'', Ptr ''long''] 105,
     bpf_helper (Scalar ''long'') ''strtoul'' [Const_ptr ''char'', Scalar ''unsigned long'', Scalar ''__u64'', Ptr ''unsigned long''] 106,
     bpf_helper (Ptr ''void'') ''sk_storage_get'' [Ptr ''void'', Ptr ''void'', Ptr ''void'', Scalar ''__u64''] 107,
     bpf_helper (Scalar ''long'') ''sk_storage_delete'' [Ptr ''void'', Ptr ''void''] 108,
     bpf_helper (Scalar ''long'') ''send_signal'' [Scalar ''__u32''] 109]"

definition helpers_110_115 :: "helper list" where
  "helpers_110_115 =
    [bpf_helper (Scalar ''__s64'') ''tcp_gen_syncookie'' [Ptr ''void'', Ptr ''void'', Scalar ''__u32'', Ptr ''struct tcphdr'', Scalar ''__u32''] 110,
     bpf_helper (Scalar ''long'') ''skb_output'' [Ptr ''void'', Ptr ''void'', Scalar ''__u64'', Ptr ''void'', Scalar ''__u64''] 111,
     bpf_helper (Scalar ''long'') ''probe_read_user'' [Ptr ''void'', Scalar ''__u32'', Const_ptr ''void''] 112,
     bpf_helper (Scalar ''long'') ''probe_read_kernel'' [Ptr ''void'', Scalar ''__u32'', Const_ptr ''void''] 113,
     bpf_helper (Scalar ''long'') ''probe_read_user_str'' [Ptr ''void'', Scalar ''__u32'', Const_ptr ''void''] 114,
     bpf_helper (Scalar ''long'') ''probe_read_kernel_str'' [Ptr ''void'', Scalar ''__u32'', Const_ptr ''void''] 115]"

definition helpers_116_123 :: "helper list" where
  "helpers_116_123 =
    [bpf_helper (Scalar ''long'') ''tcp_send_ack'' [Ptr ''void'', Scalar ''__u32''] 116,
     bpf_helper (Scalar ''long'') ''send_signal_thread'' [Scalar ''__u32''] 117,
     bpf_helper (Scalar ''__u64'') ''jiffies64'' [] 118,
     bpf_helper (Scalar ''long'') ''read_branch_records'' [Ptr ''struct bpf_perf_event_data'', Ptr ''void'', Scalar ''__u32'', Scalar ''__u64''] 119,
     bpf_helper (Scalar ''long'') ''get_ns_current_pid_tgid'' [Scalar ''__u64'', Scalar ''__u64'', Ptr ''struct bpf_pidns_info'', Scalar ''__u32''] 120,
     bpf_helper (Scalar ''long'') ''xdp_output'' [Ptr ''void'', Ptr ''void'', Scalar ''__u64'', Ptr ''void'', Scalar ''__u64''] 121,
     bpf_helper (Scalar ''__u64'') ''get_netns_cookie'' [Ptr ''void''] 122,
     bpf_helper (Scalar ''__u64'') ''get_current_ancestor_cgroup_id'' [Scalar ''int''] 123]"

definition helpers_124_129 :: "helper list" where
  "helpers_124_129 =
    [bpf_helper (Scalar ''long'') ''sk_assign'' [Ptr ''void'', Ptr ''void'', Scalar ''__u64''] 124,
     bpf_helper (Scalar ''__u64'') ''ktime_get_boot_ns'' [] 125,
     bpf_helper (Scalar ''long'') ''seq_printf'' [Ptr ''struct seq_file'', Const_ptr ''char'', Scalar ''__u32'', Const_ptr ''void'', Scalar ''__u32''] 126,
     bpf_helper (Scalar ''long'') ''seq_write'' [Ptr ''struct seq_file'', Const_ptr ''void'', Scalar ''__u32''] 127,
     bpf_helper (Scalar ''__u64'') ''sk_cgroup_id'' [Ptr ''void''] 128,
     bpf_helper (Scalar ''__u64'') ''sk_ancestor_cgroup_id'' [Ptr ''void'', Scalar ''int''] 129]"

definition helpers_130_137 :: "helper list" where
  "helpers_130_137 =
    [bpf_helper (Scalar ''long'') ''ringbuf_output'' [Ptr ''void'', Ptr ''void'', Scalar ''__u64'', Scalar ''__u64''] 130,
     bpf_helper (Ptr ''void'') ''ringbuf_reserve'' [Ptr ''void'', Scalar ''__u64'', Scalar ''__u64''] 131,
     bpf_helper (Void) ''ringbuf_submit'' [Ptr ''void'', Scalar ''__u64''] 132,
     bpf_helper (Void) ''ringbuf_discard'' [Ptr ''void'', Scalar ''__u64''] 133,
     bpf_helper (Scalar ''__u64'') ''ringbuf_query'' [Ptr ''void'', Scalar ''__u64''] 134,
     bpf_helper (Scalar ''long'') ''csum_level'' [Ptr ''struct __sk_buff'', Scalar ''__u64''] 135,
     bpf_helper (Ptr ''struct tcp6_sock'') ''skc_to_tcp6_sock'' [Ptr ''void''] 136,
     bpf_helper (Ptr ''struct tcp_sock'') ''skc_to_tcp_sock'' [Ptr ''void''] 137]"

definition helpers_138_142 :: "helper list" where
  "helpers_138_142 =
    [bpf_helper (Ptr ''struct tcp_timewait_sock'') ''skc_to_tcp_timewait_sock'' [Ptr ''void''] 138,
     bpf_helper (Ptr ''struct tcp_request_sock'') ''skc_to_tcp_request_sock'' [Ptr ''void''] 139,
     bpf_helper (Ptr ''struct udp6_sock'') ''skc_to_udp6_sock'' [Ptr ''void''] 140,
     bpf_helper (Scalar ''long'') ''get_task_stack'' [Ptr ''struct task_struct'', Ptr ''void'', Scalar ''__u32'', Scalar ''__u64''] 141,
     bpf_helper (Scalar ''long'') ''load_hdr_opt'' [Ptr ''struct bpf_sock_ops'', Ptr ''void'', Scalar ''__u32'', Scalar ''__u64''] 142]"

definition helpers_143_148 :: "helper list" where
  "helpers_143_148 =
    [bpf_helper (Scalar ''long'') ''store_hdr_opt'' [Ptr ''struct bpf_sock_ops'', Const_ptr ''void'', Scalar ''__u32'', Scalar ''__u64''] 143,
     bpf_helper (Scalar ''long'') ''reserve_hdr_opt'' [Ptr ''struct bpf_sock_ops'', Scalar ''__u32'', Scalar ''__u64''] 144,
     bpf_helper (Ptr ''void'') ''inode_storage_get'' [Ptr ''void'', Ptr ''void'', Ptr ''void'', Scalar ''__u64''] 145,
     bpf_helper (Scalar ''int'') ''inode_storage_delete'' [Ptr ''void'', Ptr ''void''] 146,
     bpf_helper (Scalar ''long'') ''d_path'' [Ptr ''struct path'', Ptr ''char'', Scalar ''__u32''] 147,
     bpf_helper (Scalar ''long'') ''copy_from_user'' [Ptr ''void'', Scalar ''__u32'', Const_ptr ''void''] 148]"

definition helpers_149_155 :: "helper list" where
  "helpers_149_155 =
    [bpf_helper (Scalar ''long'') ''snprintf_btf'' [Ptr ''char'', Scalar ''__u32'', Ptr ''struct btf_ptr'', Scalar ''__u32'', Scalar ''__u64''] 149,
     bpf_helper (Scalar ''long'') ''seq_printf_btf'' [Ptr ''struct seq_file'', Ptr ''struct btf_ptr'', Scalar ''__u32'', Scalar ''__u64''] 150,
     bpf_helper (Scalar ''__u64'') ''skb_cgroup_classid'' [Ptr ''struct __sk_buff''] 151,
     bpf_helper (Scalar ''long'') ''redirect_neigh'' [Scalar ''__u32'', Ptr ''struct bpf_redir_neigh'', Scalar ''int'', Scalar ''__u64''] 152,
     bpf_helper (Ptr ''void'') ''per_cpu_ptr'' [Const_ptr ''void'', Scalar ''__u32''] 153,
     bpf_helper (Ptr ''void'') ''this_cpu_ptr'' [Const_ptr ''void''] 154,
     bpf_helper (Scalar ''long'') ''redirect_peer'' [Scalar ''__u32'', Scalar ''__u64''] 155]"

definition helpers_156_162 :: "helper list" where
  "helpers_156_162 =
    [bpf_helper (Ptr ''void'') ''task_storage_get'' [Ptr ''void'', Ptr ''struct task_struct'', Ptr ''void'', Scalar ''__u64''] 156,
     bpf_helper (Scalar ''long'') ''task_storage_delete'' [Ptr ''void'', Ptr ''struct task_struct''] 157,
     bpf_helper (Ptr ''struct task_struct'') ''get_current_task_btf'' [] 158,
     bpf_helper (Scalar ''long'') ''bprm_opts_set'' [Ptr ''struct linux_binprm'', Scalar ''__u64''] 159,
     bpf_helper (Scalar ''__u64'') ''ktime_get_coarse_ns'' [] 160,
     bpf_helper (Scalar ''long'') ''ima_inode_hash'' [Ptr ''struct inode'', Ptr ''void'', Scalar ''__u32''] 161,
     bpf_helper (Ptr ''struct socket'') ''sock_from_file'' [Ptr ''struct file''] 162]"

definition helpers_163_166 :: "helper list" where
  "helpers_163_166 =
    [bpf_helper (Scalar ''long'') ''check_mtu'' [Ptr ''void'', Scalar ''__u32'', Ptr ''__u32'', Scalar ''__s32'', Scalar ''__u64''] 163,
     bpf_helper (Scalar ''long'') ''for_each_map_elem'' [Ptr ''void'', Ptr ''void'', Ptr ''void'', Scalar ''__u64''] 164,
     bpf_helper (Scalar ''long'') ''snprintf'' [Ptr ''char'', Scalar ''__u32'', Const_ptr ''char'', Ptr ''__u64'', Scalar ''__u32''] 165,
     bpf_helper (Scalar ''long'') ''sys_bpf'' [Scalar ''__u32'', Ptr ''void'', Scalar ''__u32''] 166]"

definition helpers_167_174 :: "helper list" where
  "helpers_167_174 =
    [bpf_helper (Scalar ''long'') ''btf_find_by_name_kind'' [Ptr ''char'', Scalar ''int'', Scalar ''__u32'', Scalar ''int''] 167,
     bpf_helper (Scalar ''long'') ''sys_close'' [Scalar ''__u32''] 168,
     bpf_helper (Scalar ''long'') ''timer_init'' [Ptr ''struct bpf_timer'', Ptr ''void'', Scalar ''__u64''] 169,
     bpf_helper (Scalar ''long'') ''timer_set_callback'' [Ptr ''struct bpf_timer'', Ptr ''void''] 170,
     bpf_helper (Scalar ''long'') ''timer_start'' [Ptr ''struct bpf_timer'', Scalar ''__u64'', Scalar ''__u64''] 171,
     bpf_helper (Scalar ''long'') ''timer_cancel'' [Ptr ''struct bpf_timer''] 172,
     bpf_helper (Scalar ''__u64'') ''get_func_ip'' [Ptr ''void''] 173,
     bpf_helper (Scalar ''__u64'') ''get_attach_cookie'' [Ptr ''void''] 174]"

definition helpers_175_175 :: "helper list" where
  "helpers_175_175 =
    [bpf_helper (Scalar ''long'') ''task_pt_regs'' [Ptr ''struct task_struct''] 175]"

definition helpers_176_183 :: "helper list" where
  "helpers_176_183 =
    [bpf_helper (Scalar ''long'') ''get_branch_snapshot'' [Ptr ''void'', Scalar ''__u32'', Scalar ''__u64''] 176,
     bpf_helper (Scalar ''long'') ''trace_vprintk'' [Const_ptr ''char'', Scalar ''__u32'', Const_ptr ''void'', Scalar ''__u32''] 177,
     bpf_helper (Ptr ''struct unix_sock'') ''skc_to_unix_sock'' [Ptr ''void''] 178,
     bpf_helper (Scalar ''long'') ''kallsyms_lookup_name'' [Const_ptr ''char'', Scalar ''int'', Scalar ''int'', Ptr ''__u64''] 179,
     bpf_helper (Scalar ''long'') ''find_vma'' [Ptr ''struct task_struct'', Scalar ''__u64'', Ptr ''void'', Ptr ''void'', Scalar ''__u64''] 180,
     bpf_helper (Scalar ''long'') ''loop'' [Scalar ''__u32'', Ptr ''void'', Ptr ''void'', Scalar ''__u64''] 181,
     bpf_helper (Scalar ''long'') ''strncmp'' [Const_ptr ''char'', Scalar ''__u32'', Const_ptr ''char''] 182,
     bpf_helper (Scalar ''long'') ''get_func_arg'' [Ptr ''void'', Scalar ''__u32'', Ptr ''__u64''] 183]"

definition helpers_184_192 :: "helper list" where
  "helpers_184_192 =
    [bpf_helper (Scalar ''long'') ''get_func_ret'' [Ptr ''void'', Ptr ''__u64''] 184,
     bpf_helper (Scalar ''long'') ''get_func_arg_cnt'' [Ptr ''void''] 185,
     bpf_helper (Scalar ''int'') ''get_retval'' [] 186,
     bpf_helper (Scalar ''int'') ''set_retval'' [Scalar ''int''] 187,
     bpf_helper (Scalar ''__u64'') ''xdp_get_buff_len'' [Ptr ''struct xdp_md''] 188,
     bpf_helper (Scalar ''long'') ''xdp_load_bytes'' [Ptr ''struct xdp_md'', Scalar ''__u32'', Ptr ''void'', Scalar ''__u32''] 189,
     bpf_helper (Scalar ''long'') ''xdp_store_bytes'' [Ptr ''struct xdp_md'', Scalar ''__u32'', Ptr ''void'', Scalar ''__u32''] 190,
     bpf_helper (Scalar ''long'') ''copy_from_user_task'' [Ptr ''void'', Scalar ''__u32'', Const_ptr ''void'', Ptr ''struct task_struct'', Scalar ''__u64''] 191,
     bpf_helper (Scalar ''long'') ''skb_set_tstamp'' [Ptr ''struct __sk_buff'', Scalar ''__u64'', Scalar ''__u32''] 192]"

definition helpers_193_202 :: "helper list" where
  "helpers_193_202 =
    [bpf_helper (Scalar ''long'') ''ima_file_hash'' [Ptr ''struct file'', Ptr ''void'', Scalar ''__u32''] 193,
     bpf_helper (Ptr ''void'') ''kptr_xchg'' [Ptr ''void'', Ptr ''void''] 194,
     bpf_helper (Ptr ''void'') ''map_lookup_percpu_elem'' [Ptr ''void'', Const_ptr ''void'', Scalar ''__u32''] 195,
     bpf_helper (Ptr ''struct mptcp_sock'') ''skc_to_mptcp_sock'' [Ptr ''void''] 196,
     bpf_helper (Scalar ''long'') ''dynptr_from_mem'' [Ptr ''void'', Scalar ''__u32'', Scalar ''__u64'', Ptr ''struct bpf_dynptr''] 197,
     bpf_helper (Scalar ''long'') ''ringbuf_reserve_dynptr'' [Ptr ''void'', Scalar ''__u32'', Scalar ''__u64'', Ptr ''struct bpf_dynptr''] 198,
     bpf_helper (Void) ''ringbuf_submit_dynptr'' [Ptr ''struct bpf_dynptr'', Scalar ''__u64''] 199,
     bpf_helper (Void) ''ringbuf_discard_dynptr'' [Ptr ''struct bpf_dynptr'', Scalar ''__u64''] 200,
     bpf_helper (Scalar ''long'') ''dynptr_read'' [Ptr ''void'', Scalar ''__u32'', Const_ptr ''struct bpf_dynptr'', Scalar ''__u32'', Scalar ''__u64''] 201,
     bpf_helper (Scalar ''long'') ''dynptr_write'' [Const_ptr ''struct bpf_dynptr'', Scalar ''__u32'', Ptr ''void'', Scalar ''__u32'', Scalar ''__u64''] 202]"

definition helpers_203_208 :: "helper list" where
  "helpers_203_208 =
    [bpf_helper (Ptr ''void'') ''dynptr_data'' [Const_ptr ''struct bpf_dynptr'', Scalar ''__u32'', Scalar ''__u32''] 203,
     bpf_helper (Scalar ''__s64'') ''tcp_raw_gen_syncookie_ipv4'' [Ptr ''struct iphdr'', Ptr ''struct tcphdr'', Scalar ''__u32''] 204,
     bpf_helper (Scalar ''__s64'') ''tcp_raw_gen_syncookie_ipv6'' [Ptr ''struct ipv6hdr'', Ptr ''struct tcphdr'', Scalar ''__u32''] 205,
     bpf_helper (Scalar ''long'') ''tcp_raw_check_syncookie_ipv4'' [Ptr ''struct iphdr'', Ptr ''struct tcphdr''] 206,
     bpf_helper (Scalar ''long'') ''tcp_raw_check_syncookie_ipv6'' [Ptr ''struct ipv6hdr'', Ptr ''struct tcphdr''] 207,
     bpf_helper (Scalar ''__u64'') ''ktime_get_tai_ns'' [] 208]"

definition helpers_209_211 :: "helper list" where
  "helpers_209_211 =
    [bpf_helper (Scalar ''long'') ''user_ringbuf_drain'' [Ptr ''void'', Ptr ''void'', Ptr ''void'', Scalar ''__u64''] 209,
     bpf_helper (Ptr ''void'') ''cgrp_storage_get'' [Ptr ''void'', Ptr ''struct cgroup'', Ptr ''void'', Scalar ''__u64''] 210,
     bpf_helper (Scalar ''long'') ''cgrp_storage_delete'' [Ptr ''void'', Ptr ''struct cgroup''] 211]"

text \<open>The helpers that the vmlinux headers know, and the later ones.\<close>

definition helpers_vmlinux :: "helper list" where
  "helpers_vmlinux = helpers_1_7 @ helpers_8_12 @ helpers_13_19 @ helpers_20_22 @ helpers_23_26
    @ helpers_27_31 @ helpers_32_38 @ helpers_39_45 @ helpers_46_50 @ helpers_51_54 @
    helpers_55_58 @ helpers_59_62 @ helpers_63_67 @ helpers_68_72 @ helpers_73_77 @
    helpers_78_83 @ helpers_84_90 @ helpers_91_98 @ helpers_99_104 @ helpers_105_109 @
    helpers_110_115 @ helpers_116_123 @ helpers_124_129 @ helpers_130_137 @ helpers_138_142 @
    helpers_143_148 @ helpers_149_155 @ helpers_156_162 @ helpers_163_166 @ helpers_167_174 @
    helpers_175_175"

definition helpers_later :: "helper list" where
  "helpers_later = helpers_176_183 @ helpers_184_192 @ helpers_193_202 @ helpers_203_208 @
    helpers_209_211"

definition bpf_helpers :: "helper list" where
  "bpf_helpers = helpers_vmlinux @ helpers_later"

lemmas helper_chunks = helpers_1_7_def helpers_8_12_def helpers_13_19_def helpers_20_22_def
    helpers_23_26_def helpers_27_31_def helpers_32_38_def helpers_39_45_def helpers_46_50_def
    helpers_51_54_def helpers_55_58_def helpers_59_62_def helpers_63_67_def helpers_68_72_def
    helpers_73_77_def helpers_78_83_def helpers_84_90_def helpers_91_98_def helpers_99_104_def
    helpers_105_109_def helpers_110_115_def helpers_116_123_def helpers_124_129_def
    helpers_130_137_def helpers_138_142_def helpers_143_148_def helpers_149_155_def
    helpers_156_162_def helpers_163_166_def helpers_167_174_def helpers_175_175_def
    helpers_176_183_def helpers_184_192_def helpers_193_202_def helpers_203_208_def
    helpers_209_211_def

section \<open>The function numbers of the kernel headers\<close>

definition bpf_func_id_x86_0 :: "(string \<times> nat) list" where
  "bpf_func_id_x86_0 = [(''unspec'', 0), (''map_lookup_elem'', 1), (''map_update_elem'', 2),
    (''map_delete_elem'', 3), (''probe_read'', 4), (''ktime_get_ns'', 5), (''trace_printk'', 6),
    (''get_prandom_u32'', 7), (''get_smp_processor_id'', 8), (''skb_store_bytes'', 9),
    (''l3_csum_replace'', 10), (''l4_csum_replace'', 11), (''tail_call'', 12),
    (''clone_redirect'', 13), (''get_current_pid_tgid'', 14), (''get_current_uid_gid'', 15),
    (''get_current_comm'', 16), (''get_cgroup_classid'', 17), (''skb_vlan_push'', 18),
    (''skb_vlan_pop'', 19), (''skb_get_tunnel_key'', 20), (''skb_set_tunnel_key'', 21),
    (''perf_event_read'', 22), (''redirect'', 23), (''get_route_realm'', 24),
    (''perf_event_output'', 25), (''skb_load_bytes'', 26), (''get_stackid'', 27),
    (''csum_diff'', 28), (''skb_get_tunnel_opt'', 29), (''skb_set_tunnel_opt'', 30),
    (''skb_change_proto'', 31), (''skb_change_type'', 32), (''skb_under_cgroup'', 33),
    (''get_hash_recalc'', 34), (''get_current_task'', 35), (''probe_write_user'', 36),
    (''current_task_under_cgroup'', 37), (''skb_change_tail'', 38), (''skb_pull_data'', 39),
    (''csum_update'', 40), (''set_hash_invalid'', 41), (''get_numa_node_id'', 42),
    (''skb_change_head'', 43), (''xdp_adjust_head'', 44), (''probe_read_str'', 45),
    (''get_socket_cookie'', 46), (''get_socket_uid'', 47), (''set_hash'', 48), (''setsockopt'',
    49), (''skb_adjust_room'', 50), (''redirect_map'', 51), (''sk_redirect_map'', 52),
    (''sock_map_update'', 53), (''xdp_adjust_meta'', 54), (''perf_event_read_value'', 55),
    (''perf_prog_read_value'', 56), (''getsockopt'', 57), (''override_return'', 58),
    (''sock_ops_cb_flags_set'', 59), (''msg_redirect_map'', 60), (''msg_apply_bytes'', 61),
    (''msg_cork_bytes'', 62), (''msg_pull_data'', 63), (''bind'', 64), (''xdp_adjust_tail'',
    65), (''skb_get_xfrm_state'', 66), (''get_stack'', 67), (''skb_load_bytes_relative'', 68),
    (''fib_lookup'', 69), (''sock_hash_update'', 70), (''msg_redirect_hash'', 71),
    (''sk_redirect_hash'', 72), (''lwt_push_encap'', 73), (''lwt_seg6_store_bytes'', 74),
    (''lwt_seg6_adjust_srh'', 75), (''lwt_seg6_action'', 76), (''rc_repeat'', 77),
    (''rc_keydown'', 78), (''skb_cgroup_id'', 79), (''get_current_cgroup_id'', 80),
    (''get_local_storage'', 81), (''sk_select_reuseport'', 82), (''skb_ancestor_cgroup_id'',
    83), (''sk_lookup_tcp'', 84), (''sk_lookup_udp'', 85), (''sk_release'', 86),
    (''map_push_elem'', 87), (''map_pop_elem'', 88), (''map_peek_elem'', 89),
    (''msg_push_data'', 90), (''msg_pop_data'', 91), (''rc_pointer_rel'', 92), (''spin_lock'',
    93), (''spin_unlock'', 94), (''sk_fullsock'', 95), (''tcp_sock'', 96), (''skb_ecn_set_ce'',
    97), (''get_listener_sock'', 98), (''skc_lookup_tcp'', 99)]"

definition bpf_func_id_x86_100 :: "(string \<times> nat) list" where
  "bpf_func_id_x86_100 = [(''tcp_check_syncookie'', 100), (''sysctl_get_name'', 101),
    (''sysctl_get_current_value'', 102), (''sysctl_get_new_value'', 103),
    (''sysctl_set_new_value'', 104), (''strtol'', 105), (''strtoul'', 106), (''sk_storage_get'',
    107), (''sk_storage_delete'', 108), (''send_signal'', 109), (''tcp_gen_syncookie'', 110),
    (''skb_output'', 111), (''probe_read_user'', 112), (''probe_read_kernel'', 113),
    (''probe_read_user_str'', 114), (''probe_read_kernel_str'', 115), (''tcp_send_ack'', 116),
    (''send_signal_thread'', 117), (''jiffies64'', 118), (''read_branch_records'', 119),
    (''get_ns_current_pid_tgid'', 120), (''xdp_output'', 121), (''get_netns_cookie'', 122),
    (''get_current_ancestor_cgroup_id'', 123), (''sk_assign'', 124), (''ktime_get_boot_ns'',
    125), (''seq_printf'', 126), (''seq_write'', 127), (''sk_cgroup_id'', 128),
    (''sk_ancestor_cgroup_id'', 129), (''ringbuf_output'', 130), (''ringbuf_reserve'', 131),
    (''ringbuf_submit'', 132), (''ringbuf_discard'', 133), (''ringbuf_query'', 134),
    (''csum_level'', 135), (''skc_to_tcp6_sock'', 136), (''skc_to_tcp_sock'', 137),
    (''skc_to_tcp_timewait_sock'', 138), (''skc_to_tcp_request_sock'', 139),
    (''skc_to_udp6_sock'', 140), (''get_task_stack'', 141), (''load_hdr_opt'', 142),
    (''store_hdr_opt'', 143), (''reserve_hdr_opt'', 144), (''inode_storage_get'', 145),
    (''inode_storage_delete'', 146), (''d_path'', 147), (''copy_from_user'', 148),
    (''snprintf_btf'', 149), (''seq_printf_btf'', 150), (''skb_cgroup_classid'', 151),
    (''redirect_neigh'', 152), (''per_cpu_ptr'', 153), (''this_cpu_ptr'', 154),
    (''redirect_peer'', 155), (''task_storage_get'', 156), (''task_storage_delete'', 157),
    (''get_current_task_btf'', 158), (''bprm_opts_set'', 159), (''ktime_get_coarse_ns'', 160),
    (''ima_inode_hash'', 161), (''sock_from_file'', 162), (''check_mtu'', 163),
    (''for_each_map_elem'', 164), (''snprintf'', 165), (''sys_bpf'', 166),
    (''btf_find_by_name_kind'', 167), (''sys_close'', 168), (''timer_init'', 169),
    (''timer_set_callback'', 170), (''timer_start'', 171), (''timer_cancel'', 172),
    (''get_func_ip'', 173), (''get_attach_cookie'', 174), (''task_pt_regs'', 175), (''MAX_ID'',
    176)]"

definition bpf_func_id_x86 :: "(string \<times> nat) list" where
  "bpf_func_id_x86 = bpf_func_id_x86_0 @ bpf_func_id_x86_100"

definition bpf_func_id_arm_0 :: "(string \<times> nat) list" where
  "bpf_func_id_arm_0 = [(''unspec'', 0), (''map_lookup_elem'', 1), (''map_update_elem'', 2),
    (''map_delete_elem'', 3), (''probe_read'', 4), (''ktime_get_ns'', 5), (''trace_printk'', 6),
    (''get_prandom_u32'', 7), (''get_smp_processor_id'', 8), (''skb_store_bytes'', 9),
    (''l3_csum_replace'', 10), (''l4_csum_replace'', 11), (''tail_call'', 12),
    (''clone_redirect'', 13), (''get_current_pid_tgid'', 14), (''get_current_uid_gid'', 15),
    (''get_current_comm'', 16), (''get_cgroup_classid'', 17), (''skb_vlan_push'', 18),
    (''skb_vlan_pop'', 19), (''skb_get_tunnel_key'', 20), (''skb_set_tunnel_key'', 21),
    (''perf_event_read'', 22), (''redirect'', 23), (''get_route_realm'', 24),
    (''perf_event_output'', 25), (''skb_load_bytes'', 26), (''get_stackid'', 27),
    (''csum_diff'', 28), (''skb_get_tunnel_opt'', 29), (''skb_set_tunnel_opt'', 30),
    (''skb_change_proto'', 31), (''skb_change_type'', 32), (''skb_under_cgroup'', 33),
    (''get_hash_recalc'', 34), (''get_current_task'', 35), (''probe_write_user'', 36),
    (''current_task_under_cgroup'', 37), (''skb_change_tail'', 38), (''skb_pull_data'', 39),
    (''csum_update'', 40), (''set_hash_invalid'', 41), (''get_numa_node_id'', 42),
    (''skb_change_head'', 43), (''xdp_adjust_head'', 44), (''probe_read_str'', 45),
    (''get_socket_cookie'', 46), (''get_socket_uid'', 47), (''set_hash'', 48), (''setsockopt'',
    49), (''skb_adjust_room'', 50), (''redirect_map'', 51), (''sk_redirect_map'', 52),
    (''sock_map_update'', 53), (''xdp_adjust_meta'', 54), (''perf_event_read_value'', 55),
    (''perf_prog_read_value'', 56), (''getsockopt'', 57), (''override_return'', 58),
    (''sock_ops_cb_flags_set'', 59), (''msg_redirect_map'', 60), (''msg_apply_bytes'', 61),
    (''msg_cork_bytes'', 62), (''msg_pull_data'', 63), (''bind'', 64), (''xdp_adjust_tail'',
    65), (''skb_get_xfrm_state'', 66), (''get_stack'', 67), (''skb_load_bytes_relative'', 68),
    (''fib_lookup'', 69), (''sock_hash_update'', 70), (''msg_redirect_hash'', 71),
    (''sk_redirect_hash'', 72), (''lwt_push_encap'', 73), (''lwt_seg6_store_bytes'', 74),
    (''lwt_seg6_adjust_srh'', 75), (''lwt_seg6_action'', 76), (''rc_repeat'', 77),
    (''rc_keydown'', 78), (''skb_cgroup_id'', 79), (''get_current_cgroup_id'', 80),
    (''get_local_storage'', 81), (''sk_select_reuseport'', 82), (''skb_ancestor_cgroup_id'',
    83), (''sk_lookup_tcp'', 84), (''sk_lookup_udp'', 85), (''sk_release'', 86),
    (''map_push_elem'', 87), (''map_pop_elem'', 88), (''map_peek_elem'', 89),
    (''msg_push_data'', 90), (''msg_pop_data'', 91), (''rc_pointer_rel'', 92), (''spin_lock'',
    93), (''spin_unlock'', 94), (''sk_fullsock'', 95), (''tcp_sock'', 96), (''skb_ecn_set_ce'',
    97), (''get_listener_sock'', 98), (''skc_lookup_tcp'', 99)]"

definition bpf_func_id_arm_100 :: "(string \<times> nat) list" where
  "bpf_func_id_arm_100 = [(''tcp_check_syncookie'', 100), (''sysctl_get_name'', 101),
    (''sysctl_get_current_value'', 102), (''sysctl_get_new_value'', 103),
    (''sysctl_set_new_value'', 104), (''strtol'', 105), (''strtoul'', 106), (''sk_storage_get'',
    107), (''sk_storage_delete'', 108), (''send_signal'', 109), (''tcp_gen_syncookie'', 110),
    (''skb_output'', 111), (''probe_read_user'', 112), (''probe_read_kernel'', 113),
    (''probe_read_user_str'', 114), (''probe_read_kernel_str'', 115), (''tcp_send_ack'', 116),
    (''send_signal_thread'', 117), (''jiffies64'', 118), (''read_branch_records'', 119),
    (''get_ns_current_pid_tgid'', 120), (''xdp_output'', 121), (''get_netns_cookie'', 122),
    (''get_current_ancestor_cgroup_id'', 123), (''sk_assign'', 124), (''ktime_get_boot_ns'',
    125), (''seq_printf'', 126), (''seq_write'', 127), (''sk_cgroup_id'', 128),
    (''sk_ancestor_cgroup_id'', 129), (''ringbuf_output'', 130), (''ringbuf_reserve'', 131),
    (''ringbuf_submit'', 132), (''ringbuf_discard'', 133), (''ringbuf_query'', 134),
    (''csum_level'', 135), (''skc_to_tcp6_sock'', 136), (''skc_to_tcp_sock'', 137),
    (''skc_to_tcp_timewait_sock'', 138), (''skc_to_tcp_request_sock'', 139),
    (''skc_to_udp6_sock'', 140), (''get_task_stack'', 141), (''load_hdr_opt'', 142),
    (''store_hdr_opt'', 143), (''reserve_hdr_opt'', 144), (''inode_storage_get'', 145),
    (''inode_storage_delete'', 146), (''d_path'', 147), (''copy_from_user'', 148),
    (''snprintf_btf'', 149), (''seq_printf_btf'', 150), (''skb_cgroup_classid'', 151),
    (''redirect_neigh'', 152), (''per_cpu_ptr'', 153), (''this_cpu_ptr'', 154),
    (''redirect_peer'', 155), (''task_storage_get'', 156), (''task_storage_delete'', 157),
    (''get_current_task_btf'', 158), (''bprm_opts_set'', 159), (''ktime_get_coarse_ns'', 160),
    (''ima_inode_hash'', 161), (''sock_from_file'', 162), (''check_mtu'', 163),
    (''for_each_map_elem'', 164), (''snprintf'', 165), (''sys_bpf'', 166),
    (''btf_find_by_name_kind'', 167), (''sys_close'', 168), (''timer_init'', 169),
    (''timer_set_callback'', 170), (''timer_start'', 171), (''timer_cancel'', 172),
    (''get_func_ip'', 173), (''get_attach_cookie'', 174), (''task_pt_regs'', 175), (''MAX_ID'',
    176)]"

definition bpf_func_id_arm :: "(string \<times> nat) list" where
  "bpf_func_id_arm = bpf_func_id_arm_0 @ bpf_func_id_arm_100"

lemmas func_id_defs = bpf_func_id_x86_0_def bpf_func_id_x86_100_def bpf_func_id_arm_0_def bpf_func_id_arm_100_def
    bpf_func_id_x86_def bpf_func_id_arm_def

section \<open>Agreement\<close>

lemma helper_ids: "map h_id bpf_helpers = [1..<212]"
proof -
  have "[Suc 0..<212] = Suc 0 # [2..<212]" by (simp add: upt_conv_Cons numeral_2_eq_2)
  then show ?thesis
    by (simp add: bpf_helpers_def helpers_vmlinux_def helpers_later_def helper_chunks upt_rec_numeral)
qed

lemma helpers_agree:
  "bpf_func_id_x86 = (''unspec'', 0) # map (\<lambda>h. (h_name h, h_id h)) helpers_vmlinux @ [(''MAX_ID'', 176)]"
  by (simp add: func_id_defs helpers_vmlinux_def helper_chunks)

lemma arches_agree: "bpf_func_id_arm = bpf_func_id_x86"
  by (simp add: func_id_defs)

text \<open>The calling convention passes at most five arguments.\<close>

lemma helper_arity: "list_all (\<lambda>h. length (h_args h) \<le> 5) bpf_helpers"
  by (simp add: bpf_helpers_def helpers_vmlinux_def helpers_later_def helper_chunks)

end
