(* ===== verification/Kernel_Types.thy ===== *)
theory Kernel_Types
  imports Started_Runs Core_Read
begin

text \<open>
  Kernel types of \<open>src/vmlinux/x86.h\<close> and \<open>arm.h\<close>, one of which the object is built with: the frame
  that holds the registers of a probed function, laid out by natural alignment, and the accessors
  of \<open>bpf_tracing.h\<close> on it, directly and through \<open>BPF_CORE_READ\<close>.
\<close>

section \<open>The saved registers\<close>

definition x86_pt_regs :: struct_decl where
  "x86_pt_regs = [(''r15'', U64), (''r14'', U64), (''r13'', U64), (''r12'', U64), (''bp'', U64), (''bx'', U64),
     (''r11'', U64), (''r10'', U64), (''r9'', U64), (''r8'', U64), (''ax'', U64), (''cx'', U64), (''dx'', U64),
     (''si'', U64), (''di'', U64), (''orig_ax'', U64), (''ip'', U64), (''cs'', U64), (''flags'', U64),
     (''sp'', U64), (''ss'', U64)]"

text \<open>The elements of an array field \<open>regs[31]\<close> are fields of their own.\<close>

definition arm64_user_pt_regs :: struct_decl where
  "arm64_user_pt_regs = map (\<lambda>name. (name, U64))
     ([''regs[0]'', ''regs[1]'', ''regs[2]'', ''regs[3]'', ''regs[4]'', ''regs[5]'', ''regs[6]'', ''regs[7]'',
       ''regs[8]'', ''regs[9]'', ''regs[10]'', ''regs[11]'', ''regs[12]'', ''regs[13]'', ''regs[14]'', ''regs[15]'',
       ''regs[16]'', ''regs[17]'', ''regs[18]'', ''regs[19]'', ''regs[20]'', ''regs[21]'', ''regs[22]'',
       ''regs[23]'', ''regs[24]'', ''regs[25]'', ''regs[26]'', ''regs[27]'', ''regs[28]'', ''regs[29]'',
       ''regs[30]''] @ [''sp'', ''pc'', ''pstate''])"

text \<open>The user registers come first in the kernel's frame, the argument register of a system call after them.\<close>

definition arm64_pt_regs :: struct_decl where
  "arm64_pt_regs = arm64_user_pt_regs @ [(''orig_x0'', U64), (''syscallno'', U32), (''unused2'', U32),
     (''sdei_ttbr1'', U64), (''pmr_save'', U64), (''stackframe[0]'', U64), (''stackframe[1]'', U64),
     (''lockdep_hardirqs'', U64), (''exit_rcu'', U64)]"

definition field_at :: "struct_decl \<Rightarrow> string \<Rightarrow> (nat \<times> nat) option" where
  "field_at fs name = map_of (zip (map fst fs) (place fs)) name"

text \<open>\<open>vmlinux.h\<close> includes the header of the target, and has none for the others.\<close>

fun saved_frame :: "target \<Rightarrow> struct_decl option" where
  "saved_frame T_x86 = Some x86_pt_regs"
| "saved_frame T_arm64 = Some arm64_pt_regs"
| "saved_frame _ = None"

text \<open>The register file of a frame in memory: the word at the offset of the register's field.\<close>

definition frame_regs :: "struct_decl \<Rightarrow> read_fn \<Rightarrow> u64 \<Rightarrow> reg \<Rightarrow> u64" where
  "frame_regs fs fn ctx r =
     (case r of
        Unsupported \<Rightarrow> 0
      | Reg name \<Rightarrow> (case field_at fs name of None \<Rightarrow> 0 | Some (off, sz) \<Rightarrow> at64 (fn sz (ctx + of_nat off)) 0))"

text \<open>\<open>PT_REGS_PARMn_CORE\<close> reads the same field through \<open>BPF_CORE_READ\<close>.\<close>

definition PT_REGS_PARM_CORE :: "abi \<Rightarrow> nat \<Rightarrow> struct_decl \<Rightarrow> read_fn \<Rightarrow> u64 \<Rightarrow> u64" where
  "PT_REGS_PARM_CORE ab n fs fn ctx =
     (case nth_reg (parm_regs ab) n of
        Unsupported \<Rightarrow> 0
      | Reg name \<Rightarrow>
          (case field_at fs name of
             None \<Rightarrow> 0
           | Some (off, sz) \<Rightarrow>
               (case BPF_CORE_READ fn ctx [\<lparr>ac_offset = of_nat off, ac_size = sz\<rparr>] of
                  None \<Rightarrow> 0 | Some bs \<Rightarrow> at64 bs 0)))"

lemma core_parm_is_parm: "PT_REGS_PARM_CORE ab n fs fn ctx = PT_REGS_PARM ab n (frame_regs fs fn ctx)"
  by (simp add: PT_REGS_PARM_CORE_def PT_REGS_PARM_def frame_regs_def core_read_chases chase_def
      split: reg.split option.split)

section \<open>Every register of the convention is in the frame\<close>

definition has_register :: "struct_decl \<Rightarrow> reg \<Rightarrow> bool" where
  "has_register fs r = (case r of Unsupported \<Rightarrow> False
     | Reg name \<Rightarrow> (case field_at fs name of None \<Rightarrow> False | Some (off, sz) \<Rightarrow> sz = 8 \<and> off + 8 \<le> struct_size fs))"

definition all_registers :: "abi \<Rightarrow> reg list" where
  "all_registers ab = parm_regs ab @ syscall_regs ab @ [ret_reg ab, fp_reg ab, rc_reg ab, sp_reg ab, ip_reg ab]"

lemma x86_fields: "place x86_pt_regs = map (\<lambda>i. (8 * i, 8)) [0..<21]" "struct_size x86_pt_regs = 168"
  by (simp_all add: x86_pt_regs_def place_def field_types_def align_up_def struct_size_def types_align_def upt_rec)

lemma x86_frame: "list_all (has_register x86_pt_regs) (all_registers x86_abi)"
  unfolding has_register_def field_at_def x86_fields
  by (simp add: all_registers_def x86_abi_def regs_of_def x86_pt_regs_def upt_rec)

lemma arm64_fields:
  "place arm64_pt_regs = map (\<lambda>i. (8 * i, 8)) [0..<35] @ [(280, 4), (284, 4)] @ map (\<lambda>i. (8 * i, 8)) [36..<42]"
  "struct_size arm64_pt_regs = 336"
  by (simp_all add: arm64_pt_regs_def arm64_user_pt_regs_def place_def field_types_def align_up_def struct_size_def
      types_align_def upt_rec)

lemma arm64_frame: "list_all (has_register arm64_pt_regs) (all_registers arm64_abi)"
  unfolding has_register_def field_at_def arm64_fields
  by (simp add: all_registers_def arm64_abi_def regs_of_def arm64_pt_regs_def arm64_user_pt_regs_def upt_rec)

lemma frame_parms:
  "map (\<lambda>n. frame_regs x86_pt_regs fn ctx (nth_reg (parm_regs x86_abi) n)) [1..<7] =
     map (\<lambda>off. at64 (fn 8 (ctx + off)) 0) [112, 104, 96, 88, 72, 64]"
  "map (\<lambda>n. frame_regs arm64_pt_regs fn ctx (nth_reg (parm_regs arm64_abi) n)) [1..<9] =
     map (\<lambda>off. at64 (fn 8 (ctx + off)) 0) [0, 8, 16, 24, 32, 40, 48, 56]"
  unfolding frame_regs_def field_at_def x86_fields arm64_fields
  by (simp_all add: nth_reg_def x86_abi_def arm64_abi_def regs_of_def x86_pt_regs_def arm64_pt_regs_def
      arm64_user_pt_regs_def upt_rec)

section \<open>A kprobe program on a saved frame\<close>

text \<open>
  Where the entry of a function leaves its arguments, as byte offsets into the frame: the registers
  of the first six arguments on x86-64, of the first eight on arm64.
\<close>

fun argument_offsets :: "target \<Rightarrow> u64 list" where
  "argument_offsets T_x86 = [112, 104, 96, 88, 72, 64]"
| "argument_offsets T_arm64 = [0, 8, 16, 24, 32, 40, 48, 56]"
| "argument_offsets _ = []"

definition saved_arguments :: "target \<Rightarrow> (u64 \<Rightarrow> u8) \<Rightarrow> u64 \<Rightarrow> (nat \<Rightarrow> u64) \<Rightarrow> bool" where
  "saved_arguments t mem ctx args \<longleftrightarrow>
     (\<forall>i < length (argument_offsets t). mem_read mem 8 (ctx + argument_offsets t ! i) = le_bytes64 (args i))"

lemma supported_target: "saved_frame t = Some fs \<Longrightarrow> t = T_x86 \<and> fs = x86_pt_regs \<or> t = T_arm64 \<and> fs = arm64_pt_regs"
  by (cases t) auto

lemma frame_parameter:
  assumes "saved_frame t = Some fs" and "defined ''__VMLINUX_H__''" and "i < length (argument_offsets t)"
  shows "PT_REGS_PARM (target_abi defined t) (Suc i) (frame_regs fs fn ctx) = at64 (fn 8 (ctx + argument_offsets t ! i)) 0"
proof -
  have nth: "f (Suc j) = g (offs ! j)" if eq: "map f [1..<m] = map g offs" and j: "j < length offs"
    for f :: "nat \<Rightarrow> u64" and g m j and offs :: "u64 list"
  proof -
    have "length (map f [1..<m]) = length offs" using eq by simp
    then have "map f [1..<m] ! j = f (Suc j)" using j by simp
    with eq j show ?thesis by simp
  qed
  from supported_target [OF assms(1)] show ?thesis
  proof
    assume t: "t = T_x86 \<and> fs = x86_pt_regs"
    with assms(2,3) nth [OF frame_parms(1) [of fn ctx], of i] show ?thesis by (simp add: PT_REGS_PARM_def)
  next
    assume t: "t = T_arm64 \<and> fs = arm64_pt_regs"
    with assms(2,3) nth [OF frame_parms(2) [of fn ctx], of i] show ?thesis by (simp add: PT_REGS_PARM_def)
  qed
qed

lemma frame_arguments:
  assumes "saved_frame t = Some fs" and "defined ''__VMLINUX_H__''" and "saved_arguments t mem ctx args"
    and "i < length (argument_offsets t)"
  shows "PT_REGS_PARM (target_abi defined t) (Suc i) (frame_regs fs (mem_read mem) ctx) = args i"
  using frame_parameter [of t fs defined i "mem_read mem" ctx] assms by (simp add: saved_arguments_def at_bytes)

lemma frame_complete:
  assumes "saved_frame t = Some fs" and "defined ''__VMLINUX_H__''"
  shows "list_all (has_register fs) (all_registers (target_abi defined t))"
  using supported_target [OF assms(1)] x86_frame arm64_frame assms(2) by auto

end
