(* ===== verification/Spec2Isabelle.thy ===== *)
theory Spec2Isabelle
  imports Userspace_Facts Kernel_Abi Kernel_Types
begin

text \<open>
  Tollwing: the kernel programs and the userspace that reads them.

  \<^bold>\<open>The program.\<close> Tollwing attributes network cost to workloads. Its kernel side is one BPF
  object (\<open>src/pkg/ebpf/bpf/\<close>): \<open>maps.h\<close> declares the structs and maps, \<open>tollwing.bpf.c\<close> the
  connection and byte-counting programs and includes \<open>dns.bpf.c\<close> (DNS capture, UDP receive) and
  \<open>quic.bpf.c\<close> (the TC packet program). The programs communicate only through the maps. In
  userspace the loader (\<open>pkg/ebpf/loader.go\<close>) sizes the maps, loads and attaches the programs,
  writes the configuration and reads the event ring buffer; the poller (\<open>pkg/poller/poller.go\<close>)
  drains the two flow maps; the agent (\<open>pkg/agent/agent.go\<close>) keeps what the events say of the
  dialed services (\<open>pkg/intent\<close>) and of each polled flow leaves out sidecar traffic
  (\<open>pkg/enricher\<close>), decides where it goes (\<open>pkg/classifier\<close>), which domain it belongs to
  (\<open>pkg/dns\<close>) and which pods and services are at its ends (\<open>pkg/k8s\<close>). The development models all
  programs of the object and these packages, and proves that what is counted is what happened,
  and where it is not.

  \<^bold>\<open>Theories of the kernel side.\<close>
  \<^item> \<open>Tollwing_Prelude\<close>: C integer types, bytes of words, sums over map entries and over CPUs, and
    the locale \<open>kept_by_steps\<close> of step functions with an invariant.
  \<^item> \<open>Bpf_Endian\<close>: \<open>include/bpf/bpf_endian.h\<close>, both byte orders and both expansions.
  \<^item> \<open>Bpf_Maps\<close>: the kernel's hash and LRU maps as the helper documentation states them; locales
    \<open>kernel_map\<close> and \<open>exact_map\<close>, interpreted on \<open>hash_update\<close> and \<open>lru_update\<close>.
  \<^item> \<open>Agent_State\<close>: the structs and maps of \<open>maps.h\<close> (records with a prefix per struct, the state
    \<open>agent\<close>), the sizes that the loader gives the maps (\<open>boot_agent\<close>), \<open>count_drop\<close>,
    \<open>get_config\<close>, \<open>should_sample\<close>. \<open>kenv\<close> is what one invocation gets from the kernel; every
    hook takes it, so the theorems hold for every answer.
  \<^item> \<open>Conn_Hooks\<close>, \<open>Conn_Facts\<close>: \<open>cgroup/connect4\<close>, \<open>connect6\<close>, \<open>sockops\<close>, \<open>cgroup/sock_release\<close>
    and the sidecar detection; preservation, frames, the two phases, the close.
  \<^item> \<open>Pt_Regs\<close>, \<open>Arg_Macros\<close>, \<open>Kernel_Types\<close>: the calling conventions and accessors of
    \<open>include/bpf/bpf_tracing.h\<close>; its argument macros and the helpers of \<open>bpf_helpers.h\<close>; the saved
    register frames of \<open>vmlinux/x86.h\<close> and \<open>arm.h\<close>, on which the accessors find the arguments.
  \<^item> \<open>Byte_Hooks\<close>: the eight byte-counting programs; the locale \<open>byte_hook\<close> is their common
    contract, interpreted on each; \<open>flow_booked\<close> is one step of flow accounting.
  \<^item> \<open>Dns_Hook\<close>, \<open>Quic_Hook\<close>: the DNS capture, and the packet parser over explicit loads.
  \<^item> \<open>Poller\<close>, \<open>Poll_Setup\<close>, \<open>Poll_Drain\<close>, \<open>Drop_Reader\<close>: the drain of one key and the configuration
    writes; construction and the probe for batch calls; the batch loop, the lossy fall back, one
    poll and the final flush; the reader of the drop counters.
  \<^item> \<open>Loader\<close>, \<open>Loader_Load\<close>, \<open>Agent_Start\<close>, \<open>Started_Runs\<close>: pruning and attach sequence; the load
    with its fall back; \<open>Start\<close> with all its errors, \<open>Close\<close> and a second start; what the calls of
    the kernel on a socket count after a start.
  \<^item> \<open>Agent_System\<close>, \<open>Byte_Ledger\<close>, \<open>Agent_Runs\<close>: dispatch of kernel events; what an event is
    worth (\<open>tally\<close>, the abstract specification that the programs are shown to refine); the whole
    system with reachability and invariants.
  \<^item> \<open>Run_Ledger\<close>, \<open>Run_Facts\<close>, \<open>Event_Ledger\<close>, \<open>Lifetimes\<close>, \<open>Agent_Types\<close>: facts about runs. The
    locale \<open>ledger\<close> is interpreted for the transmitted and the received bytes; what the programs
    report and how often a connection closes; one owner of UDP bytes, the life of a connection, a
    sampled-out socket, a QUIC flow; the array lengths and map sizes.
  \<^item> \<open>Update_Halves\<close>, \<open>Update_Races\<close>: the counting programs and the packet program taken apart at
    their flow lookup; the concurrent system in any interleaving of the halves, two further
    interpretations of \<open>ledger\<close>, and where a race comes from.
  \<^item> \<open>Layout\<close>, \<open>Core_Bitfield\<close>, \<open>Core_Read\<close>, \<open>Kernel_Abi\<close>: struct layouts in C and Go and the
    ring-buffer encoding; the bitfield and the read macros of \<open>bpf_core_read.h\<close>, with the DNS
    program on kernel memory; the helper table of \<open>bpf_helper_defs.h\<close> against the kernel
    enumerations.

  \<^bold>\<open>Theories of userspace.\<close>
  \<^item> \<open>Net_Addr\<close>: addresses and prefixes of Go's \<open>net/netip\<close> as far as they are used, and
    \<open>nboToAddr\<close>, which reads the address fields of the kernel's structs.
  \<^item> \<open>Traffic_Class\<close>, \<open>Classifier\<close>: the prefix tree, whose sort in place is shown to be the stable
    sort and its lookup the longest match; the zone resolver and the zone names; the topology
    setters and the decision of \<open>Classify\<close>, with the invariant \<open>topology_current\<close>.
  \<^item> \<open>Dns_Tracker\<close>, \<open>Dns_Facts\<close>: the framing of a captured datagram, the cache with its eviction
    ring, the query counters, the table of cloud services; bounds and what a lookup tells.
  \<^item> \<open>Forgetful_Map\<close>: the locale of caches that may forget but never invent; \<open>Dns_Facts\<close> and
    \<open>Intent_Cache\<close> interpret it on the two caches.
  \<^item> \<open>Intent_Cache\<close>: the cache of two generations, what the handlers of the events do to it, and the
    three identities of a connection (event, flow key, snapshot).
  \<^item> \<open>Kube_Informer\<close>, \<open>Cluster_View\<close>: the tables of the Kubernetes informer (\<open>pkg/k8s/informer.go\<close>) and
    the handlers that fill them, shown against the multiset of endpoints that the slices list;
    the informer and the classifier that it feeds, with the invariant \<open>ranges_ok\<close>.
  \<^item> \<open>Agent_Poll\<close>: the sidecar detector and \<open>handlePoll\<close>, from the snapshots to what is published.
  \<^item> \<open>Examples\<close>: a concrete environment and states for the witnesses. \<open>Further_Facts\<close>,
    \<open>Userspace_Facts\<close>: facts beside the properties below, unexpected behaviours among them.

  \<^bold>\<open>State.\<close> A BPF map is a \<open>bmap\<close>: entries and \<open>max_entries\<close>; a per-CPU value is a function from
  CPU numbers. Pointers that a lookup returns are modelled by writing back under the same key;
  in \<open>Update_Races\<close> a flow pointer is a value that can become stale. Ring buffers are the lists
  of submitted records. Machine integers are words at their C width and wrap; counters wrap at
  64 bits, so the ledger theorems are equations modulo \<open>2^64\<close>. A Go map is a partial function, and
  where the code ranges over one, the order of the iteration is an argument.

  \<^bold>\<open>Decisions from outside as arguments.\<close> Whether an element is granted, which entries an LRU map
  gives up, whether ring-buffer memory is there and what it held, the clock (indexed by the call,
  as some programs read it twice), the cookie and the process come from \<open>kenv\<close>; which key takes
  over a removed element is an argument of \<open>finish_half\<close> and \<open>finish_packet\<close>; \<open>start_answers\<close> is
  what the kernel and the file system answer to a start. In userspace the clock, the DNS message
  parser, the parsers of addresses and prefixes, the content of \<open>/proc\<close>, the objects that the
  Kubernetes API sends and the price of a flow are arguments. What the kernel and the libraries document is a hypothesis where it is used: the
  other CPUs' slots of a new per-CPU entry start at zero (\<open>other_cpus_zero\<close>, \<open>quic_zero\<close>), the CPU
  number is below the CPU count, \<open>batch_contract\<close> of the batch call, \<open>verifier\<close> of the load and
  its error texts, \<open>typed_env\<close> of the memory that the kernel hands out, \<open>map_order\<close> of a Go map's
  iteration.

  \<^bold>\<open>Termination and bounds.\<close> The programs have no loops; every model of them is a total function.
  The packet parser returns \<open>None\<close> on a load outside the packet, and is proved never to
  (\<open>Further_Facts\<close>). The batch loop of the poller has no bound in the code: \<open>poll_batch\<close> is a
  \<open>partial_function\<close>, and \<open>batch_poll_drains\<close> (C26) proves that it returns. The load makes five
  attempts and a last one, as the code does.

  \<^bold>\<open>Plan.\<close> C1 to C9 are about whole runs, C10 and C11 about all programs, C12 to C15 about a
  connection from \<open>connect\<close> to close and to the name of the service that it dialed, C16 to C19
  about byte counting and sidecars in kernel and userspace, C20 to C24 about DNS and QUIC, C25 to
  C27 about the drain, C28 to C32 about the classification of traffic and the tables of the
  cluster, C33 and C34 about the loader, C35 and C36 about what kernel and userspace share, C37 to
  C40 about the vendored headers. What could come next: the connection updates at the grain of
  \<open>Update_Races\<close> and the capacity of the ring buffers.

  \<^bold>\<open>Not modelled.\<close> Interleaving inside a program other than at the flow lookup of the counting
  and packet programs (the counters of a connection are atomic adds, those of a flow are per CPU; the
  other programs are one step), the ring buffer's capacity other than through a failed
  reservation, IPv6 addresses in flow keys (the code has none), the BTF relocations other than
  those of bitfields (the relocated offsets are arguments) and the remaining variants of the read
  macros. Of the Go side: goroutines, locks, timers, logging and shutdown; the cost engine, which
  computes in floating point; the exporter and the transport; the client library of
  Kubernetes; the HTTP queries of the metadata services and the readers of \<open>/proc\<close>, which are input
  and output only.
\<close>

section \<open>Accounting across the system\<close>

text \<open>
  C1. No transmitted byte is lost without a trace. Start from the initial state and let any
  events happen: programs on any CPU, with any answers of the kernel, the poller taking keys,
  the loader changing the configuration. Then the bytes in the flow aggregates, in the QUIC
  flows and delivered by the poller, plus the credits of the refused updates, are the sum of
  the credits of all events; and the number of refused updates is what the drop counters show.
\<close>

theorem tx_ledger:
  assumes "\<forall>ev \<in> set evs. possible n ev \<and> quic_zero ev"
  shows "\<exists>lost. mset lost \<subseteq># mset (credits n evs (boot_agent sizes cfg, [])) \<and>
    map_update_drops n (fold (sys_step n) evs (boot_agent sizes cfg, [])) = of_nat (length lost) \<and>
    accounted_tx n (fold (sys_step n) evs (boot_agent sizes cfg, [])) + sum_list lost =
      sum_list (credits n evs (boot_agent sizes cfg, []))"
  using assms by (rule booted_books)

lemma tx_ledger_witness:
  "\<exists>lost. mset lost \<subseteq># mset (credits 1 [Kernel (example_env 1) (Connect4 (example_connect 17)),
       Kernel (example_env 2) (Udp_sendmsg (\<lambda>_. 100))] (example_agent, [])) \<and>
    map_update_drops 1 (fold (sys_step 1) [Kernel (example_env 1) (Connect4 (example_connect 17)),
       Kernel (example_env 2) (Udp_sendmsg (\<lambda>_. 100))] (example_agent, [])) = of_nat (length lost) \<and>
    accounted_tx 1 (fold (sys_step 1) [Kernel (example_env 1) (Connect4 (example_connect 17)),
       Kernel (example_env 2) (Udp_sendmsg (\<lambda>_. 100))] (example_agent, [])) + sum_list lost =
      sum_list (credits 1 [Kernel (example_env 1) (Connect4 (example_connect 17)),
       Kernel (example_env 2) (Udp_sendmsg (\<lambda>_. 100))] (example_agent, []))"
  by (rule tx_ledger) (simp add: zero_quic_flow_metrics_def)

text \<open>
  C2. The same ledger when programs overlap. All counting programs and the packet program, on any
  number of CPUs, are taken apart at their flow lookup, in any interleaving with each other,
  with whole programs, with the drain and with the loader, and a removed element may be reused
  by another key at any time. Then what is accounted for, the refused updates (as many as the
  drop counters show) and the increments through pointers to removed elements add up to what
  the events were worth.
\<close>

theorem concurrent_ledger:
  assumes "\<forall>ev \<in> set evs. conc_possible n ev"
  shows "let s = conc_initial sizes cfg; t = fold (conc_step n) evs s in
    \<exists>lost. conc_drops n t = of_nat (length lost) \<and>
      mset lost \<subseteq># mset (run_log (\<lambda>ev s. conc_credit ev s - conc_raced ev s) (conc_step n) evs s) \<and>
      conc_accounted n t + sum_list lost + sum_list (run_log conc_raced (conc_step n) evs s) =
        sum_list (run_log conc_credit (conc_step n) evs s)"
  using conc.run_books [OF conc_initial_ok assms, of sizes cfg]
  by (auto simp: Let_def conc_initial_totals run_log_diff intro: books_with_races)

lemma concurrent_ledger_witness:
  "let s = conc_initial no_sizes example_config; t = fold (conc_step 1) example_conc_run s in
    \<exists>lost. conc_drops 1 t = of_nat (length lost) \<and>
      mset lost \<subseteq># mset (run_log (\<lambda>ev s. conc_credit ev s - conc_raced ev s) (conc_step 1) example_conc_run s) \<and>
      conc_accounted 1 t + sum_list lost + sum_list (run_log conc_raced (conc_step 1) example_conc_run s) =
        sum_list (run_log conc_credit (conc_step 1) example_conc_run s)"
  by (rule concurrent_ledger) (simp add: zero_quic_flow_metrics_def)

text \<open>
  C3. The lifecycle events. Over any run the \<open>events\<close> ring holds exactly what the programs had to
  report and found room for, in the order in which it happened; and the events slot of the drop
  counters is the number of reports that found no room.
\<close>

theorem event_ledger:
  assumes "\<forall>ev \<in> set evs. possible n ev"
  shows "let t = fst (fold (sys_step n) evs (boot_agent sizes cfg, []));
      log = notices n evs (boot_agent sizes cfg, []) in
    events t = map snd (filter fst log) \<and>
    drops n DROP_SLOT_EVENTS_RINGBUF t = of_nat (length (filter (\<lambda>x. \<not> fst x) log))"
  using run_reported [OF assms, of "(boot_agent sizes cfg, [])"] by (simp add: Let_def drops_def cpu_total_def)

lemma event_ledger_witness:
  "events (fst (fold (sys_step 1) [Kernel (example_env 1) (Connect4 (example_connect 6)),
      Kernel ((example_env 2)\<lparr>ring_reserved := False\<rparr>) (Connect4 (example_connect 6))] (example_agent, []))) =
    [Connect (connect4_event (example_env 1) (example_connect 6) 6)]"
  using event_ledger [of "[Kernel (example_env 1) (Connect4 (example_connect 6)),
      Kernel ((example_env 2)\<lparr>ring_reserved := False\<rparr>) (Connect4 (example_connect 6))]" 1 no_sizes example_config]
  by (simp add: Let_def example_env_no_room split: option.split)

text \<open>
  C4. A connection is closed at most once. For any socket, over any run: the reports of its closing
  are at most as many as the reports that open a connection (an establish, a UDP connect), and
  fewer while the connection table tracks the socket.
\<close>

theorem closes_follow_opens:
  "let s = (boot_agent sizes cfg, []); log = notices n evs s in
    count_of (closes k) log + tracked k (fold (sys_step n) evs s) \<le> count_of (opens k) log"
  using run_tracked [of k n evs "(boot_agent sizes cfg, [])"]
  by (simp add: Let_def tracked_def lookup_connection_def bpf_map_lookup_elem_def split: if_splits)



text \<open>
  C6. One owner of UDP's transmitted bytes. Once the loader has pushed a configuration whose
  \<open>udp_socket_tx\<close> bit it computed from the flag and the attach outcome, then whatever happens,
  either the packet program records nothing, or no socket-level send is counted: no byte is
  counted twice.
\<close>

theorem udp_one_owner:
  fixes n :: nat and udp att en :: bool and rate :: u8 and agg :: u64
  assumes "\<forall>ev \<in> set evs. after_push att ev"
  shows "(\<forall>e pkt. quic_credit (e, Quic_egress pkt) (fst (fold (sys_step n)
        (Push_config en udp rate att agg # evs) (boot_agent sizes cfg, []))) = 0) \<and>
      entries (quic_flows (fst (fold (sys_step n)
        (Push_config en udp rate att agg # evs) (boot_agent sizes cfg, [])))) = Map.empty \<or>
    (\<forall>e ctx. att \<longrightarrow> tx_credit (e, Udp_sendmsg ctx) (fst (fold (sys_step n)
        (Push_config en udp rate att agg # evs) (boot_agent sizes cfg, []))) = 0)"
proof (rule one_owner_credits)
  show "one_owner udp att (fst (fold (sys_step n) (Push_config en udp rate att agg # evs) (boot_agent sizes cfg, [])))"
    using run_one_owner [OF pushed_one_owner [of udp att n en rate agg sizes cfg] assms, of n]
    by (simp del: sys_step.simps)
qed

lemma udp_one_owner_witness:
  "(\<forall>e pkt. quic_credit (e, Quic_egress pkt) (fst (fold (sys_step 1)
        [Push_config True True 1 True 0, Kernel (example_env 1) (Udp_sendmsg (\<lambda>_. 100))] (example_agent, []))) = 0) \<and>
      entries (quic_flows (fst (fold (sys_step 1)
        [Push_config True True 1 True 0, Kernel (example_env 1) (Udp_sendmsg (\<lambda>_. 100))] (example_agent, [])))) = Map.empty \<or>
    (\<forall>e ctx. True \<longrightarrow> tx_credit (e, Udp_sendmsg ctx) (fst (fold (sys_step 1)
        [Push_config True True 1 True 0, Kernel (example_env 1) (Udp_sendmsg (\<lambda>_. 100))] (example_agent, []))) = 0)"
  by (rule udp_one_owner) simp






section \<open>An observer only\<close>

text \<open>
  C10. Every program, on every input and in every state, returns the verdict that lets the
  traffic through, and none of them reads a packet out of bounds.
\<close>

theorem observer_only: "\<exists>b. dispatch e ev a = Some (allow ev, b)"
  using dispatch_step by blast

text \<open>
  C11. Disabled, the programs change nothing. Two are exempt: the release of a socket cleans
  up always, and the DNS capture does not look at the flag.
\<close>

theorem disabled_inert:
  assumes "get_config a = None" and "\<And>d. ev \<noteq> Dns_recvmsg d" and "\<And>p. ev \<noteq> Sock_release p"
  shows "step (e, ev) a = a"
  using assms by (rule step_disabled)

lemma disabled_inert_witness:
  "step (example_env 1, Sockops (example_sock_ops 4)) (set_enabled False example_agent) = set_enabled False example_agent"
proof (rule disabled_inert)
  show "get_config (set_enabled False example_agent) = None"
    by (simp add: set_enabled_def get_config_def)
qed simp_all

section \<open>The two-phase capture and the life of a connection\<close>



text \<open>
  C13. The dialed service is named. A socket connects to a service address, is redirected, and
  established; the event is reported and handled, and further events that leave its key alone
  follow, no more puts among them than the cache's limit. Then a poll of the connection's flow
  that is not left out names the service of the address that was dialed, whatever the
  counters; and the handling of its close forgets the entry.
\<close>

theorem dialed_service_found:
  fixes k :: u64
  defines "run \<equiv> \<lambda>a e1 ctx is e2 s. fold step ((e1, Connect4 ctx) # is @ [(e2, Sockops s)]) a"
  assumes "get_config a \<noteq> None" and "bpf_get_socket_cookie e1 = k" "bpf_get_socket_cookie e2 = k"
    and "connect_selected e1 ctx a = Some proto" "cookie_room e1 a" "\<forall>i \<in> set is. keeps_dst k i"
    and "so_op s = BPF_SOCK_OPS_ACTIVE_ESTABLISHED_CB" "so_family s = AF_INET" "ring_reserved e2"
    and "ci = established_conn e2 s 0 (correlation_of (connect4_dst e1 ctx))"
    and "\<forall>op \<in> set (concat (map event_intent evs)). \<not> on_key (flow_intent_key (flow_key_of ci)) op"
    and "puts (concat (map event_intent evs)) \<le> ic_max c" "intent_ok c"
    and "av_intents v = handle_events (last (events (run a e1 ctx is e2 s)) # evs) c" "av_informer v = Some tables"
    and "sa_user_ip4 ctx \<noteq> 0"
    and "in_cluster_ip_to_svc tables (addr_text (nbo_to_addr (sa_user_ip4 ctx))) =
      Some \<lparr>rf_namespace = ns, rf_name = service\<rparr>" "ns \<noteq> []" "service \<noteq> []"
    and "f = sum_per_cpu (flow_key_of ci) vals" "\<not> fst (poll_is_sidecar (av_comm v) f sd)"
  shows "cfl_dst_namespace (fst (classify_flow v now f sd)) = ns \<and> cfl_dst_service (fst (classify_flow v now f sd)) = service \<and>
    (\<forall>e3 conn. flow_key_of conn = flow_key_of ci \<longrightarrow>
      intent_get (snapshot_key f) (handle_events [Close (close_event_of e3 conn)] (av_intents v)) = None)"
proof -
  let ?co = "correlation_of (connect4_dst e1 ctx)"
  have co: "co_orig_ip ?co = sa_user_ip4 ctx" by (simp add: correlation_of_def connect4_dst_def)
  have key: "snapshot_key f = flow_intent_key (flow_key_of (established_conn e2 s 0 ?co))"
    using assms by (simp add: snapshot_key_sum)
  have "last (events (run a e1 ctx is e2 s)) = Establish (establish_event_of e2 s 0 ?co)"
    unfolding run_def by (rule establish_reported [OF assms(2-10)])
  then have "intent_get (snapshot_key f) (av_intents v) = Some \<lparr>id_ip = co_orig_ip ?co, id_port = co_orig_port ?co\<rparr>"
    using dialed_found [of c ?co evs e2 s 0] assms co unfolding key by simp
  then have "dialed_service tables (av_intents v) f = (ns, service)"
    using assms by (simp add: dialed_service_def co)
  moreover have "intent_get (snapshot_key f) (handle_events [Close (close_event_of e3 conn)] (av_intents v)) = None"
    if "flow_key_of conn = flow_key_of ci" for e3 conn
    using closed_forgotten [of conn "[]" e3 "av_intents v"] assms(11) that unfolding key by simp
  ultimately show ?thesis using dialed_named [of v tables f sd ns service now] assms by simp
qed

lemma dialed_service_found_witness:
  "cfl_dst_service (fst (classify_flow (example_view (handle_events (last (events (fold step [(example_env 1, Connect4 (example_connect 6)),
      (example_env 2, Sockops (example_sock_ops 4))] example_agent)) # []) (new_intent_cache 0))) (0, 0)
    (sum_per_cpu (flow_key_of (established_conn (example_env 2) (example_sock_ops 4) 0
      (correlation_of (connect4_dst (example_env 1) (example_connect 6))))) [])
    new_sidecar_detector)) = ''cart''"
proof -
  let ?ci = "established_conn (example_env 2) (example_sock_ops 4) 0 (correlation_of (connect4_dst (example_env 1) (example_connect 6)))"
  have "\<not> fst (poll_is_sidecar (\<lambda>_. ''curl'') (sum_per_cpu (flow_key_of ?ci) []) new_sidecar_detector)"
    by (simp add: poll_is_sidecar_def sum_per_cpu_def flow_key_of_def established_conn_fields example_remote_port
        sidecar_ports_agree is_sidecar_process_def new_sidecar_detector_def known_sidecar_proxies_def Let_def)
     (simp add: example_sock_ops_def is_sidecar_port_def enricher_is_loopback_def nbo_to_addr_def le_bytes32_def le_word32_def is_loopback_def)
  then show ?thesis
    using dialed_service_found [of example_agent "example_env 1" 42 "example_env 2" "example_connect 6" 6 "[]" "example_sock_ops 4"
        ?ci "[]" "new_intent_cache 0"
        "example_view (handle_events (last (events (fold step ((example_env 1, Connect4 (example_connect 6)) # [] @
          [(example_env 2, Sockops (example_sock_ops 4))]) example_agent)) # []) (new_intent_cache 0))"
        example_tables "''shop''" "''cart''" _ "[]" new_sidecar_detector "(0, 0)"] addr_text_example
    by (simp add: new_intent_ok example_view_def example_cluster_ip BPF_SOCK_OPS_ACTIVE_ESTABLISHED_CB_def del: step_simps handle_events_simps)
qed

text \<open>
  C14. The intent cache is a bounded map. After any puts and deletes it holds at most twice its limit;
  a lookup gives the value that was put last and not deleted, or nothing; and an entry stays at
  least until as many further puts as the limit.
\<close>

theorem intent_cache_refines:
  fixes m ops
  defines "c \<equiv> fold intent_step ops (new_intent_cache m)"
  shows "intent_len c \<le> 2 * ic_max (new_intent_cache m) \<and>
    (intent_get k c = None \<or> intent_get k c = fold intent_map ops Map.empty k) \<and>
    ((\<forall>op \<in> set later. \<not> on_key k op) \<and> puts later \<le> ic_max (new_intent_cache m) \<longrightarrow>
      intent_get k (fold intent_step (Put k d # later) c) = Some d)"
proof -
  have ok: "intent_ok c" unfolding c_def by (rule intent_bound.run_keeps [OF new_intent_ok]) simp
  have max: "ic_max c = ic_max (new_intent_cache m)" by (simp add: c_def)
  have "(\<lambda>k. intent_get k (new_intent_cache m)) = Map.empty" by (simp add: new_intent_cache_def intent_get_def fun_eq_iff)
  from intents.nothing_else [OF TrueI this, where ops = ops and k = k] have get: "intent_get k c = None \<or> intent_get k c = fold intent_map ops Map.empty k"
    by (simp add: c_def)
  show ?thesis using intent_len_bound [OF ok] get put_stays [OF ok, of later k d] max by simp
qed

lemma intent_cache_refines_witness:
  "intent_get (example_intent_key 1) (fold intent_step [Put (example_intent_key 1) \<lparr>id_ip = 5, id_port = 80\<rparr>,
      Put (example_intent_key 2) \<lparr>id_ip = 6, id_port = 80\<rparr>] (new_intent_cache 1)) = Some \<lparr>id_ip = 5, id_port = 80\<rparr>"
  using intent_cache_refines [of "[]" 1 "example_intent_key 1" "[Put (example_intent_key 2) \<lparr>id_ip = 6, id_port = 80\<rparr>]" "\<lparr>id_ip = 5, id_port = 80\<rparr>"]
  by (simp add: new_intent_cache_def [of 1] del: intent_step.simps)

text \<open>
  C15. Sampling is decided once: a socket whose every \<open>connect\<close> failed the sampling and which accepts
  nothing is not tracked, whatever events happen, its active establish among them.
\<close>

theorem sampled_out_untracked:
  assumes "get_config a = Some cfg" and "1 < ac_sample_rate cfg"
    and "lookup_connection a k = None" "lookup_original_dst a k = None"
    and "\<forall>i \<in> set is. sampled_out k (ac_sample_rate cfg) i"
  shows "lookup_connection (fold step is a) k = None \<and> lookup_original_dst (fold step is a) k = None"
  using sampled.run_keeps [of k "ac_sample_rate cfg" a "is"] assms by (auto simp: untracked_def)

lemma sampled_out_untracked_witness:
  "lookup_connection (fold step [(example_env 1, Connect4 (example_connect 6)), (example_env 2, Sockops (example_sock_ops 4)),
      (example_env 3, Tcp_sendmsg_fentry (\<lambda>_. 100))]
      (boot_agent no_sizes (example_config\<lparr>ac_sample_rate := 10\<rparr>))) 42 = None"
proof -
  have "\<not> should_sample (example_env 1) 10" by (simp add: should_sample_def example_env_def word_le_nat_alt)
  then show ?thesis
    using sampled_out_untracked [of "boot_agent no_sizes (example_config\<lparr>ac_sample_rate := 10\<rparr>)"
        "example_config\<lparr>ac_sample_rate := 10\<rparr>" 42 "[(example_env 1, Connect4 (example_connect 6)),
        (example_env 2, Sockops (example_sock_ops 4)), (example_env 3, Tcp_sendmsg_fentry (\<lambda>_. 100))]"]
    by (simp add: get_config_def example_config_def lookup_connection_def lookup_original_dst_def
        bpf_map_lookup_elem_def BPF_SOCK_OPS_PASSIVE_ESTABLISHED_CB_def del: step_simps)
qed

section \<open>Byte counting\<close>

text \<open>
  C16. One event, one connection: an event that does not end the connection of socket \<open>k\<close>
  tallies it when the event is on \<open>k\<close> and the agent is enabled, with the amounts that the
  hooked call's own arguments say, and leaves it untouched otherwise.
\<close>

theorem event_tallies_its_socket:
  assumes "keeps k (e, ev)" and "lookup_connection a k = Some ci"
  shows "lookup_connection (step (e, ev) a) k =
    Some (if bpf_get_socket_cookie e = k \<and> get_config a \<noteq> None then tally ev ci else ci)"
  using assms by (rule step_connection)

lemma event_tallies_its_socket_witness:
  "lookup_connection (step (example_env 1, Tcp_retransmit 1448)
      tracked_agent) 42 =
    Some (tally (Tcp_retransmit 1448) zero_conn_info)"
  using event_tallies_its_socket [of 42 "example_env 1" "Tcp_retransmit 1448"
      tracked_agent zero_conn_info]
  by (simp del: step_simps)





text \<open>
  C19. Kernel and userspace agree on sidecars: the flow of a connection that the kernel marks as a
  sidecar's is left out by every poll, whatever the process is called and whatever the detector
  remembers: it costs nothing and is not published.
\<close>

theorem sidecar_never_priced:
  assumes "fst (detect_sidecar e s a)" and "i < length flows"
    and "flows ! i = sum_per_cpu (flow_key_of (established_conn e s d co)) vals"
  shows "let cf = fst (handle_poll v flows sd) ! i in
    cfl_is_sidecar cf \<and> cfl_cost cf = 0 \<and> published [cf] = None \<and> cfl_tx_bytes cf = fs_tx_bytes (flows ! i)"
proof -
  obtain sk where "so_sk s = Some sk"
    using assms(1) by (auto simp: detect_sidecar_def Let_def split: if_splits option.splits)
  from sidecar_agree [OF this, of e a 0 d co] assms(1)
  have "is_sidecar_socket_cookie 0 (Some (established_conn e s d co))" by simp
  from kernel_sidecar_left_out [OF this] have left: "fst (poll_is_sidecar comm (flows ! i) sd')" for comm sd'
    unfolding assms(3) .
  obtain now sd' where "fst (handle_poll v flows sd) ! i = fst (classify_flow v now (flows ! i) sd')"
    using handle_poll_nth [OF assms(2), of v sd] by blast
  then show ?thesis using left by (simp add: Let_def published_def)
qed

lemma sidecar_never_priced_witness:
  "cfl_cost (fst (handle_poll (example_view (new_intent_cache 0)) [sum_per_cpu (flow_key_of (established_conn (example_env 1)
      (example_sock_ops 5\<lparr>so_local_port := 15001\<rparr>) 1 no_correlation)) [zero_flow_metrics\<lparr>fm_tx_bytes := 100\<rparr>]] new_sidecar_detector) ! 0) = 0"
proof -
  have "fst (detect_sidecar (example_env 1) (example_sock_ops 5\<lparr>so_local_port := 15001\<rparr>) example_agent)"
    by (simp add: detect_sidecar_def Let_def is_sidecar_port_def)
  from sidecar_never_priced [OF this, of 0 "[sum_per_cpu (flow_key_of (established_conn (example_env 1)
      (example_sock_ops 5\<lparr>so_local_port := 15001\<rparr>) 1 no_correlation)) [zero_flow_metrics\<lparr>fm_tx_bytes := 100\<rparr>]]"
      1 no_correlation "[zero_flow_metrics\<lparr>fm_tx_bytes := 100\<rparr>]" "example_view (new_intent_cache 0)" new_sidecar_detector]
  show ?thesis by (simp add: Let_def)
qed

section \<open>DNS and QUIC\<close>

text \<open>
  C20. A DNS answer from kernel memory to the parser: for a socket in memory with peer port 53 and a
  buffer of 12 to 512 bytes at the head of its receive queue, the kernel program submits one
  record, and userspace hands the parser exactly the buffer's bytes.
\<close>

theorem dns_datagram_delivered:
  assumes "dns_socket mem offs sk family skb data len" and "family = AF_INET \<or> family = AF_INET6"
    and "skb \<noteq> 0" "skb \<noteq> sk + off_sk_receive_queue offs" "data \<noteq> 0" "12 \<le> len" "len \<le> 512"
    and "ring_reserved e" "probe_read_ok e"
  shows "\<exists>r. dns_events (snd (tollwing_dns_recvmsg e (dns_ctx_of (mem_read mem) mem offs sk) a)) = dns_events a @ [r] \<and>
    (\<forall>parser order now t. read_dns_record parser order now (dns_record_bytes r) t =
      parse_dns_response parser order now (mem_read mem (unat len) data) t)"
  using dns_memory_captured [OF assms] memory_record_packet [OF assms(6,7), of mem data]
  by (auto simp: read_dns_record_def)

lemma dns_datagram_delivered_witness:
  "\<exists>r. dns_events (snd (tollwing_dns_recvmsg (example_env 1)
      (dns_ctx_of (mem_read example_memory) example_memory example_offsets 1000) example_agent)) = [r] \<and>
    read_dns_record example_parser example_order 0 (dns_record_bytes r) (new_tracker \<lparr>dc_min_ttl = 0, dc_max_ttl = 0\<rparr> 0) =
      parse_dns_response example_parser example_order 0 [1, 2, 3, 4, 5, 6, 7, 8, 9, 10, 11, 12]
        (new_tracker \<lparr>dc_min_ttl = 0, dc_max_ttl = 0\<rparr> 0)"
proof -
  have "dns_socket example_memory example_offsets 1000 2 2000 3000 12"
    by (simp add: dns_socket_def example_offsets_def mem_read_def example_memory_def upt_rec explicit_bytes)
  moreover have "mem_read example_memory (unat (12 :: u32)) 3000 = [1, 2, 3, 4, 5, 6, 7, 8, 9, 10, 11, 12]"
    by (simp add: mem_read_def example_memory_def upt_rec)
  ultimately show ?thesis
    using dns_datagram_delivered [of example_memory example_offsets 1000 2 2000 3000 12 "example_env 1" example_agent]
    by (simp add: AF_INET_def example_offsets_def) blast
qed

text \<open>
  C21. A lookup in the DNS cache tells the name of the latest answer for the address, or nothing. After
  any datagrams, for any parser, it gives no name or the one of the latest answer, not past its
  clamped time; up to 65536 addresses it gives exactly that; and the service is the table's for
  that name.
\<close>

theorem dns_lookup_latest:
  fixes ops parser ds order c t0
  defines "ops \<equiv> concat (map (datagram_answers parser) ds)" and "t \<equiv> track_datagrams parser order ds (new_tracker c t0)"
  shows "fst (tracker_lookup a now t) \<in> {[], told (set_dns_defaults c) a now ops} \<and>
    (card (\<Union> (answered ` set ops)) \<le> max_cache_entries \<longrightarrow>
      fst (tracker_lookup a now t) = told (set_dns_defaults c) a now ops) \<and>
    snd (tracker_lookup a now t) = (if fst (tracker_lookup a now t) = [] then []
      else service_of builtin_rules (fst (tracker_lookup a now t)))"
proof -
  have t: "t = tracker_run order ops (new_tracker c t0)" by (simp add: t_def ops_def track_run)
  have new: "tr_cache (new_tracker c t0) = Map.empty" "tr_config (new_tracker c t0) = set_dns_defaults c"
    "length (tr_ring (new_tracker c t0)) = max_cache_entries" by (simp_all add: new_tracker_def)
  have "services_ok builtin_rules t" unfolding t by (rule services.run_keeps [OF new_services_ok]) simp
  then show ?thesis
    using lookup_told [OF new(1), of a now order ops] lookup_exact [OF new(1), of ops a now order] lookup_service_of
    by (simp add: t new)
qed

lemma dns_lookup_latest_witness:
  "fst (tracker_lookup (Addr4 0x0A0B0C0D) (20 * 10 ^ 9) (track_datagrams example_parser example_order [(0, []), (10 * 10 ^ 9, [1])]
      (new_tracker \<lparr>dc_min_ttl = 0, dc_max_ttl = 0\<rparr> 0))) = ''b.s3.amazonaws.com''"
proof -
  let ?ops = "concat (map (datagram_answers example_parser) [(0, []), (10 * 10 ^ 9, [1])])"
  have ops: "?ops = [Dns_answered 0 (Addr4 0x0A0B0C0D) ''old.example.com'' (60 * 10 ^ 9),
      Dns_answered (10 * 10 ^ 9) (Addr4 0x0A0B0C0D) ''b.s3.amazonaws.com'' (60 * 10 ^ 9)]"
    by (simp add: datagram_answers_def example_parser_def trim_dot_def ttl_ns_def)
  show ?thesis
    using dns_lookup_latest [of "Addr4 0x0A0B0C0D" "20 * 10 ^ 9" example_parser example_order "[(0, []), (10 * 10 ^ 9, [1])]"
        "\<lparr>dc_min_ttl = 0, dc_max_ttl = 0\<rparr>" 0]
    unfolding ops by (simp add: addr_valid_def told_def set_dns_defaults_def clamp_ttl_def max_cache_entries_def Let_def)
qed

text \<open>
  C22. The DNS tracker stays bounded. After any answers and counter resets, in whatever order Go
  iterates its map, the cache holds fewer than twice as many addresses as the ring has slots, and
  at most 4096 domains are counted.
\<close>

theorem dns_cache_bounded:
  assumes "map_order order"
  shows "let t = tracker_run order ops (new_tracker c now) in
    card (dom (tr_cache t)) < 2 * max_cache_entries \<and> card (dom (tr_query_counts t)) \<le> max_query_counters"
  using run_tracker_ok [OF assms, of ops c now] ring_bound [of "tracker_run order ops (new_tracker c now)"]
  by (simp add: Let_def tracker_ok_def counts_ok_def)

lemma dns_cache_bounded_witness:
  "card (dom (tr_cache (tracker_run example_order [Dns_answered 0 (Addr4 1) ''a.example.com'' 5] (new_tracker \<lparr>dc_min_ttl = 0, dc_max_ttl = 0\<rparr> 0))))
    < 2 * max_cache_entries"
  using dns_cache_bounded [OF example_order, of "[Dns_answered 0 (Addr4 1) ''a.example.com'' 5]" "\<lparr>dc_min_ttl = 0, dc_max_ttl = 0\<rparr>" 0]
  by (simp add: Let_def)

text \<open>
  C23. The packet parser recovers the flow of every IPv4 QUIC frame, with options in the header
  or not: the 4-tuple of the headers with the ports in host order, and what the QUIC header
  says of the version and the header form.
\<close>

theorem quic_ipv4_frame_parsed:
  assumes "length macs = 12" and "length mid = 8" and "length csum = 2"
    and "length src = 4" and "length dst = 4"
    and "5 \<le> unat (ver_ihl AND 15)" and "length opts + 20 = 4 * unat (ver_ihl AND 15)"
    and "length ucsum = 2" and "9 \<le> unat len" and "pl \<noteq> []"
  shows "parse_quic (macs @ [0x08, 0x00] @ ipv4_header ver_ihl mid csum src dst opts @
            udp_datagram sp dp len ucsum pl) =
    Some (case quic_header pl of
        None \<Rightarrow> Pass
      | Some (v, h) \<Rightarrow> Quic_packet \<lparr>qk_src_ip = le_word32_at src 0, qk_dst_ip = le_word32_at dst 0,
                                    qk_src_port = sp, qk_dst_port = dp\<rparr> v h)"
  using parse_ipv4_frame [OF assms] by (simp add: parse_result_def)

lemma quic_ipv4_frame_parsed_witness:
  "parse_quic example_frame =
    Some (Quic_packet example_quic_key 1 1)"
  using quic_ipv4_frame_parsed [of "replicate 12 2" "replicate 8 0" "[0, 0]" "[10, 244, 0, 3]" "[93, 184, 216, 34]"
      "0x45" "[]" "[0, 0]" 20 "[0xC3, 0, 0, 0, 1, 8, 1, 2, 3, 4, 5, 6]" 50000 443]
  by (simp add: example_frame_def example_quic_header le_word32_at_def le_word32_def)

text \<open>
  C24. A QUIC flow over any sequence of packets on any CPUs: its bytes, summed over the CPUs, grow by
  the wire lengths of the packets that parse to its key, its packet count by their number.
\<close>

theorem quic_flow_counts:
  assumes "lookup_quic a key = Some vals" and "get_config a = Some cfg" "ac_udp_socket_tx cfg = 0"
    and "\<forall>(e, pkt) \<in> set pkts. smp_processor_id e < n"
  shows "\<exists>vals'. lookup_quic (quic_run pkts a) key = Some vals' \<and>
    cpu_total n qm_tx_bytes vals' =
      cpu_total n qm_tx_bytes vals + (\<Sum>p\<leftarrow>filter (of_flow key) pkts. of_nat (length (snd p))) \<and>
    cpu_total n qm_pkt_count vals' = cpu_total n qm_pkt_count vals + of_nat (length (filter (of_flow key) pkts))"
  using assms by (rule quic_run_flow)

lemma quic_flow_counts_witness:
  "let a = example_agent\<lparr>quic_flows := bpf_map_write example_quic_key (\<lambda>_. zero_quic_flow_metrics) (empty_bmap 65536)\<rparr> in
    \<exists>vals. lookup_quic (quic_run [(example_env 1, example_frame), (example_env 2, [1, 2]), (example_env 3, example_frame)] a)
        example_quic_key = Some vals \<and> cpu_total 1 qm_tx_bytes vals = 108 \<and> cpu_total 1 qm_pkt_count vals = 2"
proof -
  let ?a = "example_agent\<lparr>quic_flows := bpf_map_write example_quic_key (\<lambda>_. zero_quic_flow_metrics) (empty_bmap 65536)\<rparr>"
  let ?pkts = "[(example_env 1, example_frame), (example_env 2, [1, 2]), (example_env 3, example_frame)]"
  have "get_config ?a = Some example_config" using get_config_cong [of ?a example_agent] by simp
  moreover have "lookup_quic ?a example_quic_key = Some (\<lambda>_. zero_quic_flow_metrics)" by (simp add: lookup_quic_def)
  moreover have "filter (of_flow example_quic_key) ?pkts = [(example_env 1, example_frame), (example_env 3, example_frame)]"
    by (simp add: of_flow_def example_frame_parsed) (simp add: parse_quic_def ETH_HLEN_def IP_MIN_HLEN_def UDP_HLEN_def)
  moreover have "length example_frame = 54" by (simp add: example_frame_def ipv4_header_def udp_datagram_def)
  ultimately show ?thesis
    using quic_flow_counts [of ?a example_quic_key "\<lambda>_. zero_quic_flow_metrics" example_config ?pkts 1]
    by (simp add: example_config_def Let_def cpu_total_def zero_quic_flow_metrics_def)
qed

section \<open>The drain\<close>



text \<open>
  C26. The batch loop of the poller returns: after at most one call per bucket and one more, whatever
  the programs do between the calls. It is a run of atomic drains, and when no call fails it
  drains every flow that was in the map when it began.
\<close>

theorem batch_poll_drains:
  assumes "reachable n s" and "batch_contract bucket buckets ask"
    and "\<forall>i c a. br_err (ask i c a) \<noteq> Batch_failed" and "\<forall>j k. Poll_flow k \<notin> set (busy j)"
  shows "\<exists>kss. length kss \<le> Suc buckets \<and>
    poll_batch n ask busy 0 0 s = Some (fold (sys_step n) (rounds busy 0 kss) s) \<and>
    (\<forall>k. has_flow (fst s) k \<longrightarrow> k \<in> set (concat kss))"
proof -
  from poll_batch_returns [OF assms(2) reachable_wf [OF assms(1)], of 0 n busy 0] obtain kss where
    "length kss \<le> Suc buckets" "poll_batch n ask busy 0 0 s = Some (fold (sys_step n) (rounds busy 0 kss) s)"
    "\<forall>k. has_flow (fst s) k \<longrightarrow> (\<forall>j. Poll_flow k \<notin> set (busy j)) \<longrightarrow> k \<in> set (concat kss)"
    using assms(3) by auto
  then show ?thesis using assms(4) by blast
qed

lemma batch_poll_drains_witness:
  "\<exists>kss. length kss \<le> 3 \<and> poll_batch 1 example_batch (\<lambda>i. if i = 1 then example_run else []) 0 0
      (fold (sys_step 1) example_run (example_agent, [])) =
    Some (fold (sys_step 1) (rounds (\<lambda>i. if i = 1 then example_run else []) 0 kss)
      (fold (sys_step 1) example_run (example_agent, []))) \<and>
    (\<forall>k. has_flow (fst (fold (sys_step 1) example_run (example_agent, []))) k \<longrightarrow> k \<in> set (concat kss))"
proof -
  have "reachable 1 (fold (sys_step 1) example_run (example_agent, []))"
    by (simp only: fold_simps id_apply) (intro reachable.move reachable.boot; simp)
  from batch_poll_drains [OF this example_batch_contract] show ?thesis
    by (simp add: example_batch_succeeds del: sys_step.simps)
qed

text \<open>
  C27. The drain by \<open>LookupAndDelete\<close> loses nothing; the fall back that reads and then deletes loses
  exactly what the entry gains in between, and no drop counter shows it.
\<close>

theorem read_then_delete_loses_gain:
  assumes "reachable n s"
  shows "accounted_tx n (poll_key n True busy key s) = accounted_tx n s \<and>
    accounted_tx n (poll_key n False busy key s) +
      (flow_tx n key (fst (fold (sys_step n) busy s)) - flow_tx n key (fst s)) =
      accounted_tx n (fold (sys_step n) busy s) \<and>
    map_update_drops n (poll_key n False busy key s) = map_update_drops n (fold (sys_step n) busy s)"
  using reachable_wf [OF assms] read_then_delete [of s n busy key] poll_flow_accounts(1) [of s n key]
  by (simp add: poll_key_def)

lemma read_then_delete_loses_gain_witness:
  "accounted_tx 1 (poll_key 1 True example_run (flow_key_of zero_conn_info) (example_agent, [])) =
      accounted_tx 1 (example_agent, []) \<and>
    accounted_tx 1 (poll_key 1 False example_run (flow_key_of zero_conn_info) (example_agent, [])) +
      (flow_tx 1 (flow_key_of zero_conn_info) (fst (fold (sys_step 1) example_run (example_agent, []))) -
        flow_tx 1 (flow_key_of zero_conn_info) (fst (example_agent, []))) =
      accounted_tx 1 (fold (sys_step 1) example_run (example_agent, [])) \<and>
    map_update_drops 1 (poll_key 1 False example_run (flow_key_of zero_conn_info) (example_agent, [])) =
      map_update_drops 1 (fold (sys_step 1) example_run (example_agent, []))"
  
  using read_then_delete_loses_gain [OF reachable.boot [of 1 no_sizes example_config], of example_run "flow_key_of zero_conn_info"] by simp

section \<open>Where traffic goes\<close>

text \<open>
  C28. A destination is judged by the longest prefix that the cloud's topology has for it. After any
  sequence of topology updates, for traffic that leaves the node and the cluster, the type of a
  flow is that of the longest prefix of the latest peering, transit-gateway and endpoint sets
  that holds its destination, of equally long ones the first in that order; and a public
  destination in none of them goes out through the NAT gateway or the internet.
\<close>

theorem longest_prefix_decides:
  fixes ops z flow
  defines "c \<equiv> fold topology_step ops (new_classifier z)" and "dst \<equiv> nbo_to_addr (fi_dst_ip flow)"
  assumes "\<not> fi_is_sidecar flow" "\<not> fi_intra_node flow" "\<not> is_loopback dst" "\<not> is_cluster_internal c (Addr4 dst)"
    and "is_private dst \<longrightarrow> Addr4 dst \<notin> cf_nat_gateway_ips c"
  shows "(\<forall>e. longest_match (topology_of ops) (Addr4 dst) e \<longrightarrow> cr_type (classify c flow) = pe_type e) \<and>
    ((\<exists>e. longest_match (topology_of ops) (Addr4 dst) e) \<longleftrightarrow>
      (\<exists>e \<in> set (topology_of ops). prefix_contains (pe_prefix e) (Addr4 dst))) \<and>
    (\<not> is_private dst \<and> (\<forall>e \<in> set (topology_of ops). \<not> prefix_contains (pe_prefix e) (Addr4 dst)) \<longrightarrow>
      cr_type (classify c flow) = (if cf_default_route_nat c then NATGatewayEgress else InternetEgress))"
proof -
  have tree: "cf_prefix_tree c = tree_build (topology_of ops)"
    using run_topology [of ops z] by (simp add: c_def topology_current_def)
  have none: "tree_lookup (tree_build es) a = (Unknown, False)" if "\<forall>e \<in> set es. \<not> prefix_contains (pe_prefix e) a" for es a
    using that by (intro tree_lookup_none) (simp add: tree_build_sorts)
  have "cr_type (classify c flow) = pe_type e" if "longest_match (topology_of ops) (Addr4 dst) e" for e
    using assms(3-) tree_lookup_longest [OF that]
    by (simp add: classify_def classify_private_def classify_external_def Let_def tree dst_def)
  moreover have "e \<in> set (topology_of ops) \<and> prefix_contains (pe_prefix e) (Addr4 dst)"
    if "longest_match (topology_of ops) (Addr4 dst) e" for e
    using that by (auto simp: longest_match_def)
  ultimately show ?thesis
    using assms(3-) none [of "topology_of ops" "Addr4 dst"] longest_match_ex [of _ "topology_of ops" "Addr4 dst"]
    by (auto simp: classify_def classify_external_def Let_def tree dst_def)
qed

lemma longest_prefix_decides_witness:
  "cr_type (classify (fold topology_step example_topology (new_classifier new_zone_resolver)) example_flow_info) = TransitGateway"
proof -
  have dst: "nbo_to_addr (fi_dst_ip example_flow_info) = 0x0A140105"
    by (simp add: nbo_to_addr_def le_bytes32_def le_word32_def example_flow_info_def)
  have "topology_of example_topology = [\<lparr>pe_prefix = Prefix4 0x0A140000 16, pe_type = VPCPeering\<rparr>,
      \<lparr>pe_prefix = Prefix4 0x0A000000 8, pe_type = TransitGateway\<rparr>] @ \<lparr>pe_prefix = Prefix4 0x0A140100 24, pe_type = TransitGateway\<rparr> # []"
    by (simp add: topology_of_def entries_of_def example_topology_def prefix_valid_def)
  then have "longest_match (topology_of example_topology) (Addr4 0x0A140105) \<lparr>pe_prefix = Prefix4 0x0A140100 24, pe_type = TransitGateway\<rparr>"
    unfolding longest_match_def by (intro exI) (rule conjI, assumption, simp)
  then show ?thesis
    using longest_prefix_decides [of example_flow_info example_topology new_zone_resolver]
    by (simp add: dst) (simp add: example_flow_info_def is_loopback_def is_cluster_internal_def example_topology_def
        set_vpc_peering_cidrs_def set_transit_gateway_cidrs_def new_classifier_def rebuild_prefix_tree_def Let_def)
qed


text \<open>
  C30. A zone gives back its region. The zone names of the three clouds, a region with a letter behind
  its digit, a region and a letter, a region and an ordinal as \<open>QualifyAzureZone\<close> joins them, are
  taken apart into the region by the classifier's function and by the agent's own.
\<close>

theorem region_recovered:
  assumes "region \<noteq> []" "ascii_lower letter" "ascii_digit digit" "ordinal \<noteq> []" "list_all ascii_digit ordinal"
  shows "region_from_zone (region @ [digit, letter]) = region @ [digit] \<and>
    agent_region_from_zone (region @ [digit, letter]) = Some (region @ [digit]) \<and>
    region_from_zone (region @ ''-'' @ [letter]) = region \<and>
    agent_region_from_zone (region @ ''-'' @ [letter]) = Some region \<and>
    region_from_zone (qualify_azure_zone region ordinal) = region \<and>
    agent_region_from_zone (qualify_azure_zone region ordinal) = Some region"
proof -
  have "aws_zone (region @ [digit, letter])" using aws_zone_snoc [of "region @ [digit]" letter] assms by simp
  then show ?thesis
    using assms by (simp add: region_of_aws agent_region_of_aws butlast_append azure_region letter_region [simplified])
qed

lemma region_recovered_witness:
  "region_from_zone ''us-east-1a'' = ''us-east-1'' \<and> region_from_zone (qualify_azure_zone ''eastus'' ''2'') = ''eastus''"
  using region_recovered [of "''us-east-''" "CHR ''a''" "CHR ''1''" "''2''"]
    region_recovered [of "''eastus''" "CHR ''a''" "CHR ''1''" "''2''"]
  by (simp add: ascii_digit_def ascii_lower_def)

text \<open>
  C31. The services of an address are what the endpoint slices say. After any events of the cluster,
  the endpoints that the informer has for an address are, counted with multiplicity, those that the
  latest contents of the slices that are there list for it; no slice is remembered that is gone,
  and no address without an endpoint.
\<close>

theorem services_follow_slices:
  "let t = fold (kube_step pa pp) evs new_informer; m = fold slice_effect evs Map.empty in
    in_endpoints_by_slice t = m \<and> (\<forall>addr. mset (lookup_service t addr) = advertised m addr) \<and>
    (\<forall>addr. in_pod_ip_to_services t addr \<noteq> Some [])"
  using kube_run_ok [OF new_informer_ok, of evs pa pp] by (simp add: Let_def slices_ok_def lookup_service_def)

text \<open>
  C32. Pod traffic is never charged as internet traffic. Once a node has announced a pod range,
  after any further events of the cluster and any topology updates, traffic to an address of the
  range is judged by the zones of its two ends, wherever the range lies.
\<close>

theorem pod_ranges_internal:
  assumes "\<forall>ev \<in> set (evs @ Kube (Node_seen names ips node) # evs'). keeps_ranges ev"
    and "raw \<in> set (node_cidrs node)" "raw \<noteq> []" "pp raw = Some p"
    and "prefix_contains p (Addr4 (nbo_to_addr (fi_dst_ip flow)))" "\<not> fi_is_sidecar flow" "\<not> fi_intra_node flow"
    and "\<not> is_loopback (nbo_to_addr (fi_dst_ip flow))"
  shows "cr_type (classify (snd (view_run pa pp (evs @ Kube (Node_seen names ips node) # evs') (new_informer, c))) flow)
    \<in> {Unknown, SameZone, CrossAZ, CrossRegion}"
proof -
  let ?c = "snd (view_run pa pp (evs @ Kube (Node_seen names ips node) # evs') (new_informer, c))"
  have "prefix_valid p" using assms(5) by (auto simp: prefix_valid_def)
  then have "p \<in> set (cf_cluster_prefixes ?c)" using announced_range assms(1-4) by blast
  then have "is_cluster_internal ?c (Addr4 (nbo_to_addr (fi_dst_ip flow)))"
    using assms(5) by (auto simp: is_cluster_internal_def list_ex_iff)
  then show ?thesis using assms(6-8) internal_types by (simp add: classify_def Let_def)
qed

lemma pod_ranges_internal_witness:
  "cr_type (classify (snd (view_run (\<lambda>_. None) example_prefix_parser
      ([] @ Kube (Node_seen [] [] example_node) # [Topology (Set_default_nat True)])
      (new_informer, new_classifier new_zone_resolver))) (example_flow_info\<lparr>fi_dst_ip := 0x05004064\<rparr>))
    \<in> {Unknown, SameZone, CrossAZ, CrossRegion}"
  by (rule pod_ranges_internal [where raw = "''100.64.0.0/24''" and p = "Prefix4 0x64400000 24"])
    (simp_all add: node_cidrs_def example_node_def example_prefix_parser_def example_flow_info_def nbo_to_addr_def
      le_bytes32_def le_word32_def is_loopback_def)

section \<open>The loader\<close>





section \<open>What kernel and userspace share\<close>

text \<open>
  C35. Every event in the ring, in every state of every run, is read back by userspace as it was
  submitted: its bytes at their C offsets, with anything in the compiler's padding, are
  dispatched on the type byte and cast to the same event.
\<close>

theorem events_read_back:
  assumes "typed_config cfg" and "\<forall>ev \<in> set evs. typed_sys_event ev"
    and "ev \<in> set (events (fst (fold (sys_step n) evs (boot_agent sizes cfg, []))))" and "length hole = 4"
  shows "read_event (event_bytes hole ev) = Some ev"
  using typed_ring_read [OF run_typed [OF assms(1,2)] assms(3,4)] .

lemma events_read_back_witness:
  "read_event (event_bytes [1, 2, 3, 4] (Connect (connect4_event (example_env 1) (example_connect 17) 17))) =
    Some (Connect (connect4_event (example_env 1) (example_connect 17) 17))"
proof (rule events_read_back [of example_config "[Kernel (example_env 1) (Connect4 (example_connect 17))]"])
  show "Connect (connect4_event (example_env 1) (example_connect 17) 17) \<in>
      set (events (fst (fold (sys_step 1) [Kernel (example_env 1) (Connect4 (example_connect 17))] (example_agent, []))))"
    by (simp add: tollwing_connect4_def Let_def emit_event_def)
qed (simp_all add: example_env_typed typed_config_def example_config_def)


section \<open>The vendored headers\<close>


text \<open>
  C38. \<open>BPF_PROG2\<close> gives the program's body the arguments of the traced function: up to twelve values of
  1, 2, 4, 8 or 16 bytes, placed one after the other in the words of the context, whatever the
  unused bytes of a word hold.
\<close>

theorem prog2_recovers_arguments:
  assumes "length vs \<le> 12" and "\<forall>v \<in> set vs. length v \<in> {1, 2, 4, 8, 16}" and "placed ctx 0 vs"
  shows "BPF_PROG2 (map length vs) ctx = Some vs"
  using assms by (rule prog2_arguments)

lemma prog2_recovers_arguments_witness:
  "BPF_PROG2 [4, 16, 1] (\<lambda>i. [0xFFFFFFFF00000007, 0x0807060504030201, 0x100F0E0D0C0B0A09, 0xAA05] ! i) =
    Some [[7, 0, 0, 0], [1, 2, 3, 4, 5, 6, 7, 8, 9, 10, 11, 12, 13, 14, 15, 16], [5]]"
proof -
  let ?vs = "[[7, 0, 0, 0], [1, 2, 3, 4, 5, 6, 7, 8, 9, 10, 11, 12, 13, 14, 15, 16], [5]] :: u8 list list"
  let ?ctx = "\<lambda>i. [0xFFFFFFFF00000007, 0x0807060504030201, 0x100F0E0D0C0B0A09, 0xAA05] ! i"
  have sizes: "map length ?vs = [4, 16, 1]" by simp
  have "placed ?ctx 0 ?vs" by (simp add: le_bytes64_def le_bytes32_def)
  then have "BPF_PROG2 (map length ?vs) ?ctx = Some ?vs" by (intro prog2_recovers_arguments) simp_all
  then show ?thesis unfolding sizes .
qed

text \<open>
  C39. \<open>BPF_CORE_READ\<close> with up to nine accessors reads what C's \<open>src->a->b->c\<close> reads: it follows the
  pointers of all accessors but the last and reads the last field at its size.
\<close>

theorem core_read_is_arrow:
  assumes "1 \<le> length args" and "length args \<le> 9"
  shows "BPF_CORE_READ fn src args =
    Some (fn (ac_size (last args)) (chase fn src (butlast args) + ac_offset (last args)))"
  using assms by (rule core_read_chases)

lemma core_read_is_arrow_witness:
  "BPF_CORE_READ (mem_read example_memory) 1000 [\<lparr>ac_offset = 240, ac_size = 8\<rparr>, \<lparr>ac_offset = 200, ac_size = 8\<rparr>,
      \<lparr>ac_offset = 2, ac_size = 2\<rparr>] = Some [3, 4]"
proof -
  have "chase (mem_read example_memory) 1000 [\<lparr>ac_offset = 240, ac_size = 8\<rparr>, \<lparr>ac_offset = 200, ac_size = 8\<rparr>] = 3000"
    by (simp add: chase_def mem_read_def example_memory_def upt_rec loads le_word32_def)
  then show ?thesis
    using core_read_is_arrow [of "[\<lparr>ac_offset = 240, ac_size = 8\<rparr>, \<lparr>ac_offset = 200, ac_size = 8\<rparr>,
      \<lparr>ac_offset = 2, ac_size = 2\<rparr>]" "mem_read example_memory" 1000]
    by (simp add: mem_read_def example_memory_def upt_rec)
qed


end
